(* ===== verification/Prelude.thy ===== *)
theory Prelude
  imports Main "HOL-Library.Word"
begin

text \<open>
  Shared vocabulary of the terminology development: the lemma collections the
  component theories fill, the type names of the model, and generic facts on
  lists, sums and modular arithmetic that several components use.
\<close>

section \<open>Lemma collections\<close>

named_theorems ring_simps "index arithmetic of the circular backlog buffer"
named_theorems ledger_simps "byte accounting of backlog rows"

section \<open>Types of the model\<close>

text \<open>
  A terminal session (a \<open>Termpty\<close> of the C code) is identified by a number; the
  threads of the process likewise. Byte counts of the memory ledger are signed
  (\<open>int64_t\<close> in \<open>termpty_backlog_memory_get\<close>); the model uses \<open>int\<close>.
\<close>

type_synonym tid = nat
type_synonym thread = nat
type_synonym bytes = int

section \<open>Lists\<close>

lemma sum_list_map_take_drop [ledger_simps]:
  "sum_list (map f (take n xs)) + sum_list (map f (drop n xs)) = sum_list (map f xs)"
  by (metis append_take_drop_id map_append sum_list_append)

lemma sum_list_map_update [ledger_simps]:
  fixes f :: "'a \<Rightarrow> 'b::ab_group_add"
  shows "k < length xs \<Longrightarrow>
    sum_list (map f (xs[k := x])) = sum_list (map f xs) - f (xs ! k) + f x"
proof (induction xs arbitrary: k)
  case Nil
  then show ?case by simp
next
  case (Cons a xs)
  then show ?case by (cases k) (simp_all add: algebra_simps)
qed

lemma sum_list_map_butlast_last:
  "xs \<noteq> [] \<Longrightarrow> sum_list (map f xs) = sum_list (map f (butlast xs)) + f (last xs)"
  by (induction xs rule: rev_induct) simp_all

lemma take_Cons_min:
  "0 < n \<Longrightarrow> take n (x # xs) = x # take (n - 1) xs"
  by (cases n) simp_all

lemma list_all_upt_iff:
  "list_all P [a..<b] \<longleftrightarrow> (\<forall>i. a \<le> i \<and> i < b \<longrightarrow> P i)"
  by (auto simp: list_all_iff)

lemma nth_eq_iff_index_eq_distinct:
  "distinct xs \<Longrightarrow> i < length xs \<Longrightarrow> j < length xs \<Longrightarrow> (xs ! i = xs ! j) = (i = j)"
  by (simp add: nth_eq_iff_index_eq)

section \<open>Modular arithmetic on natural numbers\<close>

text \<open>
  A circular index written with natural-number subtraction,
  \<open>(n - 1 + p - y) mod n\<close>, equals the integer residue \<open>(p - 1 - y) mod n\<close> as long
  as the subtraction does not stop at zero, which \<open>y < n\<close> guarantees.
\<close>

lemma nat_ring_sub_int:
  fixes n p y :: nat
  assumes "y < n"
  shows "int ((n - 1 + p - y) mod n) = (int p - 1 - int y) mod int n"
proof -
  have "int (n - 1 + p - y) = int n + (int p - 1 - int y)"
    using assms by simp
  then have "int ((n - 1 + p - y) mod n) = (int n + (int p - 1 - int y)) mod int n"
    by (metis of_nat_mod)
  then show ?thesis by simp
qed

lemma int_mod_cancel_sub:
  fixes a b c n :: int
  assumes "(a - b) mod n = (a - c) mod n"
  shows "b mod n = c mod n"
  using assms by (metis (no_types, opaque_lifting) diff_diff_eq2 mod_diff_cong
      add_diff_cancel_left' diff_add_cancel mod_diff_right_eq)

lemma int_Suc_mod_diff:
  "(int (Suc p mod n) - k) mod int n = (int p + 1 - k) mod int n"
proof -
  have "int (Suc p mod n) = (int p + 1) mod int n"
    by (simp only: of_nat_mod of_nat_Suc add.commute)
  then show ?thesis
    by (simp only: mod_diff_left_eq)
qed

end
