(* ===== verification/Backlog.thy ===== *)
theory Backlog
  imports Prelude
begin

text \<open>
  The per-session scrollback buffer (\<open>src/bin/backlog.h\<close>): row snapshots
  (\<open>Termsave\<close>), the circular array of slots with its write position
  \<open>backpos\<close>, fill count and capacity \<open>backsize\<close>, the index macro
  \<open>BACKLOG_ROW_GET\<close> on \<open>size_t\<close> words, and the buffer operations push, get,
  expand, clear and capacity change. Each operation returns the new buffer with
  the signed change it makes to the process-wide memory ledger. The abstraction
  \<open>backlog_rows\<close> reads the buffer as the list of stored rows, most recent first;
  the refinement lemmas say what each operation does to that list.
\<close>

section \<open>Row snapshots\<close>

record termcell =
  codepoint :: "32 word"
  att :: "64 word"

record termsave =
  ts_w :: nat
  ts_cells :: "termcell list"

datatype backlog_error = OutOfRange | WidthMismatch | AllocationFailure

text \<open>Bytes charged to the ledger per stored cell (\<open>sizeof(Termcell)\<close>).\<close>

definition sizeof_termcell :: nat where
  "sizeof_termcell = 12"

definition ts_cost :: "termsave \<Rightarrow> bytes" where
  "ts_cost ts = int (ts_w ts * sizeof_termcell)"

definition ts_wf :: "termsave \<Rightarrow> bool" where
  "ts_wf ts \<longleftrightarrow> ts_w ts = length (ts_cells ts)"

definition termpty_save_new :: "nat \<Rightarrow> termcell list \<Rightarrow> backlog_error + termsave" where
  "termpty_save_new w cells =
     (if length cells = w then Inr \<lparr>ts_w = w, ts_cells = cells\<rparr> else Inl WidthMismatch)"

text \<open>
  Expansion appends exactly \<open>new_w - ts_w ts\<close> cells; \<open>alloc_ok\<close> is the outcome of
  the reallocation, and a failed one leaves the row as it was.
\<close>

definition termpty_save_expand ::
  "bool \<Rightarrow> nat \<Rightarrow> termcell list \<Rightarrow> termsave \<Rightarrow> backlog_error + termsave" where
  "termpty_save_expand alloc_ok new_w cells ts =
     (if new_w < ts_w ts \<or> length cells \<noteq> new_w - ts_w ts then Inl WidthMismatch
      else if \<not> alloc_ok then Inl AllocationFailure
      else Inr \<lparr>ts_w = new_w, ts_cells = ts_cells ts @ cells\<rparr>)"

definition rows_mem :: "termsave list \<Rightarrow> bytes" where
  "rows_mem xs = sum_list (map ts_cost xs)"

definition slot_cost :: "termsave option \<Rightarrow> bytes" where
  "slot_cost s = (case s of None \<Rightarrow> 0 | Some ts \<Rightarrow> ts_cost ts)"

section \<open>The circular buffer\<close>

record backlog =
  backsize :: nat
  backpos :: nat
  backlen :: nat
  back_slots :: "termsave option list"

text \<open>
  \<open>BACKLOG_ROW_GET(ty, y)\<close> reads slot \<open>(backsize - 1 + backpos - y) % backsize\<close>:
  \<open>backpos\<close> is the slot the next push writes, so offset 0 is the slot just before
  it. First on natural numbers, then on the \<open>size_t\<close> words of the macro.
\<close>

definition row_index :: "nat \<Rightarrow> nat \<Rightarrow> nat \<Rightarrow> nat" where
  "row_index n p y = (n - 1 + p - y) mod n"

definition backlog_row_get :: "64 word \<Rightarrow> 64 word \<Rightarrow> 64 word \<Rightarrow> 64 word" where
  "backlog_row_get backsize_w backpos_w y = (backsize_w - 1 + backpos_w - y) mod backsize_w"

definition row_slot :: "backlog \<Rightarrow> nat \<Rightarrow> nat" where
  "row_slot b y = row_index (backsize b) (backpos b) y"

definition backlog_new :: "nat \<Rightarrow> backlog" where
  "backlog_new n = \<lparr>backsize = n, backpos = 0, backlen = 0, back_slots = replicate n None\<rparr>"

definition backlog_rows :: "backlog \<Rightarrow> termsave list" where
  "backlog_rows b = map (\<lambda>y. the (back_slots b ! row_slot b y)) [0..<backlen b]"

definition backlog_length :: "backlog \<Rightarrow> nat" where
  "backlog_length b = backlen b"

definition slots_mem :: "backlog \<Rightarrow> bytes" where
  "slots_mem b = sum_list (map slot_cost (back_slots b))"

definition backlog_inv :: "backlog \<Rightarrow> bool" where
  "backlog_inv b \<longleftrightarrow>
     length (back_slots b) = backsize b \<and> backlen b \<le> backsize b \<and>
     (if backsize b = 0 then backpos b = 0 else backpos b < backsize b) \<and>
     list_all (\<lambda>y. (back_slots b ! row_slot b y = None) = (backlen b \<le> y)) [0..<backsize b] \<and>
     list_all (\<lambda>s. case s of None \<Rightarrow> True | Some ts \<Rightarrow> ts_wf ts) (back_slots b)"

section \<open>Buffer operations\<close>

text \<open>
  Push writes the slot at \<open>backpos\<close>, releasing the row it held (the oldest one
  once the buffer is full), then advances \<open>backpos\<close> circularly; the fill count
  saturates at the capacity. A buffer of capacity 0 retains nothing.
\<close>

definition backlog_push :: "termsave \<Rightarrow> backlog \<Rightarrow> backlog \<times> bytes" where
  "backlog_push ts b =
     (if backsize b = 0 then (b, 0)
      else (b\<lparr>back_slots := (back_slots b)[backpos b := Some ts],
              backpos := Suc (backpos b) mod backsize b,
              backlen := min (Suc (backlen b)) (backsize b)\<rparr>,
            ts_cost ts - slot_cost (back_slots b ! backpos b)))"

definition backlog_get :: "backlog \<Rightarrow> nat \<Rightarrow> backlog_error + termsave" where
  "backlog_get b y =
     (if y < backlen b then
        (case back_slots b ! row_slot b y of None \<Rightarrow> Inl OutOfRange | Some ts \<Rightarrow> Inr ts)
      else Inl OutOfRange)"

definition backlog_expand ::
  "bool \<Rightarrow> nat \<Rightarrow> nat \<Rightarrow> termcell list \<Rightarrow> backlog \<Rightarrow> backlog_error + backlog \<times> bytes" where
  "backlog_expand alloc_ok y new_w cells b =
     (case backlog_get b y of
        Inl e \<Rightarrow> Inl e
      | Inr ts \<Rightarrow>
          (case termpty_save_expand alloc_ok new_w cells ts of
             Inl e \<Rightarrow> Inl e
           | Inr ts' \<Rightarrow>
               Inr (b\<lparr>back_slots := (back_slots b)[row_slot b y := Some ts']\<rparr>,
                    ts_cost ts' - ts_cost ts)))"

text \<open>
  A buffer of capacity \<open>n\<close> laid out from a list of rows, most recent first: the
  rows fill slots \<open>0 .. length xs - 1\<close> oldest first and the next write goes to
  slot \<open>length xs mod n\<close>.
\<close>

definition backlog_of_rows :: "nat \<Rightarrow> termsave list \<Rightarrow> backlog" where
  "backlog_of_rows n xs =
     \<lparr>backsize = n, backpos = length xs mod n, backlen = length xs,
      back_slots = map (\<lambda>i. if i < length xs then Some (xs ! (length xs - 1 - i)) else None)
                     [0..<n]\<rparr>"

definition termpty_clear_backlog :: "backlog \<Rightarrow> backlog \<times> bytes" where
  "termpty_clear_backlog b = (backlog_new (backsize b), - slots_mem b)"

definition termpty_backlog_size_set :: "nat \<Rightarrow> backlog \<Rightarrow> backlog \<times> bytes" where
  "termpty_backlog_size_set n b =
     (if n = backsize b then (b, 0)
      else (backlog_of_rows n (take n (backlog_rows b)), - rows_mem (drop n (backlog_rows b))))"

section \<open>Operations as one interface\<close>

text \<open>
  The operations a caller can apply to a session buffer, and one step function
  that dispatches them. The global registry (theory \<open>Registry\<close>) drives
  buffers only through this step.
\<close>

datatype backlog_op =
    Push termsave
  | Expand bool nat nat "termcell list"
  | Clear
  | Size_Set nat

fun backlog_step :: "backlog_op \<Rightarrow> backlog \<Rightarrow> backlog_error + backlog \<times> bytes" where
  "backlog_step (Push ts) b = Inr (backlog_push ts b)"
| "backlog_step (Expand ok y w cells) b = backlog_expand ok y w cells b"
| "backlog_step Clear b = Inr (termpty_clear_backlog b)"
| "backlog_step (Size_Set n) b = Inr (termpty_backlog_size_set n b)"

section \<open>Abstract specification\<close>

text \<open>
  What a session buffer promises (\<open>spec.md\<close>, section 4.1), on the list of
  its rows, most recent first, together with its capacity: push keeps the newest
  \<open>capacity\<close> rows, get reads by backward offset, expand replaces one row by its
  widened copy, clear empties the list, and a capacity change keeps the newest
  rows that fit.
\<close>

definition spec_get :: "termsave list \<Rightarrow> nat \<Rightarrow> backlog_error + termsave" where
  "spec_get xs y = (if y < length xs then Inr (xs ! y) else Inl OutOfRange)"

fun spec_step ::
  "backlog_op \<Rightarrow> nat \<times> termsave list \<Rightarrow> backlog_error + nat \<times> termsave list" where
  "spec_step (Push ts) (n, xs) = Inr (n, take n (ts # xs))"
| "spec_step (Expand ok y w cells) (n, xs) =
     (if y < length xs
      then map_sum id (\<lambda>ts'. (n, xs[y := ts'])) (termpty_save_expand ok w cells (xs ! y))
      else Inl OutOfRange)"
| "spec_step Clear (n, xs) = Inr (n, [])"
| "spec_step (Size_Set m) (n, xs) = Inr (m, take m xs)"

definition backlog_abs :: "backlog \<Rightarrow> nat \<times> termsave list" where
  "backlog_abs b = (backsize b, backlog_rows b)"

definition op_wf :: "backlog_op \<Rightarrow> bool" where
  "op_wf op = (case op of Push ts \<Rightarrow> ts_wf ts | _ \<Rightarrow> True)"

section \<open>Index arithmetic\<close>

lemma row_index_lt [ring_simps]: "0 < n \<Longrightarrow> row_index n p y < n"
  by (simp add: row_index_def)

lemma row_index_int:
  "y < n \<Longrightarrow> int (row_index n p y) = (int p - 1 - int y) mod int n"
  unfolding row_index_def by (rule nat_ring_sub_int)

lemma row_index_inj:
  assumes "y1 < n" "y2 < n" "row_index n p y1 = row_index n p y2"
  shows "y1 = y2"
proof -
  have "int (row_index n p y1) = int (row_index n p y2)"
    using assms(3) by (rule arg_cong)
  then have "(int p - 1 - int y1) mod int n = (int p - 1 - int y2) mod int n"
    by (simp only: row_index_int [OF assms(1)] row_index_int [OF assms(2)])
  then have "int y1 mod int n = int y2 mod int n"
    by (rule int_mod_cancel_sub)
  with assms show ?thesis by simp
qed

lemma row_index_last [ring_simps]: "p < n \<Longrightarrow> Suc y = n \<Longrightarrow> row_index n p y = p"
  by (simp add: row_index_def)

lemma row_index_push [ring_simps]:
  assumes "p < n" "Suc y < n"
  shows "row_index n (Suc p mod n) (Suc y) = row_index n p y"
proof -
  have "int (row_index n (Suc p mod n) (Suc y)) = (int (Suc p mod n) - (1 + int (Suc y))) mod int n"
    using row_index_int [OF assms(2)] by (simp only: diff_diff_eq)
  also have "\<dots> = (int p + 1 - (1 + int (Suc y))) mod int n"
    by (rule int_Suc_mod_diff)
  also have "\<dots> = (int p - 1 - int y) mod int n"
    by (simp add: algebra_simps)
  also have "\<dots> = int (row_index n p y)"
    by (rule row_index_int [OF Suc_lessD [OF assms(2)], symmetric])
  finally show ?thesis by (simp only: of_nat_eq_iff)
qed

lemma row_index_push_0 [ring_simps]:
  assumes "p < n"
  shows "row_index n (Suc p mod n) 0 = p"
proof -
  have "int (row_index n (Suc p mod n) 0) = (int (Suc p mod n) - 1) mod int n"
    using row_index_int [of 0 n] assms by simp
  also have "\<dots> = (int p + 1 - 1) mod int n"
    by (rule int_Suc_mod_diff)
  finally show ?thesis using assms by simp
qed

lemma row_index_of_rows [ring_simps]:
  assumes "m \<le> n" "y < m"
  shows "row_index n (m mod n) y = m - 1 - y"
proof (cases "m = n")
  case True
  with assms show ?thesis by (simp add: row_index_def)
next
  case False
  with assms have "n - 1 + m mod n - y = (m - 1 - y) + n"
    by simp
  moreover have "m - 1 - y < n"
    using assms by simp
  ultimately show ?thesis
    by (simp add: row_index_def)
qed

lemma row_index_bij:
  "bij_betw (row_index n p) {..<n} {..<n}"
proof (cases "n = 0")
  case True
  then show ?thesis by (simp add: bij_betw_def)
next
  case False
  have inj: "inj_on (row_index n p) {..<n}"
    by (meson inj_onI lessThan_iff row_index_inj)
  moreover have "row_index n p ` {..<n} \<subseteq> {..<n}"
    using False by (auto simp: row_index_lt)
  ultimately show ?thesis
    by (simp add: bij_betw_def endo_inj_surj)
qed

section \<open>The size_t index of BACKLOG\_ROW\_GET\<close>

text \<open>
  C4. \<open>BACKLOG_ROW_GET\<close> on \<open>size_t\<close> words: for an offset and a write position
  below the capacity, and a capacity that leaves room for \<open>backsize - 1 + backpos\<close>
  in 64 bits, the wrapped word arithmetic of the macro computes the circular index
  \<open>(backsize - 1 + backpos - y) mod backsize\<close> exactly, so the slot it reads is in
  bounds.
\<close>

theorem backlog_row_get_unat:
  assumes "unat y < unat n" "unat p < unat n" "unat n \<le> 2 ^ 63"
  shows "unat (backlog_row_get n p y) = row_index (unat n) (unat p) (unat y)"
proof -
  have n0: "n \<noteq> 0"
    using assms(1) by auto
  have a: "unat (n - 1) = unat n - 1"
    using n0 by (simp add: unat_minus_one)
  have "unat (n - 1) + unat p < 2 ^ LENGTH(64)"
    using a assms(2,3) by simp
  then have b: "unat (n - 1 + p) = unat n - 1 + unat p"
    using a unat_add_lem by metis
  have "y \<le> n - 1 + p"
    using b assms(1) unfolding word_le_nat_alt by simp
  then have c: "unat (n - 1 + p - y) = unat n - 1 + unat p - unat y"
    using b by (metis unat_sub)
  have "unat (backlog_row_get n p y) = unat (n - 1 + p - y) mod unat n"
    by (simp only: backlog_row_get_def unat_mod)
  then show ?thesis
    by (simp only: c row_index_def)
qed

theorem backlog_row_get_unat_witness:
  "unat (1::64 word) < unat (3::64 word) \<and> unat (2::64 word) < unat (3::64 word) \<and>
   unat (3::64 word) \<le> 2 ^ 63 \<and> unat (backlog_row_get 3 2 1) = row_index 3 2 1 \<and>
   row_index 3 2 1 = 0"
  using backlog_row_get_unat [of 1 3 2] by (simp add: row_index_def)

section \<open>The invariant\<close>

lemma backlog_inv_iff:
  "backlog_inv b \<longleftrightarrow>
     length (back_slots b) = backsize b \<and> backlen b \<le> backsize b \<and>
     (if backsize b = 0 then backpos b = 0 else backpos b < backsize b) \<and>
     (\<forall>y. y < backsize b \<longrightarrow> (back_slots b ! row_slot b y = None) = (backlen b \<le> y)) \<and>
     (\<forall>s \<in> set (back_slots b). case s of None \<Rightarrow> True | Some ts \<Rightarrow> ts_wf ts)"
  by (simp add: backlog_inv_def list_all_iff atLeast0LessThan Ball_def)

lemma length_backlog_rows [simp]: "length (backlog_rows b) = backlen b"
  by (simp add: backlog_rows_def)

lemma nth_backlog_rows:
  "y < backlen b \<Longrightarrow> backlog_rows b ! y = the (back_slots b ! row_slot b y)"
  by (simp add: backlog_rows_def)

lemma backlog_inv_slot:
  assumes "backlog_inv b" "y < backlen b"
  shows "back_slots b ! row_slot b y = Some (backlog_rows b ! y)"
proof -
  have "y < backsize b" using assms by (simp add: backlog_inv_def)
  with assms have "back_slots b ! row_slot b y \<noteq> None"
    by (simp add: backlog_inv_iff)
  with assms(2) show ?thesis by (simp add: nth_backlog_rows)
qed

lemma backlog_inv_backpos:
  assumes "backlog_inv b" "0 < backsize b"
  shows "back_slots b ! backpos b =
           (if backlen b = backsize b then Some (last (backlog_rows b)) else None)"
proof -
  let ?n = "backsize b"
  have p: "backpos b < ?n" and len: "backlen b \<le> ?n"
    using assms by (simp_all add: backlog_inv_iff)
  have slot: "row_slot b (?n - 1) = backpos b"
    using p assms(2) by (simp add: row_slot_def row_index_last)
  show ?thesis
  proof (cases "backlen b = ?n")
    case True
    then have "back_slots b ! backpos b = Some (backlog_rows b ! (?n - 1))"
      using backlog_inv_slot [OF assms(1), of "?n - 1"] slot assms(2) by simp
    moreover have "backlog_rows b \<noteq> []"
      using True assms(2) by (metis length_backlog_rows length_greater_0_conv)
    ultimately show ?thesis
      using True by (simp add: last_conv_nth)
  next
    case False
    with len have "backlen b \<le> ?n - 1" by simp
    with assms have "back_slots b ! row_slot b (?n - 1) = None"
      by (simp add: backlog_inv_iff)
    with slot False show ?thesis by simp
  qed
qed

lemma backlog_rows_wf:
  assumes "backlog_inv b" "ts \<in> set (backlog_rows b)"
  shows "ts_wf ts"
proof -
  obtain y where y: "y < backlen b" and ts: "ts = backlog_rows b ! y"
    using assms(2) by (auto simp: in_set_conv_nth)
  have "row_slot b y < length (back_slots b)"
    using assms(1) y by (simp add: backlog_inv_iff row_slot_def row_index_lt)
  then have "Some ts \<in> set (back_slots b)"
    using backlog_inv_slot [OF assms(1) y] ts by (metis nth_mem)
  moreover have "\<forall>s \<in> set (back_slots b). case s of None \<Rightarrow> True | Some ts \<Rightarrow> ts_wf ts"
    using assms(1) unfolding backlog_inv_iff by blast
  ultimately show ?thesis by fastforce
qed


section \<open>Push\<close>

lemma backlog_push_slot:
  assumes "backlog_inv b" "0 < backsize b" "y < backsize b"
  shows "back_slots (fst (backlog_push ts b)) ! row_slot (fst (backlog_push ts b)) y =
           (if y = 0 then Some ts else back_slots b ! row_slot b (y - 1))"
proof -
  have p: "backpos b < backsize b" and len: "length (back_slots b) = backsize b"
    using assms by (simp_all add: backlog_inv_iff)
  show ?thesis
  proof (cases y)
    case 0
    have "row_slot (fst (backlog_push ts b)) 0 = backpos b"
      using assms(2) p by (simp add: backlog_push_def row_slot_def row_index_push_0)
    with 0 assms(2) p len show ?thesis
      by (simp add: backlog_push_def)
  next
    case (Suc y')
    have rs: "row_slot (fst (backlog_push ts b)) y = row_slot b y'"
      using Suc assms(2,3) p by (simp add: backlog_push_def row_slot_def row_index_push)
    have ne: "row_slot b y' \<noteq> backpos b"
    proof
      assume eq0: "row_slot b y' = backpos b"
      have eq: "row_index (backsize b) (backpos b) y' =
                row_index (backsize b) (backpos b) (backsize b - 1)"
        using eq0 p assms(2) by (simp add: row_slot_def row_index_last)
      have "y' = backsize b - 1"
        using row_index_inj [OF _ _ eq] Suc assms(2,3) by simp
      with Suc assms(3) show False by simp
    qed
    from Suc rs ne assms(2) show ?thesis
      by (simp add: backlog_push_def)
  qed
qed

lemma backlog_push_inv:
  assumes "backlog_inv b" "ts_wf ts"
  shows "backlog_inv (fst (backlog_push ts b))"
proof (cases "backsize b = 0")
  case True
  with assms show ?thesis by (simp add: backlog_push_def)
next
  case False
  let ?b' = "fst (backlog_push ts b)"
  have n: "0 < backsize b" using False by simp
  have basic: "length (back_slots ?b') = backsize ?b'" "backlen ?b' \<le> backsize ?b'"
      "backpos ?b' < backsize ?b'" "backsize ?b' = backsize b"
    using assms(1) n by (simp_all add: backlog_push_def backlog_inv_iff)
  have slots: "\<forall>y. y < backsize ?b' \<longrightarrow> (back_slots ?b' ! row_slot ?b' y = None) = (backlen ?b' \<le> y)"
  proof (intro allI impI)
    fix y assume y: "y < backsize ?b'"
    show "(back_slots ?b' ! row_slot ?b' y = None) = (backlen ?b' \<le> y)"
    proof (cases y)
      case 0
      have "back_slots ?b' ! row_slot ?b' y = Some ts"
        using backlog_push_slot [OF assms(1) n] y basic 0 by simp
      moreover have "0 < backlen ?b'"
        using n by (simp add: backlog_push_def)
      ultimately show ?thesis using 0 by simp
    next
      case (Suc y')
      have old: "(back_slots b ! row_slot b y' = None) = (backlen b \<le> y')"
        using assms(1) y Suc basic by (simp add: backlog_inv_iff)
      have "back_slots ?b' ! row_slot ?b' y = back_slots b ! row_slot b y'"
        using backlog_push_slot [OF assms(1) n] y basic Suc by simp
      moreover have "backlen ?b' = min (Suc (backlen b)) (backsize b)"
        using n by (simp add: backlog_push_def)
      ultimately show ?thesis
        using old Suc y basic by auto
    qed
  qed
  have "\<forall>s \<in> set (back_slots ?b'). case s of None \<Rightarrow> True | Some ts \<Rightarrow> ts_wf ts"
  proof
    fix s assume "s \<in> set (back_slots ?b')"
    then have "s \<in> insert (Some ts) (set (back_slots b))"
      using n set_update_subset_insert by (fastforce simp: backlog_push_def)
    with assms show "case s of None \<Rightarrow> True | Some ts \<Rightarrow> ts_wf ts"
      unfolding backlog_inv_iff by auto
  qed
  with basic slots n show ?thesis
    by (simp add: backlog_inv_iff)
qed


lemma backlog_push_rows:
  assumes "backlog_inv b"
  shows "backlog_rows (fst (backlog_push ts b)) = take (backsize b) (ts # backlog_rows b)"
proof (cases "backsize b = 0")
  case True
  with assms have "backlen b = 0" by (simp add: backlog_inv_iff)
  with True show ?thesis by (simp add: backlog_push_def backlog_rows_def)
next
  case False
  let ?b' = "fst (backlog_push ts b)"
  have n: "0 < backsize b" using False by simp
  have len': "backlen ?b' = min (Suc (backlen b)) (backsize b)"
    using n by (simp add: backlog_push_def)
  have size': "backsize ?b' = backsize b"
    by (simp add: backlog_push_def)
  have len: "backlen b \<le> backsize b"
    using assms by (simp add: backlog_inv_iff)
  show ?thesis
  proof (rule nth_equalityI)
    show "length (backlog_rows ?b') = length (take (backsize b) (ts # backlog_rows b))"
      using len' by simp
  next
    fix y assume "y < length (backlog_rows ?b')"
    then have y: "y < backlen ?b'" by simp
    then have yn: "y < backsize b" using len' by simp
    have slot: "back_slots ?b' ! row_slot ?b' y =
                  (if y = 0 then Some ts else back_slots b ! row_slot b (y - 1))"
      by (rule backlog_push_slot [OF assms n yn])
    show "backlog_rows ?b' ! y = take (backsize b) (ts # backlog_rows b) ! y"
    proof (cases y)
      case 0
      with y slot show ?thesis by (simp add: nth_backlog_rows n)
    next
      case (Suc y')
      have "y' < backlen b" using y len' Suc by simp
      with y slot Suc yn show ?thesis
        by (simp add: nth_backlog_rows)
    qed
  qed
qed

lemma backlog_push_mem:
  assumes "backlog_inv b"
  shows "rows_mem (backlog_rows (fst (backlog_push ts b))) =
           rows_mem (backlog_rows b) + snd (backlog_push ts b)"
proof (cases "backsize b = 0")
  case True
  with assms show ?thesis by (simp add: backlog_push_def)
next
  case False
  have n: "0 < backsize b" using False by simp
  have len: "backlen b \<le> backsize b"
    using assms by (simp add: backlog_inv_iff)
  have rows': "backlog_rows (fst (backlog_push ts b)) = take (backsize b) (ts # backlog_rows b)"
    by (rule backlog_push_rows [OF assms])
  show ?thesis
  proof (cases "backlen b = backsize b")
    case True
    then have "take (backsize b) (ts # backlog_rows b) = ts # butlast (backlog_rows b)"
      using n by (simp add: take_Cons_min butlast_conv_take)
    moreover have "backlog_rows b \<noteq> []"
      using True n by (metis length_backlog_rows length_greater_0_conv)
    ultimately show ?thesis
      using True n rows' backlog_inv_backpos [OF assms n]
        sum_list_map_butlast_last [of "backlog_rows b" ts_cost]
      by (simp add: backlog_push_def rows_mem_def slot_cost_def)
  next
    case False
    with len have "take (backsize b) (ts # backlog_rows b) = ts # backlog_rows b"
      by simp
    with False n rows' backlog_inv_backpos [OF assms n] show ?thesis
      by (simp add: backlog_push_def rows_mem_def slot_cost_def)
  qed
qed

section \<open>Get\<close>

lemma backlog_get_rows:
  assumes "backlog_inv b"
  shows "backlog_get b y =
           (if y < length (backlog_rows b) then Inr (backlog_rows b ! y) else Inl OutOfRange)"
  using backlog_inv_slot [OF assms, of y] by (simp add: backlog_get_def)


section \<open>Laying out a row list\<close>

lemma backlog_of_rows_slot:
  assumes "length xs \<le> n" "y < n"
  shows "back_slots (backlog_of_rows n xs) ! row_slot (backlog_of_rows n xs) y =
           (if y < length xs then Some (xs ! y) else None)"
proof -
  let ?m = "length xs"
  define i where "i = row_index n (?m mod n) y"
  have slot: "row_slot (backlog_of_rows n xs) y = i"
    by (simp add: backlog_of_rows_def row_slot_def i_def)
  have i: "i < n"
    using assms(2) by (simp add: row_index_lt i_def)
  have at: "back_slots (backlog_of_rows n xs) ! i =
              (if i < ?m then Some (xs ! (?m - 1 - i)) else None)"
    using i by (simp add: backlog_of_rows_def)
  show ?thesis
  proof (cases "y < ?m")
    case True
    have "i = ?m - 1 - y"
      unfolding i_def using assms(1) True by (rule row_index_of_rows)
    with True at show ?thesis
      by (simp add: slot)
  next
    case False
    have "\<not> i < ?m"
    proof
      assume im: "i < ?m"
      have lt: "?m - 1 - i < ?m"
        using im by simp
      have "row_index n (?m mod n) (?m - 1 - i) = ?m - 1 - (?m - 1 - i)"
        using assms(1) lt by (rule row_index_of_rows)
      also have "\<dots> = i"
        using im by simp
      finally have "row_index n (?m mod n) y = row_index n (?m mod n) (?m - 1 - i)"
        by (simp only: i_def)
      moreover have "?m - 1 - i < n"
        using im assms(1) by simp
      ultimately have "y = ?m - 1 - i"
        using assms(2) by (metis row_index_inj)
      with False im show False by simp
    qed
    with False at show ?thesis
      by (simp add: slot)
  qed
qed

lemma backlog_of_rows_rows:
  assumes "length xs \<le> n"
  shows "backlog_rows (backlog_of_rows n xs) = xs"
proof (rule nth_equalityI)
  show "length (backlog_rows (backlog_of_rows n xs)) = length xs"
    by (simp add: backlog_of_rows_def)
next
  fix y assume "y < length (backlog_rows (backlog_of_rows n xs))"
  then have y: "y < length xs" by (simp add: backlog_of_rows_def)
  then have "y < n" using assms by simp
  with y assms show "backlog_rows (backlog_of_rows n xs) ! y = xs ! y"
    using backlog_of_rows_slot [OF assms]
    by (simp add: nth_backlog_rows backlog_of_rows_def)
qed

lemma backlog_of_rows_inv:
  assumes "length xs \<le> n" "\<forall>ts \<in> set xs. ts_wf ts"
  shows "backlog_inv (backlog_of_rows n xs)"
proof -
  have slots: "\<forall>y. y < n \<longrightarrow>
      (back_slots (backlog_of_rows n xs) ! row_slot (backlog_of_rows n xs) y = None) =
      (length xs \<le> y)"
    using backlog_of_rows_slot [OF assms(1)] by simp
  have wf: "\<forall>s \<in> set (back_slots (backlog_of_rows n xs)).
               case s of None \<Rightarrow> True | Some ts \<Rightarrow> ts_wf ts"
    using assms by (auto simp: backlog_of_rows_def)
  show ?thesis
  proof (cases "n = 0")
    case True
    with assms(1) show ?thesis
      by (simp add: backlog_inv_iff backlog_of_rows_def)
  next
    case False
    with assms(1) slots wf show ?thesis
      by (simp add: backlog_inv_iff backlog_of_rows_def)
  qed
qed

lemma backlog_new_of_rows: "backlog_new n = backlog_of_rows n []"
  by (simp add: backlog_new_def backlog_of_rows_def map_replicate_const)

lemma backlog_new_inv: "backlog_inv (backlog_new n)"
  by (simp add: backlog_new_of_rows backlog_of_rows_inv)

lemma backlog_new_rows [simp]: "backlog_rows (backlog_new n) = []"
  by (simp add: backlog_new_def backlog_rows_def)

lemma backlog_new_fields [simp]:
  "backsize (backlog_new n) = n" "backpos (backlog_new n) = 0" "backlen (backlog_new n) = 0"
  by (simp_all add: backlog_new_def)


section \<open>The ledger by full rescan\<close>

text \<open>
  Summing the cost of every occupied slot, in slot order, gives the cost of the
  stored rows: the circular index is a bijection on the slots, and the slots it
  does not reach from an offset below \<open>backlen\<close> are empty.
\<close>

lemma slots_mem_rows:
  assumes "backlog_inv b"
  shows "slots_mem b = rows_mem (backlog_rows b)"
proof -
  let ?n = "backsize b" and ?f = "\<lambda>i. slot_cost (back_slots b ! i)"
  have len: "length (back_slots b) = ?n" and bl: "backlen b \<le> ?n"
    using assms by (simp_all add: backlog_inv_iff)
  have "slots_mem b = (\<Sum>i<?n. ?f i)"
    by (simp add: slots_mem_def sum_list_sum_nth len atLeast0LessThan)
  also have "\<dots> = (\<Sum>y<?n. ?f (row_slot b y))"
    using sum.reindex_bij_betw [OF row_index_bij [of ?n "backpos b"], of ?f]
    by (simp add: row_slot_def)
  also have "\<dots> = (\<Sum>y<backlen b. ?f (row_slot b y))"
  proof (rule sum.mono_neutral_right)
    show "\<forall>y \<in> {..<?n} - {..<backlen b}. ?f (row_slot b y) = 0"
      using assms by (auto simp: backlog_inv_iff slot_cost_def)
  qed (use bl in auto)
  also have "\<dots> = (\<Sum>y<backlen b. ts_cost (backlog_rows b ! y))"
    by (rule sum.cong) (simp_all add: backlog_inv_slot [OF assms] slot_cost_def)
  also have "\<dots> = rows_mem (backlog_rows b)"
    by (simp add: rows_mem_def sum_list_sum_nth atLeast0LessThan)
  finally show ?thesis .
qed

section \<open>Clear and capacity change\<close>

lemma termpty_clear_backlog_inv: "backlog_inv (fst (termpty_clear_backlog b))"
  by (simp add: termpty_clear_backlog_def backlog_new_inv)

lemma termpty_clear_backlog_rows: "backlog_rows (fst (termpty_clear_backlog b)) = []"
  by (simp add: termpty_clear_backlog_def backlog_new_rows)

lemma termpty_clear_backlog_mem:
  assumes "backlog_inv b"
  shows "rows_mem (backlog_rows (fst (termpty_clear_backlog b))) =
           rows_mem (backlog_rows b) + snd (termpty_clear_backlog b)"
  using slots_mem_rows [OF assms]
  by (simp add: termpty_clear_backlog_def backlog_new_rows rows_mem_def)

lemma termpty_backlog_size_set_rows:
  assumes "backlog_inv b"
  shows "backlog_rows (fst (termpty_backlog_size_set n b)) = take n (backlog_rows b)"
proof (cases "n = backsize b")
  case True
  with assms show ?thesis
    by (simp add: termpty_backlog_size_set_def backlog_inv_iff)
next
  case False
  then show ?thesis
    by (simp add: termpty_backlog_size_set_def backlog_of_rows_rows)
qed

lemma termpty_backlog_size_set_inv:
  assumes "backlog_inv b"
  shows "backlog_inv (fst (termpty_backlog_size_set n b))"
proof (cases "n = backsize b")
  case True
  with assms show ?thesis by (simp add: termpty_backlog_size_set_def)
next
  case False
  have "\<forall>ts \<in> set (take n (backlog_rows b)). ts_wf ts"
    using backlog_rows_wf [OF assms] by (auto dest: in_set_takeD)
  with False show ?thesis
    by (simp add: termpty_backlog_size_set_def backlog_of_rows_inv)
qed

lemma termpty_backlog_size_set_mem:
  assumes "backlog_inv b"
  shows "rows_mem (backlog_rows (fst (termpty_backlog_size_set n b))) =
           rows_mem (backlog_rows b) + snd (termpty_backlog_size_set n b)"
proof (cases "n = backsize b")
  case True
  then show ?thesis by (simp add: termpty_backlog_size_set_def)
next
  case False
  then show ?thesis
    using sum_list_map_take_drop [of ts_cost n "backlog_rows b"]
    by (simp add: termpty_backlog_size_set_def backlog_of_rows_rows rows_mem_def)
qed


section \<open>Expand\<close>

lemma termpty_save_expand_wf:
  assumes "ts_wf ts" "termpty_save_expand ok w cells ts = Inr ts'"
  shows "ts_wf ts'"
  using assms by (auto simp: termpty_save_expand_def ts_wf_def split: if_splits)

lemma backlog_set_row:
  assumes "backlog_inv b" "y < backlen b" "ts_wf ts'"
  shows "backlog_inv (b\<lparr>back_slots := (back_slots b)[row_slot b y := Some ts']\<rparr>) \<and>
         backlog_rows (b\<lparr>back_slots := (back_slots b)[row_slot b y := Some ts']\<rparr>) =
           (backlog_rows b)[y := ts']"
proof -
  let ?b' = "b\<lparr>back_slots := (back_slots b)[row_slot b y := Some ts']\<rparr>"
  have n: "y < backsize b" and len: "length (back_slots b) = backsize b"
    using assms by (auto simp: backlog_inv_iff)
  have rs: "row_slot ?b' = row_slot b"
    by (simp add: row_slot_def fun_eq_iff)
  have at: "back_slots ?b' ! row_slot b z =
              (if z = y then Some ts' else back_slots b ! row_slot b z)" if z: "z < backsize b" for z
  proof -
    have "row_slot b y < backsize b" "row_slot b z < backsize b"
      using n z by (simp_all add: row_slot_def row_index_lt)
    moreover have "row_slot b z = row_slot b y \<longleftrightarrow> z = y"
      using row_index_inj [OF z n] by (auto simp: row_slot_def)
    ultimately show ?thesis
      using len by auto
  qed
  have inv': "backlog_inv ?b'"
  proof -
    have "\<forall>z. z < backsize b \<longrightarrow> (back_slots ?b' ! row_slot ?b' z = None) = (backlen b \<le> z)"
      using assms at rs by (auto simp: backlog_inv_iff)
    moreover have "\<forall>s \<in> set (back_slots ?b'). case s of None \<Rightarrow> True | Some ts \<Rightarrow> ts_wf ts"
      using assms set_update_subset_insert by (fastforce simp: backlog_inv_iff)
    ultimately show ?thesis
      using assms(1) len by (simp add: backlog_inv_iff)
  qed
  have "backlog_rows ?b' = (backlog_rows b)[y := ts']"
  proof (rule nth_equalityI)
    show "length (backlog_rows ?b') = length ((backlog_rows b)[y := ts'])"
      by simp
  next
    fix z assume "z < length (backlog_rows ?b')"
    then have z: "z < backlen b" by simp
    then have "z < backsize b" using assms by (simp add: backlog_inv_iff)
    then show "backlog_rows ?b' ! z = (backlog_rows b)[y := ts'] ! z"
      using z at rs by (simp add: nth_backlog_rows)
  qed
  with inv' show ?thesis by simp
qed

lemma backlog_expand_Inr:
  assumes "backlog_inv b" "backlog_expand ok y w cells b = Inr (b', d)"
  shows "\<exists>ts'. y < backlen b \<and>
           termpty_save_expand ok w cells (backlog_rows b ! y) = Inr ts' \<and>
           b' = b\<lparr>back_slots := (back_slots b)[row_slot b y := Some ts']\<rparr> \<and>
           d = ts_cost ts' - ts_cost (backlog_rows b ! y)"
  using assms backlog_inv_slot [OF assms(1), of y]
  by (auto simp: backlog_expand_def backlog_get_def split: if_splits sum.splits)

lemma backlog_expand_inv:
  assumes "backlog_inv b" "backlog_expand ok y w cells b = Inr (b', d)"
  shows "backlog_inv b'"
  using backlog_expand_Inr [OF assms] backlog_set_row [OF assms(1)]
    termpty_save_expand_wf backlog_rows_wf [OF assms(1)]
  by (metis length_backlog_rows nth_mem)

lemma backlog_expand_mem:
  assumes "backlog_inv b" "backlog_expand ok y w cells b = Inr (b', d)"
  shows "rows_mem (backlog_rows b') = rows_mem (backlog_rows b) + d"
proof -
  obtain ts' where y: "y < backlen b"
      and ex: "termpty_save_expand ok w cells (backlog_rows b ! y) = Inr ts'"
      and b': "b' = b\<lparr>back_slots := (back_slots b)[row_slot b y := Some ts']\<rparr>"
      and d: "d = ts_cost ts' - ts_cost (backlog_rows b ! y)"
    using backlog_expand_Inr [OF assms] by blast
  have "ts_wf ts'"
    using termpty_save_expand_wf [OF _ ex] backlog_rows_wf [OF assms(1)] y
    by (metis length_backlog_rows nth_mem)
  then have "backlog_rows b' = (backlog_rows b)[y := ts']"
    using backlog_set_row [OF assms(1) y] b' by simp
  with y d show ?thesis
    by (simp add: rows_mem_def sum_list_map_update)
qed


section \<open>Summary over all operations\<close>

lemma backlog_step_inv:
  assumes "backlog_inv b" "op_wf op" "backlog_step op b = Inr (b', d)"
  shows "backlog_inv b'"
proof (cases op)
  case (Push ts)
  with assms backlog_push_inv [OF assms(1), of ts] show ?thesis
    by (simp add: op_wf_def)
next
  case (Expand ok y w cells)
  with assms show ?thesis by (auto intro: backlog_expand_inv)
next
  case Clear
  with assms termpty_clear_backlog_inv [of b] show ?thesis by simp
next
  case (Size_Set n)
  with assms termpty_backlog_size_set_inv [OF assms(1), of n] show ?thesis by simp
qed

lemma backlog_step_mem:
  assumes "backlog_inv b" "backlog_step op b = Inr (b', d)"
  shows "rows_mem (backlog_rows b') = rows_mem (backlog_rows b) + d"
proof (cases op)
  case (Push ts)
  with assms backlog_push_mem [OF assms(1), of ts] show ?thesis by auto
next
  case (Expand ok y w cells)
  with assms show ?thesis by (auto intro: backlog_expand_mem)
next
  case Clear
  with assms termpty_clear_backlog_mem [OF assms(1)] show ?thesis by auto
next
  case (Size_Set n)
  with assms termpty_backlog_size_set_mem [OF assms(1), of n] show ?thesis by auto
qed

lemma backlog_expand_refines:
  assumes "backlog_inv b"
  shows "map_sum id (backlog_abs \<circ> fst) (backlog_expand ok y w cells b) =
           spec_step (Expand ok y w cells) (backlog_abs b)"
proof (cases "y < backlen b")
  case False
  then show ?thesis
    by (simp add: backlog_expand_def backlog_get_def backlog_abs_def)
next
  case True
  note slot = backlog_inv_slot [OF assms True]
  show ?thesis
  proof (cases "termpty_save_expand ok w cells (backlog_rows b ! y)")
    case (Inl e)
    with True slot show ?thesis
      by (simp add: backlog_expand_def backlog_get_def backlog_abs_def)
  next
    case (Inr ts')
    have "ts_wf ts'"
      using termpty_save_expand_wf [OF _ Inr] backlog_rows_wf [OF assms] True
      by (metis length_backlog_rows nth_mem)
    with True slot Inr backlog_set_row [OF assms True] show ?thesis
      by (simp add: backlog_expand_def backlog_get_def backlog_abs_def)
  qed
qed

text \<open>
  C1. Refinement: on a buffer that satisfies the invariant, every buffer operation
  (push, expand, clear, capacity change) does to the capacity and the list of rows,
  most recent first, what the abstract specification \<open>spec_step\<close> says, errors
  included.
\<close>

theorem backlog_step_refines:
  assumes "backlog_inv b"
  shows "map_sum id (backlog_abs \<circ> fst) (backlog_step op b) = spec_step op (backlog_abs b)"
proof (cases op)
  case (Push ts)
  then show ?thesis
    using backlog_push_rows [OF assms, of ts]
    by (simp add: backlog_abs_def backlog_push_def)
next
  case (Expand ok y w cells)
  then show ?thesis
    using backlog_expand_refines [OF assms] by simp
next
  case Clear
  then show ?thesis
    by (simp add: backlog_abs_def termpty_clear_backlog_def backlog_rows_def backlog_new_def)
next
  case (Size_Set n)
  then show ?thesis
    using termpty_backlog_size_set_rows [OF assms, of n]
    by (simp add: backlog_abs_def termpty_backlog_size_set_def backlog_of_rows_def)
qed

theorem backlog_step_refines_witness:
  "backlog_inv (backlog_new 2) \<and>
   map_sum id (backlog_abs \<circ> fst)
     (backlog_step (Push \<lparr>ts_w = 1, ts_cells = [\<lparr>codepoint = 65, att = 0\<rparr>]\<rparr>) (backlog_new 2)) =
   spec_step (Push \<lparr>ts_w = 1, ts_cells = [\<lparr>codepoint = 65, att = 0\<rparr>]\<rparr>) (backlog_abs (backlog_new 2))"
  using backlog_step_refines [of "backlog_new 2"] backlog_new_inv [of 2] by blast

lemma backlog_get_refines:
  assumes "backlog_inv b"
  shows "backlog_get b y = spec_get (backlog_rows b) y"
  using backlog_get_rows [OF assms] by (simp add: spec_get_def)

section \<open>Properties of the session buffer\<close>

lemma backlog_push_fold:
  assumes "\<forall>ts \<in> set rs. ts_wf ts" "backlog_inv b"
  shows "backlog_inv (fold (\<lambda>ts b. fst (backlog_push ts b)) rs b) \<and>
         backsize (fold (\<lambda>ts b. fst (backlog_push ts b)) rs b) = backsize b \<and>
         backlog_rows (fold (\<lambda>ts b. fst (backlog_push ts b)) rs b) =
           take (backsize b) (rev rs @ backlog_rows b)"
  using assms
proof (induction rs arbitrary: b)
  case Nil
  then show ?case
    by (simp add: backlog_inv_iff)
next
  case (Cons r rs)
  let ?b1 = "fst (backlog_push r b)"
  have inv1: "backlog_inv ?b1"
    using Cons.prems by (simp add: backlog_push_inv)
  have size1: "backsize ?b1 = backsize b"
    by (simp add: backlog_push_def)
  have rows1: "backlog_rows ?b1 = take (backsize b) (r # backlog_rows b)"
    by (rule backlog_push_rows [OF Cons.prems(2)])
  have "take (backsize b) (rev rs @ take (backsize b) (r # backlog_rows b)) =
        take (backsize b) (rev rs @ r # backlog_rows b)"
    by (simp add: take_append)
  with Cons.IH [of ?b1] Cons.prems inv1 size1 rows1 show ?case
    by simp
qed

text \<open>
  C2. Most recent first: pushing rows into an empty buffer of capacity \<open>n\<close>,
  offset \<open>y\<close> reads the \<open>y\<close>-th most recently pushed row, for every offset below
  the number of rows retained.
\<close>

theorem backlog_most_recent_first:
  assumes "\<forall>ts \<in> set rs. ts_wf ts" "y < min n (length rs)"
  shows "backlog_get (fold (\<lambda>ts b. fst (backlog_push ts b)) rs (backlog_new n)) y =
           Inr (rev rs ! y)"
proof -
  let ?b = "fold (\<lambda>ts b. fst (backlog_push ts b)) rs (backlog_new n)"
  have size: "backsize (backlog_new n) = n"
    by (simp add: backlog_new_def)
  note fold = backlog_push_fold [OF assms(1) backlog_new_inv [of n]]
  have "backlog_inv ?b" and rows: "backlog_rows ?b = take n (rev rs)"
    using fold by (simp_all only: size backlog_new_rows append_Nil2)
  then show ?thesis
    using assms(2) by (simp add: backlog_get_rows)
qed

theorem backlog_most_recent_first_witness:
  "ts_wf \<lparr>ts_w = 1, ts_cells = [\<lparr>codepoint = 65, att = 0\<rparr>]\<rparr> \<and>
   ts_wf \<lparr>ts_w = 1, ts_cells = [\<lparr>codepoint = 66, att = 0\<rparr>]\<rparr> \<and>
   ts_wf \<lparr>ts_w = 1, ts_cells = [\<lparr>codepoint = 67, att = 0\<rparr>]\<rparr> \<and>
   (0::nat) < min 3 (length [\<lparr>ts_w = 1, ts_cells = [\<lparr>codepoint = 65, att = 0\<rparr>]\<rparr>,
                \<lparr>ts_w = 1, ts_cells = [\<lparr>codepoint = 66, att = 0\<rparr>]\<rparr>,
                \<lparr>ts_w = 1, ts_cells = [\<lparr>codepoint = 67, att = 0\<rparr>]\<rparr>]) \<and>
   backlog_get (fold (\<lambda>ts b. fst (backlog_push ts b))
       [\<lparr>ts_w = 1, ts_cells = [\<lparr>codepoint = 65, att = 0\<rparr>]\<rparr>,
        \<lparr>ts_w = 1, ts_cells = [\<lparr>codepoint = 66, att = 0\<rparr>]\<rparr>,
        \<lparr>ts_w = 1, ts_cells = [\<lparr>codepoint = 67, att = 0\<rparr>]\<rparr>] (backlog_new 3)) 0 =
     Inr \<lparr>ts_w = 1, ts_cells = [\<lparr>codepoint = 67, att = 0\<rparr>]\<rparr>"
  using backlog_most_recent_first
    [of "[\<lparr>ts_w = 1, ts_cells = [\<lparr>codepoint = 65, att = 0\<rparr>]\<rparr>,
          \<lparr>ts_w = 1, ts_cells = [\<lparr>codepoint = 66, att = 0\<rparr>]\<rparr>,
          \<lparr>ts_w = 1, ts_cells = [\<lparr>codepoint = 67, att = 0\<rparr>]\<rparr>]" 0 3]
  by (simp add: ts_wf_def)

text \<open>
  C3. Capacity: once the buffer is full, a push keeps the fill count at the
  capacity, evicts exactly the oldest row, and changes the ledger by the new
  row's cost minus the evicted row's cost.
\<close>

theorem backlog_push_full_evicts_oldest:
  assumes "backlog_inv b" "0 < backsize b" "backlen b = backsize b"
  shows "backlen (fst (backlog_push ts b)) = backsize b \<and>
         backlog_rows (fst (backlog_push ts b)) = ts # butlast (backlog_rows b) \<and>
         snd (backlog_push ts b) = ts_cost ts - ts_cost (last (backlog_rows b))"
proof -
  have "backlog_rows (fst (backlog_push ts b)) = ts # butlast (backlog_rows b)"
    using backlog_push_rows [OF assms(1), of ts] assms(2,3)
    by (simp add: take_Cons_min butlast_conv_take)
  moreover have "snd (backlog_push ts b) = ts_cost ts - ts_cost (last (backlog_rows b))"
    using backlog_inv_backpos [OF assms(1,2)] assms(2,3)
    by (simp add: backlog_push_def slot_cost_def)
  ultimately show ?thesis
    using assms(2,3) by (simp add: backlog_push_def)
qed

theorem backlog_push_full_evicts_oldest_witness:
  "backlog_inv (fst (backlog_push \<lparr>ts_w = 1, ts_cells = [\<lparr>codepoint = 65, att = 0\<rparr>]\<rparr>
                   (backlog_new 1))) \<and>
   0 < backsize (fst (backlog_push \<lparr>ts_w = 1, ts_cells = [\<lparr>codepoint = 65, att = 0\<rparr>]\<rparr>
                   (backlog_new 1))) \<and>
   backlen (fst (backlog_push \<lparr>ts_w = 1, ts_cells = [\<lparr>codepoint = 65, att = 0\<rparr>]\<rparr>
                   (backlog_new 1))) =
     backsize (fst (backlog_push \<lparr>ts_w = 1, ts_cells = [\<lparr>codepoint = 65, att = 0\<rparr>]\<rparr>
                   (backlog_new 1))) \<and>
   backlog_rows (fst (backlog_push \<lparr>ts_w = 2, ts_cells = []\<rparr>
     (fst (backlog_push \<lparr>ts_w = 1, ts_cells = [\<lparr>codepoint = 65, att = 0\<rparr>]\<rparr>
                   (backlog_new 1))))) = [\<lparr>ts_w = 2, ts_cells = []\<rparr>]"
proof -
  let ?b = "fst (backlog_push \<lparr>ts_w = 1, ts_cells = [\<lparr>codepoint = 65, att = 0\<rparr>]\<rparr> (backlog_new 1))"
  have inv: "backlog_inv ?b"
    by (rule backlog_push_inv [OF backlog_new_inv]) (simp add: ts_wf_def)
  have full: "0 < backsize ?b" "backlen ?b = backsize ?b"
    by (simp_all add: backlog_push_def backlog_new_def)
  have "backlog_rows ?b \<noteq> []"
    using full by (metis length_backlog_rows length_greater_0_conv)
  moreover have "length (backlog_rows ?b) = 1"
    using full by (simp add: backlog_push_def backlog_new_def)
  ultimately have "butlast (backlog_rows ?b) = []"
    by (simp add: butlast_conv_take)
  with backlog_push_full_evicts_oldest [OF inv full, of "\<lparr>ts_w = 2, ts_cells = []\<rparr>"] inv full
  show ?thesis by simp
qed


text \<open>
  C5. Expand: widening the row at a stored offset by exactly the missing number
  of cells succeeds; the row keeps its cells and gains the appended ones at the
  end, every other row is unchanged, and the ledger grows by the appended cells.
\<close>

theorem backlog_expand_appends:
  assumes "backlog_inv b" "y < backlen b" "ts_w (backlog_rows b ! y) \<le> w"
    "length cells = w - ts_w (backlog_rows b ! y)"
  shows "\<exists>b' d. backlog_expand True y w cells b = Inr (b', d) \<and>
           backlog_rows b' = (backlog_rows b)[y :=
              \<lparr>ts_w = w, ts_cells = ts_cells (backlog_rows b ! y) @ cells\<rparr>] \<and>
           d = int (length cells * sizeof_termcell)"
proof -
  let ?ts = "backlog_rows b ! y"
  let ?ts' = "\<lparr>ts_w = w, ts_cells = ts_cells ?ts @ cells\<rparr>"
  have ex: "termpty_save_expand True w cells ?ts = Inr ?ts'"
    using assms(3,4) by (simp add: termpty_save_expand_def)
  have wf: "ts_wf ?ts'"
    using termpty_save_expand_wf [OF _ ex] backlog_rows_wf [OF assms(1)] assms(2)
    by (metis length_backlog_rows nth_mem)
  have cost: "ts_cost ?ts' - ts_cost ?ts = int (length cells * sizeof_termcell)"
    using assms(3,4) by (simp add: ts_cost_def diff_mult_distrib of_nat_diff mult_le_mono1)
  show ?thesis
    using backlog_inv_slot [OF assms(1,2)] ex backlog_set_row [OF assms(1,2) wf] assms(2) cost
    by (simp add: backlog_expand_def backlog_get_def)
qed

theorem backlog_expand_appends_witness:
  "backlog_inv (fst (backlog_push \<lparr>ts_w = 1, ts_cells = [\<lparr>codepoint = 65, att = 0\<rparr>]\<rparr>
                   (backlog_new 2))) \<and>
   (0::nat) < backlen (fst (backlog_push \<lparr>ts_w = 1, ts_cells = [\<lparr>codepoint = 65, att = 0\<rparr>]\<rparr>
                   (backlog_new 2))) \<and>
   ts_w (backlog_rows (fst (backlog_push \<lparr>ts_w = 1, ts_cells = [\<lparr>codepoint = 65, att = 0\<rparr>]\<rparr>
                   (backlog_new 2))) ! 0) \<le> 2 \<and>
   length [\<lparr>codepoint = 66, att = 0\<rparr>] =
     2 - ts_w (backlog_rows (fst (backlog_push \<lparr>ts_w = 1, ts_cells = [\<lparr>codepoint = 65, att = 0\<rparr>]\<rparr>
                   (backlog_new 2))) ! 0) \<and>
   (\<exists>b' d. backlog_expand True 0 2 [\<lparr>codepoint = 66, att = 0\<rparr>]
              (fst (backlog_push \<lparr>ts_w = 1, ts_cells = [\<lparr>codepoint = 65, att = 0\<rparr>]\<rparr>
                   (backlog_new 2))) = Inr (b', d) \<and>
           backlog_rows b' =
             [\<lparr>ts_w = 2, ts_cells = [\<lparr>codepoint = 65, att = 0\<rparr>, \<lparr>codepoint = 66, att = 0\<rparr>]\<rparr>] \<and>
           d = int (sizeof_termcell))"
proof -
  let ?r = "\<lparr>ts_w = 1, ts_cells = [\<lparr>codepoint = 65, att = 0\<rparr>]\<rparr>"
  let ?b = "fst (backlog_push ?r (backlog_new 2))"
  have inv: "backlog_inv ?b"
    by (rule backlog_push_inv [OF backlog_new_inv]) (simp add: ts_wf_def)
  have rows: "backlog_rows ?b = [?r]"
    using backlog_push_rows [OF backlog_new_inv [of 2], of ?r] by simp
  have len: "0 < backlen ?b"
    by (simp add: backlog_push_def backlog_new_def)
  show ?thesis
    using backlog_expand_appends [OF inv len, of 2 "[\<lparr>codepoint = 66, att = 0\<rparr>]"] inv len rows
    by simp
qed

text \<open>
  C6. Expand with a wrong number of appended cells fails with \<open>WidthMismatch\<close>
  and changes nothing, whatever the outcome of the allocation would be.
\<close>

theorem backlog_expand_width_mismatch:
  assumes "backlog_inv b" "y < backlen b" "length cells \<noteq> w - ts_w (backlog_rows b ! y)"
  shows "backlog_expand ok y w cells b = Inl WidthMismatch"
  using backlog_inv_slot [OF assms(1,2)] assms(2,3)
  by (simp add: backlog_expand_def backlog_get_def termpty_save_expand_def)

theorem backlog_expand_width_mismatch_witness:
  "backlog_inv (backlog_of_rows 1 [\<lparr>ts_w = 1, ts_cells = [\<lparr>codepoint = 65, att = 0\<rparr>]\<rparr>]) \<and>
   (0::nat) < backlen (backlog_of_rows 1 [\<lparr>ts_w = 1, ts_cells = [\<lparr>codepoint = 65, att = 0\<rparr>]\<rparr>]) \<and>
   length ([] :: termcell list) \<noteq>
     3 - ts_w (backlog_rows (backlog_of_rows 1 [\<lparr>ts_w = 1, ts_cells = [\<lparr>codepoint = 65, att = 0\<rparr>]\<rparr>]) ! 0) \<and>
   backlog_expand True 0 3 []
     (backlog_of_rows 1 [\<lparr>ts_w = 1, ts_cells = [\<lparr>codepoint = 65, att = 0\<rparr>]\<rparr>]) = Inl WidthMismatch"
proof -
  let ?xs = "[\<lparr>ts_w = 1, ts_cells = [\<lparr>codepoint = 65, att = 0\<rparr>]\<rparr>]"
  have inv: "backlog_inv (backlog_of_rows 1 ?xs)"
    by (rule backlog_of_rows_inv) (simp_all add: ts_wf_def)
  have rows: "backlog_rows (backlog_of_rows 1 ?xs) = ?xs"
    by (rule backlog_of_rows_rows) simp
  have len: "0 < backlen (backlog_of_rows 1 ?xs)"
    by (simp add: backlog_of_rows_def)
  show ?thesis
    using backlog_expand_width_mismatch [OF inv len, of "[]" 3 True] inv len rows by simp
qed

text \<open>
  C7. Shrinking the capacity below the fill count keeps exactly the newest rows
  that fit, in their order, and the ledger loses the cost of the evicted rows.
\<close>

theorem backlog_shrink_keeps_newest:
  assumes "backlog_inv b" "n < backlen b"
  shows "backlog_rows (fst (termpty_backlog_size_set n b)) = take n (backlog_rows b) \<and>
         backsize (fst (termpty_backlog_size_set n b)) = n \<and>
         snd (termpty_backlog_size_set n b) = - rows_mem (drop n (backlog_rows b))"
proof -
  have "n \<noteq> backsize b"
    using assms by (simp add: backlog_inv_iff)
  then show ?thesis
    using termpty_backlog_size_set_rows [OF assms(1), of n]
    by (simp add: termpty_backlog_size_set_def backlog_of_rows_def)
qed

theorem backlog_shrink_keeps_newest_witness:
  "backlog_inv (backlog_of_rows 3 [\<lparr>ts_w = 1, ts_cells = [\<lparr>codepoint = 67, att = 0\<rparr>]\<rparr>,
       \<lparr>ts_w = 1, ts_cells = [\<lparr>codepoint = 66, att = 0\<rparr>]\<rparr>, \<lparr>ts_w = 0, ts_cells = []\<rparr>]) \<and>
   (1::nat) < backlen (backlog_of_rows 3 [\<lparr>ts_w = 1, ts_cells = [\<lparr>codepoint = 67, att = 0\<rparr>]\<rparr>,
       \<lparr>ts_w = 1, ts_cells = [\<lparr>codepoint = 66, att = 0\<rparr>]\<rparr>, \<lparr>ts_w = 0, ts_cells = []\<rparr>]) \<and>
   backlog_rows (fst (termpty_backlog_size_set 1
     (backlog_of_rows 3 [\<lparr>ts_w = 1, ts_cells = [\<lparr>codepoint = 67, att = 0\<rparr>]\<rparr>,
       \<lparr>ts_w = 1, ts_cells = [\<lparr>codepoint = 66, att = 0\<rparr>]\<rparr>, \<lparr>ts_w = 0, ts_cells = []\<rparr>]))) =
     [\<lparr>ts_w = 1, ts_cells = [\<lparr>codepoint = 67, att = 0\<rparr>]\<rparr>] \<and>
   snd (termpty_backlog_size_set 1
     (backlog_of_rows 3 [\<lparr>ts_w = 1, ts_cells = [\<lparr>codepoint = 67, att = 0\<rparr>]\<rparr>,
       \<lparr>ts_w = 1, ts_cells = [\<lparr>codepoint = 66, att = 0\<rparr>]\<rparr>, \<lparr>ts_w = 0, ts_cells = []\<rparr>])) =
     - int sizeof_termcell"
proof -
  let ?xs = "[\<lparr>ts_w = 1, ts_cells = [\<lparr>codepoint = 67, att = 0\<rparr>]\<rparr>,
       \<lparr>ts_w = 1, ts_cells = [\<lparr>codepoint = 66, att = 0\<rparr>]\<rparr>, \<lparr>ts_w = 0, ts_cells = []\<rparr>]"
  have inv: "backlog_inv (backlog_of_rows 3 ?xs)"
    by (rule backlog_of_rows_inv) (simp_all add: ts_wf_def)
  have rows: "backlog_rows (backlog_of_rows 3 ?xs) = ?xs"
    by (rule backlog_of_rows_rows) simp
  have len: "1 < backlen (backlog_of_rows 3 ?xs)"
    by (simp add: backlog_of_rows_def)
  show ?thesis
    using backlog_shrink_keeps_newest [OF inv len] inv len rows
    by (simp add: rows_mem_def ts_cost_def)
qed

text \<open>
  C8. Clear empties the buffer, and clearing a cleared buffer changes nothing and
  releases no bytes.
\<close>

theorem termpty_clear_backlog_idem:
  "backlog_rows (fst (termpty_clear_backlog b)) = [] \<and>
   termpty_clear_backlog (fst (termpty_clear_backlog b)) = (fst (termpty_clear_backlog b), 0)"
  by (simp add: termpty_clear_backlog_def backlog_new_def backlog_rows_def slots_mem_def
      slot_cost_def sum_list_replicate)

end
