(* ===== verification/Registry.thy ===== *)
theory Registry
  imports Backlog
begin

text \<open>
  The process-wide part of the scrollback engine (\<open>spec.md\<close> sections 3, 4.2,
  4.3 and 5): the session buffers of all terminals, the registry of those
  counted by the memory query, the running byte total (the ledger), and the one
  lock that serialises every call. The repository holds no C file for this part
  (only the row macro of \<open>backlog.h\<close>), so it is modelled from the
  specification. Every call on a buffer goes through \<open>backlog_step\<close> of
  \<open>Backlog\<close>, and the ledger moves by the byte delta that step reports.
\<close>

section \<open>State and calls\<close>

text \<open>
  \<open>buffers\<close>: the live session buffers, owned by their sessions; \<open>registered\<close>:
  the registry's non-owning membership; \<open>ledger\<close>: the running total;
  \<open>lock_owner\<close>: the thread holding the lock.
\<close>

record registry =
  buffers :: "tid \<rightharpoonup> backlog"
  registered :: "tid set"
  ledger :: bytes
  lock_owner :: "thread option"

definition reg_init :: registry where
  "reg_init = \<lparr>buffers = Map.empty, registered = {}, ledger = 0, lock_owner = None\<rparr>"

text \<open>
  The calls of the interface (section 6). \<open>Push_row\<close> first builds the row
  with \<open>new_snapshot\<close> (\<open>termpty_save_new\<close>), which checks the width.
\<close>

datatype reg_op =
    Create tid nat
  | Register tid
  | Unregister tid
  | Free tid
  | Push_row tid nat "termcell list"
  | Expand_row tid bool nat nat "termcell list"
  | Clear_buf tid
  | Resize tid nat
  | Extract tid nat
  | Length tid
  | Total

datatype reg_result = Done | Failed backlog_error | No_session | Memory bytes | Row termsave | Count nat

text \<open>A call on one session's buffer: the buffer and the ledger change together.\<close>

definition buf_call :: "tid \<Rightarrow> backlog_op \<Rightarrow> registry \<Rightarrow> registry \<times> reg_result" where
  "buf_call k op r =
     (case buffers r k of
        None \<Rightarrow> (r, No_session)
      | Some b \<Rightarrow>
          (case backlog_step op b of
             Inl e \<Rightarrow> (r, Failed e)
           | Inr (b', d) \<Rightarrow> (r\<lparr>buffers := (buffers r)(k \<mapsto> b'), ledger := ledger r + d\<rparr>, Done)))"

definition reg_apply :: "reg_op \<Rightarrow> registry \<Rightarrow> registry \<times> reg_result" where
  "reg_apply op r =
     (case op of
        Create k n \<Rightarrow>
          if k \<in> dom (buffers r) then (r, Done)
          else (r\<lparr>buffers := (buffers r)(k \<mapsto> backlog_new n)\<rparr>, Done)
      | Register k \<Rightarrow> (r\<lparr>registered := insert k (registered r)\<rparr>, Done)
      | Unregister k \<Rightarrow> (r\<lparr>registered := registered r - {k}\<rparr>, Done)
      | Free k \<Rightarrow>
          (case buffers r k of
             None \<Rightarrow> (r, No_session)
           | Some b \<Rightarrow> (r\<lparr>buffers := (buffers r)(k := None), registered := registered r - {k},
                          ledger := ledger r + snd (termpty_clear_backlog b)\<rparr>, Done))
      | Push_row k w cells \<Rightarrow>
          (case termpty_save_new w cells of
             Inl e \<Rightarrow> (r, Failed e)
           | Inr ts \<Rightarrow> buf_call k (Push ts) r)
      | Expand_row k ok y w cells \<Rightarrow> buf_call k (Expand ok y w cells) r
      | Clear_buf k \<Rightarrow> buf_call k Clear r
      | Resize k n \<Rightarrow> buf_call k (Size_Set n) r
      | Extract k y \<Rightarrow>
          (case buffers r k of
             None \<Rightarrow> (r, No_session)
           | Some b \<Rightarrow> (r, case backlog_get b y of Inl e \<Rightarrow> Failed e | Inr ts \<Rightarrow> Row ts))
      | Length k \<Rightarrow>
          (case buffers r k of
             None \<Rightarrow> (r, No_session)
           | Some b \<Rightarrow> (r, Count (backlog_length b)))
      | Total \<Rightarrow> (r, Memory (ledger r)))"

text \<open>
  The lock (section 5): a thread takes it when it is free, makes calls while it
  holds it, and gives it back. Which thread moves next is not determined.
\<close>

inductive reg_step :: "thread \<Rightarrow> registry \<Rightarrow> registry \<Rightarrow> bool" where
  acquire: "lock_owner r = None \<Longrightarrow> reg_step th r (r\<lparr>lock_owner := Some th\<rparr>)"
| call: "lock_owner r = Some th \<Longrightarrow> reg_step th r (fst (reg_apply op r))"
| release: "lock_owner r = Some th \<Longrightarrow> reg_step th r (r\<lparr>lock_owner := None\<rparr>)"

inductive reg_reach :: "registry \<Rightarrow> bool" where
  init: "reg_reach reg_init"
| step: "reg_reach r \<Longrightarrow> reg_step th r r' \<Longrightarrow> reg_reach r'"

inductive_cases reg_step_cases: "reg_step th r r'"

text \<open>The independent full rescan the specification verifies the ledger against.\<close>

definition rescan :: "tid set \<Rightarrow> registry \<Rightarrow> bytes" where
  "rescan ks r = (\<Sum>k \<in> ks. rows_mem (backlog_rows (the (buffers r k))))"

definition reg_inv :: "registry \<Rightarrow> bool" where
  "reg_inv r \<longleftrightarrow> finite (dom (buffers r)) \<and> (\<forall>b \<in> ran (buffers r). backlog_inv b) \<and>
     ledger r = rescan (dom (buffers r)) r"

text \<open>A small concrete registry: one buffer of capacity 2 holding one row.\<close>

abbreviation sample_cell :: termcell where
  "sample_cell \<equiv> \<lparr>codepoint = 65, att = 0\<rparr>"

abbreviation sample_registry :: registry where
  "sample_registry \<equiv>
     fst (reg_apply (Push_row 1 1 [sample_cell])
       (fst (reg_apply (Register 1) (fst (reg_apply (Create 1 2) (reg_init\<lparr>lock_owner := Some 0\<rparr>))))))"

section \<open>The ledger invariant\<close>

text \<open>Helper facts on the rescan sum under the three map updates the calls make.\<close>

lemma rescan_upd_in:
  assumes "finite (dom m)" "k \<in> dom m"
  shows "(\<Sum>j \<in> dom (m(k \<mapsto> b)). rows_mem (backlog_rows (the ((m(k \<mapsto> b)) j)))) =
         (\<Sum>j \<in> dom m. rows_mem (backlog_rows (the (m j)))) - rows_mem (backlog_rows (the (m k)))
         + rows_mem (backlog_rows b)"
proof -
  have d: "dom (m(k \<mapsto> b)) = dom m" using assms(2) by auto
  have "(\<Sum>j \<in> dom m. rows_mem (backlog_rows (the ((m(k \<mapsto> b)) j)))) =
        rows_mem (backlog_rows b) + (\<Sum>j \<in> dom m - {k}. rows_mem (backlog_rows (the (m j))))"
    using assms by (simp add: sum.remove)
  moreover have "(\<Sum>j \<in> dom m. rows_mem (backlog_rows (the (m j)))) =
        rows_mem (backlog_rows (the (m k))) + (\<Sum>j \<in> dom m - {k}. rows_mem (backlog_rows (the (m j))))"
    using assms by (simp add: sum.remove)
  ultimately show ?thesis using d by simp
qed

lemma rescan_upd_new:
  assumes "finite (dom m)" "k \<notin> dom m"
  shows "(\<Sum>j \<in> dom (m(k \<mapsto> b)). rows_mem (backlog_rows (the ((m(k \<mapsto> b)) j)))) =
         (\<Sum>j \<in> dom m. rows_mem (backlog_rows (the (m j)))) + rows_mem (backlog_rows b)"
proof -
  have "(\<Sum>j \<in> dom m. rows_mem (backlog_rows (the ((m(k \<mapsto> b)) j)))) =
        (\<Sum>j \<in> dom m. rows_mem (backlog_rows (the (m j))))"
    using assms(2) by (intro sum.cong) auto
  then show ?thesis using assms by simp
qed

lemma rescan_del:
  assumes "finite (dom m)" "k \<in> dom m"
  shows "(\<Sum>j \<in> dom (m(k := None)). rows_mem (backlog_rows (the ((m(k := None)) j)))) =
         (\<Sum>j \<in> dom m. rows_mem (backlog_rows (the (m j)))) - rows_mem (backlog_rows (the (m k)))"
proof -
  have "(\<Sum>j \<in> dom m - {k}. rows_mem (backlog_rows (the ((m(k := None)) j)))) =
        (\<Sum>j \<in> dom m - {k}. rows_mem (backlog_rows (the (m j))))"
    by (intro sum.cong) auto
  then show ?thesis using assms by (simp add: sum_diff1)
qed

lemma reg_inv_init: "reg_inv reg_init"
  by (simp add: reg_inv_def reg_init_def rescan_def)

lemma buf_call_inv:
  assumes "reg_inv r" "op_wf op"
  shows "reg_inv (fst (buf_call k op r))"
proof (cases "buffers r k")
  case None
  with assms show ?thesis by (simp add: buf_call_def)
next
  case (Some b)
  have fin: "finite (dom (buffers r))" and inv: "backlog_inv b" and led: "ledger r = rescan (dom (buffers r)) r"
    using assms(1) Some by (auto simp: reg_inv_def ran_def)
  show ?thesis
  proof (cases "backlog_step op b")
    case (Inl e)
    with assms Some show ?thesis by (simp add: buf_call_def)
  next
    case (Inr p)
    obtain b' d where p: "p = (b', d)" by (cases p)
    have inv': "backlog_inv b'" using backlog_step_inv [OF inv assms(2)] Inr p by simp
    have mem: "rows_mem (backlog_rows b') = rows_mem (backlog_rows b) + d"
      using backlog_step_mem [OF inv] Inr p by simp
    have ran: "\<forall>c \<in> ran ((buffers r)(k \<mapsto> b')). backlog_inv c"
      using assms(1) inv' by (auto simp: reg_inv_def ran_def)
    have k: "k \<in> dom (buffers r)" using Some by auto
    show ?thesis
      using Some Inr p fin ran led mem rescan_upd_in [OF fin k, of b']
      by (simp add: buf_call_def reg_inv_def rescan_def)
  qed
qed


lemma reg_apply_inv:
  assumes "reg_inv r"
  shows "reg_inv (fst (reg_apply op r))"
proof (cases op)
  case (Create k n)
  show ?thesis
  proof (cases "k \<in> dom (buffers r)")
    case False
    have fin: "finite (dom (buffers r))" using assms by (simp add: reg_inv_def)
    with Create False assms rescan_upd_new [OF fin False, of "backlog_new n"] backlog_new_inv show ?thesis
      by (auto simp: reg_apply_def reg_inv_def rescan_def ran_def rows_mem_def)
  qed (use Create assms in \<open>simp add: reg_apply_def\<close>)
next
  case (Free k)
  show ?thesis
  proof (cases "buffers r k")
    case (Some b)
    have fin: "finite (dom (buffers r))" and inv: "backlog_inv b"
      using assms Some by (auto simp: reg_inv_def ran_def)
    have k: "k \<in> dom (buffers r)" using Some by auto
    have "ran ((buffers r)(k := None)) \<subseteq> ran (buffers r)" by (auto simp: ran_def)
    with Free Some assms fin rescan_del [OF fin k] slots_mem_rows [OF inv] show ?thesis
      by (auto simp: reg_apply_def reg_inv_def rescan_def termpty_clear_backlog_def)
  qed (use Free assms in \<open>simp add: reg_apply_def\<close>)
next
  case (Push_row k w cells)
  then show ?thesis
    using assms buf_call_inv [OF assms, of "Push _" k]
    by (auto simp: reg_apply_def termpty_save_new_def op_wf_def ts_wf_def split: sum.split)
next
  case (Expand_row k ok y w cells)
  then show ?thesis using buf_call_inv [OF assms] by (simp add: reg_apply_def op_wf_def)
next
  case (Clear_buf k)
  then show ?thesis using buf_call_inv [OF assms] by (simp add: reg_apply_def op_wf_def)
next
  case (Resize k n)
  then show ?thesis using buf_call_inv [OF assms] by (simp add: reg_apply_def op_wf_def)
qed (use assms in \<open>auto simp: reg_apply_def reg_inv_def rescan_def split: option.split\<close>)

lemma reg_inv_lock [simp]: "reg_inv (r\<lparr>lock_owner := x\<rparr>) = reg_inv r"
  by (simp add: reg_inv_def rescan_def)

lemma reg_reach_inv: "reg_reach r \<Longrightarrow> reg_inv r"
proof (induction rule: reg_reach.induct)
  case init
  show ?case by (rule reg_inv_init)
next
  case (step r th r')
  from step.hyps(2) step.IH show ?case
    by (cases rule: reg_step_cases) (auto simp: reg_apply_inv)
qed


lemma reg_reach_acquire:
  "reg_reach r \<Longrightarrow> lock_owner r = None \<Longrightarrow> reg_reach (r\<lparr>lock_owner := Some th\<rparr>)"
  by (blast intro: reg_reach.step reg_step.acquire)

lemma reg_reach_call:
  "reg_reach r \<Longrightarrow> lock_owner r = Some th \<Longrightarrow> reg_reach (fst (reg_apply op r))"
  by (blast intro: reg_reach.step reg_step.call)

lemma reg_apply_lock [simp]: "lock_owner (fst (reg_apply op r)) = lock_owner r"
  by (simp add: reg_apply_def buf_call_def split: reg_op.split option.split sum.split prod.split)

lemma rescan_split:
  assumes "finite (dom (buffers r))"
    and "\<forall>k \<in> dom (buffers r) - registered r. backlog_rows (the (buffers r k)) = []"
  shows "rescan (dom (buffers r)) r = rescan (registered r \<inter> dom (buffers r)) r"
  unfolding rescan_def
proof (rule sum.mono_neutral_right)
  show "\<forall>i \<in> dom (buffers r) - registered r \<inter> dom (buffers r). rows_mem (backlog_rows (the (buffers r i))) = 0"
  proof
    fix i assume "i \<in> dom (buffers r) - registered r \<inter> dom (buffers r)"
    then have "i \<in> dom (buffers r) - registered r" by blast
    with assms(2) have "backlog_rows (the (buffers r i)) = []" by blast
    then show "rows_mem (backlog_rows (the (buffers r i))) = 0" by (simp add: rows_mem_def)
  qed
qed (use assms(1) in auto)

lemma sample_registry_eq:
  "sample_registry =
     \<lparr>buffers = [1 \<mapsto> \<lparr>backsize = 2, backpos = 1, backlen = 1,
                       back_slots = [Some \<lparr>ts_w = 1, ts_cells = [sample_cell]\<rparr>, None]\<rparr>],
      registered = {1}, ledger = int sizeof_termcell, lock_owner = Some 0\<rparr>"
  by (simp add: reg_apply_def reg_init_def buf_call_def termpty_save_new_def backlog_push_def
      backlog_new_def slot_cost_def ts_cost_def numeral_2_eq_2)

lemma sample_registry_reach: "reg_reach sample_registry"
  by (intro reg_reach_call reg_reach_acquire reg_reach.init) (simp_all add: reg_init_def)

section \<open>Properties\<close>

text \<open>
  C36 (ledger consistency, spec 4.3 and 7): in every state reachable by locked
  calls, if each buffer that is live but not registered holds no rows, the
  total-memory query answers exactly the independent rescan of the rows held by
  the registered buffers.
\<close>

theorem registry_total_registered:
  "reg_reach r \<Longrightarrow> \<forall>k \<in> dom (buffers r) - registered r. backlog_rows (the (buffers r k)) = [] \<Longrightarrow>
   snd (reg_apply Total r) = Memory (rescan (registered r \<inter> dom (buffers r)) r)"
  by (drule reg_reach_inv) (simp add: reg_inv_def reg_apply_def rescan_split)

theorem registry_total_registered_witness:
  "snd (reg_apply Total sample_registry) =
   Memory (rescan (registered sample_registry \<inter> dom (buffers sample_registry)) sample_registry)"
proof -
  have "\<forall>k \<in> dom (buffers sample_registry) - registered sample_registry.
          backlog_rows (the (buffers sample_registry k)) = []"
    by (simp only: sample_registry_eq) simp
  with sample_registry_reach show ?thesis by (rule registry_total_registered)
qed

text \<open>
  C37 (unregister without clear, spec 4.3): starting from a consistent
  registry, unregistering a live registered buffer leaves the total-memory query
  above the rescan over the registered buffers by exactly the cost of the rows
  that buffer still holds: \<open>unregister\<close> removes the membership but not the
  rows' bytes from the ledger.
\<close>

theorem registry_unregister_gap:
  assumes "reg_reach r"
    and "\<forall>j \<in> dom (buffers r) - registered r. backlog_rows (the (buffers r j)) = []"
    and "k \<in> registered r" "buffers r k = Some b"
  shows "snd (reg_apply Total (fst (reg_apply (Unregister k) r))) =
         Memory (rescan (registered (fst (reg_apply (Unregister k) r)) \<inter>
                         dom (buffers (fst (reg_apply (Unregister k) r))))
                        (fst (reg_apply (Unregister k) r))
                 + rows_mem (backlog_rows b))"
proof -
  have inv: "reg_inv r" using assms(1) by (rule reg_reach_inv)
  then have fin: "finite (dom (buffers r))" by (simp add: reg_inv_def)
  have led: "ledger r = rescan (registered r \<inter> dom (buffers r)) r"
    using inv rescan_split [OF fin assms(2)] by (simp add: reg_inv_def)
  have k: "k \<in> registered r \<inter> dom (buffers r)" using assms(3,4) by auto
  have "rescan (registered r \<inter> dom (buffers r)) r =
        rescan ((registered r - {k}) \<inter> dom (buffers r)) r + rows_mem (backlog_rows b)"
  proof -
    have s: "(registered r - {k}) \<inter> dom (buffers r) = registered r \<inter> dom (buffers r) - {k}" by blast
    have "finite (registered r \<inter> dom (buffers r))" using fin by simp
    with k assms(4) show ?thesis by (simp add: rescan_def s sum.remove add.commute)
  qed
  with led show ?thesis by (simp add: reg_apply_def rescan_def)
qed

theorem registry_unregister_gap_witness:
  "snd (reg_apply Total (fst (reg_apply (Unregister 1) sample_registry))) =
   Memory (rescan (registered (fst (reg_apply (Unregister 1) sample_registry)) \<inter>
                   dom (buffers (fst (reg_apply (Unregister 1) sample_registry))))
                  (fst (reg_apply (Unregister 1) sample_registry))
           + rows_mem [\<lparr>ts_w = 1, ts_cells = [sample_cell]\<rparr>])"
proof -
  have h: "\<forall>j \<in> dom (buffers sample_registry) - registered sample_registry.
             backlog_rows (the (buffers sample_registry j)) = []"
    "1 \<in> registered sample_registry"
    "buffers sample_registry 1 = Some \<lparr>backsize = 2, backpos = 1, backlen = 1,
        back_slots = [Some \<lparr>ts_w = 1, ts_cells = [sample_cell]\<rparr>, None]\<rparr>"
    by (simp_all only: sample_registry_eq) simp_all
  have r: "backlog_rows \<lparr>backsize = 2, backpos = 1, backlen = 1,
        back_slots = [Some \<lparr>ts_w = 1, ts_cells = [sample_cell]\<rparr>, None]\<rparr> =
        [\<lparr>ts_w = 1, ts_cells = [sample_cell]\<rparr>]"
    by (simp add: backlog_rows_def row_slot_def row_index_def numeral_2_eq_2)
  show ?thesis
    using registry_unregister_gap [OF sample_registry_reach h] by (simp only: r)
qed

text \<open>
  C38 (\<open>termpty_backlog_free\<close>): freeing a live session's buffer removes it and
  its membership, leaves every other buffer alone, and takes from the ledger
  exactly the cost of the rows it held (through the slot-level release, which
  equals the row cost by the buffer invariant). Unlike unregistering, it keeps a
  consistent registry consistent.
\<close>

theorem registry_free_releases:
  assumes "reg_reach r" "buffers r k = Some b"
  shows "ledger (fst (reg_apply (Free k) r)) = ledger r - rows_mem (backlog_rows b) \<and>
         k \<notin> dom (buffers (fst (reg_apply (Free k) r))) \<and> k \<notin> registered (fst (reg_apply (Free k) r)) \<and>
         (\<forall>j. j \<noteq> k \<longrightarrow> buffers (fst (reg_apply (Free k) r)) j = buffers r j) \<and>
         ((\<forall>j \<in> dom (buffers r) - registered r. backlog_rows (the (buffers r j)) = []) \<longrightarrow>
            snd (reg_apply Total (fst (reg_apply (Free k) r))) =
            Memory (rescan (registered (fst (reg_apply (Free k) r)) \<inter> dom (buffers (fst (reg_apply (Free k) r))))
                           (fst (reg_apply (Free k) r))))"
proof -
  let ?r' = "fst (reg_apply (Free k) r)"
  have inv: "reg_inv r" using assms(1) by (rule reg_reach_inv)
  have binv: "backlog_inv b" using inv assms(2) by (auto simp: reg_inv_def ran_def)
  have inv': "reg_inv ?r'" using inv by (rule reg_apply_inv)
  have fin': "finite (dom (buffers ?r'))" using inv' by (simp add: reg_inv_def)
  have led: "ledger ?r' = ledger r - rows_mem (backlog_rows b)"
    using assms(2) slots_mem_rows [OF binv] by (simp add: reg_apply_def termpty_clear_backlog_def)
  have rest: "k \<notin> dom (buffers ?r') \<and> k \<notin> registered ?r' \<and> (\<forall>j. j \<noteq> k \<longrightarrow> buffers ?r' j = buffers r j)"
    using assms(2) by (simp add: reg_apply_def)
  have cons: "snd (reg_apply Total ?r') = Memory (rescan (registered ?r' \<inter> dom (buffers ?r')) ?r')"
    if h: "\<forall>j \<in> dom (buffers r) - registered r. backlog_rows (the (buffers r j)) = []"
  proof -
    have "\<forall>j \<in> dom (buffers ?r') - registered ?r'. backlog_rows (the (buffers ?r' j)) = []"
      using h assms(2) by (auto simp: reg_apply_def)
    with inv' rescan_split [OF fin'] show ?thesis by (simp add: reg_inv_def reg_apply_def)
  qed
  from led rest cons show ?thesis by blast
qed

theorem registry_free_releases_witness:
  "ledger (fst (reg_apply (Free 1) sample_registry)) = 0 \<and>
   1 \<notin> dom (buffers (fst (reg_apply (Free 1) sample_registry))) \<and>
   1 \<notin> registered (fst (reg_apply (Free 1) sample_registry)) \<and>
   snd (reg_apply Total (fst (reg_apply (Free 1) sample_registry))) =
     Memory (rescan (registered (fst (reg_apply (Free 1) sample_registry)) \<inter>
                     dom (buffers (fst (reg_apply (Free 1) sample_registry))))
                    (fst (reg_apply (Free 1) sample_registry)))"
proof -
  have h: "buffers sample_registry 1 = Some \<lparr>backsize = 2, backpos = 1, backlen = 1,
        back_slots = [Some \<lparr>ts_w = 1, ts_cells = [sample_cell]\<rparr>, None]\<rparr>"
    "\<forall>j \<in> dom (buffers sample_registry) - registered sample_registry.
       backlog_rows (the (buffers sample_registry j)) = []"
    "ledger sample_registry = int sizeof_termcell"
    by (simp_all only: sample_registry_eq) simp_all
  have r: "rows_mem (backlog_rows \<lparr>backsize = 2, backpos = 1, backlen = 1,
        back_slots = [Some \<lparr>ts_w = 1, ts_cells = [sample_cell]\<rparr>, None]\<rparr>) = int sizeof_termcell"
    by (simp add: backlog_rows_def row_slot_def row_index_def numeral_2_eq_2 rows_mem_def ts_cost_def)
  show ?thesis
    using registry_free_releases [OF sample_registry_reach h(1)] h(2,3) r by simp
qed

end
