(* ===== verification/Instance_Data.thy ===== *)
theory Instance_Data
  imports Prelude
begin

text \<open>
  The data \<open>src/bin/main.c\<close> works on but does not declare: the
  \<open>Ipc_Instance\<close> of \<open>ipc.h\<close> (the options of one window to open, filled by
  \<open>elm_main\<close> or received over IPC) and the fields of \<open>Config\<close> (\<open>config.h\<close>)
  that \<open>main.c\<close> reads or writes. Only the fields \<open>main.c\<close> touches are kept,
  with the C types it uses them at: a \<open>char *\<close> is a \<open>string option\<close>
  (\<open>None\<close> for \<open>NULL\<close>), an \<open>int\<close> is an \<open>int\<close>, an \<open>Eina_Bool\<close> tested for
  truth is a \<open>bool\<close>, and the five tri-state options, which hold \<open>EINA_TRUE\<close>,
  \<open>EINA_FALSE\<close> or \<open>IPC_INSTANCE_OPT_UNSET = 0xff\<close> in an \<open>unsigned char\<close>, are
  \<open>8 word\<close>s. The geometry fields come first, as a record the instance extends,
  so that the geometry code of \<open>Geometry\<close> works on any instance.
\<close>

record ipc_geometry =
  inst_w :: int
  inst_h :: int
  inst_x :: int
  inst_y :: int
  inst_pos :: bool

record ipc_instance = ipc_geometry +
  name :: "string option"
  role :: "string option"
  title :: "string option"
  icon_name :: "string option"
  font :: "string option"
  startup_id :: "string option"
  startup_split :: "string option"
  cd :: "string option"
  background :: "string option"
  theme :: "string option"
  colorscheme :: "string option"
  cmd :: "string option"
  cmds :: "string list"
  fullscreen :: bool
  iconic :: bool
  borderless :: bool
  override :: bool
  maximized :: bool
  hold :: bool
  nowm :: bool
  xterm_256color :: bool
  login_shell :: "8 word"
  active_links :: "8 word"
  video_mute :: "8 word"
  cursor_blink :: "8 word"
  visual_bell :: "8 word"

record config =
  cfg_theme :: string
  cfg_temporary :: bool
  cfg_color_scheme_name :: string
  cfg_background :: string
  cfg_font_name :: string
  cfg_font_size :: int
  cfg_font_bitmap :: bool
  cfg_font_set :: bool
  cfg_login_shell :: "8 word"
  cfg_xterm_256color :: bool
  cfg_mute :: "8 word"
  cfg_disable_cursor_blink :: bool
  cfg_disable_visual_bell :: bool
  cfg_active_links :: bool
  cfg_active_links_email :: bool
  cfg_active_links_file :: bool
  cfg_active_links_url :: bool
  cfg_active_links_escape :: bool
  cfg_custom_geometry :: bool
  cfg_cg_width :: int
  cfg_cg_height :: int
  cfg_multi_instance :: bool

text \<open>\<open>IPC_INSTANCE_OPT_UNSET\<close> (\<open>main.c\<close> line 53).\<close>

definition IPC_INSTANCE_OPT_UNSET :: "8 word" where
  "IPC_INSTANCE_OPT_UNSET = 0xff"

text \<open>
  Sample values for the examples that instantiate the theorems: a
  configuration with the defaults of \<open>config.c\<close> for the fields kept here,
  and the instance \<open>elm_main\<close> starts from (every tri-state unset) with an
  80x24 size.
\<close>

abbreviation sample_config :: config where
  "sample_config \<equiv>
    \<lparr>cfg_theme = ''default.edj'', cfg_temporary = False, cfg_color_scheme_name = ''Default'',
      cfg_background = ''none'', cfg_font_name = ''nexus.pcf'', cfg_font_size = 10, cfg_font_bitmap = True,
      cfg_font_set = True, cfg_login_shell = 0, cfg_xterm_256color = False, cfg_mute = 0,
      cfg_disable_cursor_blink = False, cfg_disable_visual_bell = False, cfg_active_links = True,
      cfg_active_links_email = True, cfg_active_links_file = True, cfg_active_links_url = True,
      cfg_active_links_escape = True, cfg_custom_geometry = False, cfg_cg_width = 80,
      cfg_cg_height = 24, cfg_multi_instance = False\<rparr>"

abbreviation sample_instance :: ipc_instance where
  "sample_instance \<equiv>
    \<lparr>inst_w = 80,
     inst_h = 24,
     inst_x = 0,
     inst_y = 0,
     inst_pos = False,
     name = None,
     role = None,
     title = None,
     icon_name = None,
     font = None,
     startup_id = None,
     startup_split = None,
     cd = None,
     background = None,
     theme = None,
     colorscheme = None,
     cmd = None,
     cmds = [],
     fullscreen = False,
     iconic = False,
     borderless = False,
     override = False,
     maximized = False,
     hold = False,
     nowm = False,
     xterm_256color = False,
     login_shell = 0xff,
     active_links = 0xff,
     video_mute = 0xff,
     cursor_blink = 0xff,
     visual_bell = 0xff\<rparr>"

end
