(* ===== verification/Geometry.thy ===== *)
theory Geometry
  imports Instance_Data
begin

text \<open>
  The window geometry string of \<open>src/bin/main.c\<close>: \<open>elm_main\<close> reads the
  \<open>-g\<close>/\<open>--geometry\<close> option with a cascade of \<open>sscanf\<close> patterns and then
  fills in the default size; \<open>main_ipc_new\<close> prints an instance's geometry back
  into a \<open>-g\<close> argument with \<open>snprintf\<close>. The C library pieces they use are
  modelled here as far as these calls need them: \<open>printf\<close>'s \<open>%i\<close> (decimal),
  \<open>scanf\<close>'s \<open>%i\<close> (optional sign, then a base taken from the prefix: \<open>0x\<close>
  hexadecimal, \<open>0\<close> octal, otherwise decimal, as glibc reads it), literal
  characters of a format, and the count \<open>sscanf\<close> returns. The main lemma is the
  round trip: what \<open>main_ipc_new\<close> prints, \<open>elm_main\<close> reads back.
\<close>

section \<open>printf: decimal integers\<close>

definition digit_char :: "nat \<Rightarrow> char" where
  "digit_char d = char_of (48 + d)"

fun nat_digits :: "nat \<Rightarrow> string" where
  "nat_digits n = (if n < 10 then [digit_char n] else nat_digits (n div 10) @ [digit_char (n mod 10)])"

definition c_itoa :: "int \<Rightarrow> string" where
  "c_itoa i = (if i < 0 then CHR ''-'' # nat_digits (nat (- i)) else nat_digits (nat i))"

section \<open>scanf: the \<open>%i\<close> conversion\<close>

definition c_isspace :: "char \<Rightarrow> bool" where
  "c_isspace c \<longleftrightarrow> (of_char c = (32::nat) \<or> (9 \<le> (of_char c::nat) \<and> (of_char c::nat) \<le> 13))"

text \<open>The value of a digit character in bases up to 16 (\<open>0-9\<close>, \<open>a-f\<close>, \<open>A-F\<close>).\<close>

definition digit_val :: "char \<Rightarrow> nat option" where
  "digit_val c =
     (let k = (of_char c :: nat) in
      if 48 \<le> k \<and> k \<le> 57 then Some (k - 48)
      else if 97 \<le> k \<and> k \<le> 102 then Some (k - 87)
      else if 65 \<le> k \<and> k \<le> 70 then Some (k - 55)
      else None)"

definition is_digit_base :: "nat \<Rightarrow> char \<Rightarrow> bool" where
  "is_digit_base base c = (case digit_val c of None \<Rightarrow> False | Some d \<Rightarrow> d < base)"

fun scan_digits :: "nat \<Rightarrow> string \<Rightarrow> nat \<Rightarrow> nat \<times> string" where
  "scan_digits base [] acc = (acc, [])"
| "scan_digits base (c # cs) acc =
     (if is_digit_base base c then scan_digits base cs (acc * base + the (digit_val c))
      else (acc, c # cs))"

text \<open>
  The digits of a \<open>%i\<close> conversion after its sign. A \<open>0x\<close> prefix not followed
  by a hexadecimal digit reads as 0 with the \<open>x\<close> consumed, as glibc's
  \<open>vfscanf\<close> does.
\<close>

definition scan_unsigned_i :: "string \<Rightarrow> (nat \<times> string) option" where
  "scan_unsigned_i s =
     (case s of
        [] \<Rightarrow> None
      | c # r \<Rightarrow>
          if c = CHR ''0'' then
            (case r of
               [] \<Rightarrow> Some (0, [])
             | x # r' \<Rightarrow>
                 if x = CHR ''x'' \<or> x = CHR ''X'' then
                   (case r' of
                      [] \<Rightarrow> Some (0, [])
                    | d # _ \<Rightarrow> if is_digit_base 16 d then Some (scan_digits 16 r' 0) else Some (0, r'))
                 else Some (scan_digits 8 r 0))
          else if is_digit_base 10 c then Some (scan_digits 10 s 0)
          else None)"

definition scan_sign :: "string \<Rightarrow> bool \<times> string" where
  "scan_sign s =
     (case s of
        [] \<Rightarrow> (False, [])
      | c # r \<Rightarrow> if c = CHR ''-'' then (True, r) else if c = CHR ''+'' then (False, r) else (False, s))"

definition scan_i :: "string \<Rightarrow> (int \<times> string) option" where
  "scan_i s =
     (let (neg, s1) = scan_sign (dropWhile c_isspace s)
      in map_option (\<lambda>(v, r). (if neg then - int v else int v, r)) (scan_unsigned_i s1))"

section \<open>sscanf over the geometry fields\<close>

datatype geom_var = GW | GH | GX | GY

datatype scan_dir = Lit char | Conv geom_var

definition set_geom_var :: "geom_var \<Rightarrow> int \<Rightarrow> 'a ipc_geometry_scheme \<Rightarrow> 'a ipc_geometry_scheme" where
  "set_geom_var v k g =
     (case v of GW \<Rightarrow> g\<lparr>inst_w := k\<rparr> | GH \<Rightarrow> g\<lparr>inst_h := k\<rparr>
      | GX \<Rightarrow> g\<lparr>inst_x := k\<rparr> | GY \<Rightarrow> g\<lparr>inst_y := k\<rparr>)"

text \<open>A format string with its \<open>%i\<close> targets, in order, as a list of directives.\<close>

fun scanf_format :: "string \<Rightarrow> geom_var list \<Rightarrow> scan_dir list" where
  "scanf_format (c1 # c2 # cs) (v # vs) =
     (if c1 = CHR ''%'' \<and> c2 = CHR ''i'' then Conv v # scanf_format cs vs
      else Lit c1 # scanf_format (c2 # cs) (v # vs))"
| "scanf_format (c # cs) vs = Lit c # scanf_format cs vs"
| "scanf_format [] vs = []"

text \<open>
  \<open>sscanf\<close>: each conversion stores into its field as soon as it succeeds; the
  result is the number of stored conversions, or \<open>EOF = -1\<close> when the input ends
  before the first one.
\<close>

fun sscanf_geom ::
  "scan_dir list \<Rightarrow> string \<Rightarrow> int \<Rightarrow> 'a ipc_geometry_scheme \<Rightarrow> int \<times> 'a ipc_geometry_scheme" where
  "sscanf_geom [] s n g = (n, g)"
| "sscanf_geom (Lit c # ds) s n g =
     (case s of
        [] \<Rightarrow> (if n = 0 then -1 else n, g)
      | c' # s' \<Rightarrow> if c' = c then sscanf_geom ds s' n g else (n, g))"
| "sscanf_geom (Conv v # ds) s n g =
     (if dropWhile c_isspace s = [] then (if n = 0 then -1 else n, g)
      else (case scan_i s of
              None \<Rightarrow> (n, g)
            | Some (k, s') \<Rightarrow> sscanf_geom ds s' (n + 1) (set_geom_var v k g)))"

definition sscanf :: "string \<Rightarrow> string \<Rightarrow> geom_var list \<Rightarrow> 'a ipc_geometry_scheme \<Rightarrow> int \<times> 'a ipc_geometry_scheme" where
  "sscanf s fmt vs g = sscanf_geom (scanf_format fmt vs) s 0 g"

section \<open>elm_main: reading -g\<close>

text \<open>
  The cascade of \<open>elm_main\<close> (lines 1000--1053): the first pattern that converts
  all its fields wins; a pattern that fails may already have stored some fields,
  and the next pattern starts from the instance as it left it. The result is the
  instance and \<open>size_set\<close>.
\<close>

definition parse_geometry ::
  "string \<Rightarrow> 'a ipc_geometry_scheme \<Rightarrow> 'a ipc_geometry_scheme \<times> bool" where
  "parse_geometry geometry i0 =
     (let (r1, i1) = sscanf geometry ''%ix%i+%i+%i'' [GW, GH, GX, GY] i0 in
      if r1 = 4 then (i1\<lparr>inst_pos := True\<rparr>, True) else
      let (r2, i2) = sscanf geometry ''%ix%i-%i+%i'' [GW, GH, GX, GY] i1 in
      if r2 = 4 then (i2\<lparr>inst_x := - inst_x i2, inst_pos := True\<rparr>, True) else
      let (r3, i3) = sscanf geometry ''%ix%i-%i-%i'' [GW, GH, GX, GY] i2 in
      if r3 = 4 then (i3\<lparr>inst_x := - inst_x i3, inst_y := - inst_y i3, inst_pos := True\<rparr>, True) else
      let (r4, i4) = sscanf geometry ''%ix%i+%i-%i'' [GW, GH, GX, GY] i3 in
      if r4 = 4 then (i4\<lparr>inst_y := - inst_y i4, inst_pos := True\<rparr>, True) else
      let (r5, i5) = sscanf geometry ''%ix%i'' [GW, GH] i4 in
      if r5 = 2 then (i5, True) else
      let (r6, i6) = sscanf geometry ''+%i+%i'' [GX, GY] i5 in
      if r6 = 2 then (i6\<lparr>inst_pos := True\<rparr>, False) else
      let (r7, i7) = sscanf geometry ''-%i+%i'' [GX, GY] i6 in
      if r7 = 2 then (i7\<lparr>inst_x := - inst_x i7, inst_pos := True\<rparr>, False) else
      let (r8, i8) = sscanf geometry ''+%i-%i'' [GX, GY] i7 in
      if r8 = 2 then (i8\<lparr>inst_y := - inst_y i8, inst_pos := True\<rparr>, False) else
      let (r9, i9) = sscanf geometry ''-%i-%i'' [GX, GY] i8 in
      if r9 = 2 then (i9\<lparr>inst_x := - inst_x i9, inst_y := - inst_y i9, inst_pos := True\<rparr>, False)
      else (i9, False))"

text \<open>
  Lines 1000--1067 of \<open>elm_main\<close>: the optional \<open>-g\<close> string, then the size from
  the configuration's custom geometry or 80x24 when none was read.
\<close>

definition elm_main_geometry ::
  "config \<Rightarrow> string option \<Rightarrow> 'a ipc_geometry_scheme \<Rightarrow> 'a ipc_geometry_scheme" where
  "elm_main_geometry cfg geometry i0 =
     (let (i1, size_set) = (case geometry of None \<Rightarrow> (i0, False) | Some g \<Rightarrow> parse_geometry g i0)
      in if size_set then i1
         else if cfg_custom_geometry cfg then i1\<lparr>inst_w := cfg_cg_width cfg, inst_h := cfg_cg_height cfg\<rparr>
         else i1\<lparr>inst_w := 80, inst_h := 24\<rparr>)"

section \<open>main_ipc_new: printing -g\<close>

text \<open>Lines 272--331 of \<open>main_ipc_new\<close>, branch by branch.\<close>

definition geometry_needed :: "'a ipc_geometry_scheme \<Rightarrow> bool" where
  "geometry_needed i \<longleftrightarrow> inst_pos i \<or> 0 < inst_w i \<or> 0 < inst_h i"

definition format_geometry :: "'a ipc_geometry_scheme \<Rightarrow> string" where
  "format_geometry i =
     (let w = inst_w i; h = inst_h i; x = inst_x i; y = inst_y i in
      if \<not> inst_pos i then c_itoa w @ ''x'' @ c_itoa h
      else if 0 < w \<and> 0 < h then
        (if 0 \<le> x then
           (if 0 \<le> y then c_itoa w @ ''x'' @ c_itoa h @ ''+'' @ c_itoa x @ ''+'' @ c_itoa y
            else c_itoa w @ ''x'' @ c_itoa h @ ''+'' @ c_itoa x @ c_itoa y)
         else
           (if 0 \<le> y then c_itoa w @ ''x'' @ c_itoa h @ c_itoa x @ ''+'' @ c_itoa y
            else c_itoa w @ ''x'' @ c_itoa h @ c_itoa x @ c_itoa y))
      else
        (if 0 \<le> x then
           (if 0 \<le> y then ''+'' @ c_itoa x @ ''+'' @ c_itoa y
            else ''+'' @ c_itoa x @ c_itoa y)
         else
           (if 0 \<le> y then c_itoa x @ ''+'' @ c_itoa y
            else c_itoa x @ c_itoa y)))"

declare nat_digits.simps [simp del]

section \<open>Lemmas: printing and scanning integers\<close>


lemma digit_char_val: "d < 10 \<Longrightarrow> digit_val (digit_char d) = Some d"
  by (simp add: digit_char_def digit_val_def Let_def)

lemma digit_char_digit: "d < 10 \<Longrightarrow> is_digit_base 10 (digit_char d)"
  by (simp add: is_digit_base_def digit_char_val)

lemma of_char_digit_char: "d < 10 \<Longrightarrow> (of_char (digit_char d) :: nat) = 48 + d"
  by (simp add: digit_char_def)

lemma digit_char_zero: "d < 10 \<Longrightarrow> (digit_char d = CHR ''0'') = (d = 0)"
proof -
  assume d: "d < 10"
  have "(digit_char d = CHR ''0'') = ((of_char (digit_char d) :: nat) = of_char CHR ''0'')"
    by (metis of_char_eq_iff)
  with d show ?thesis
    by (simp add: of_char_digit_char)
qed

lemma nat_digits_digits: "\<forall>c \<in> set (nat_digits n). is_digit_base 10 c"
proof (induction n rule: nat_digits.induct)
  case (1 n)
  then show ?case
    by (subst nat_digits.simps) (auto simp: digit_char_digit)
qed

lemma nat_digits_ne: "nat_digits n \<noteq> []"
  by (subst nat_digits.simps) simp

lemma hd_nat_digits: "0 < n \<Longrightarrow> hd (nat_digits n) \<noteq> CHR ''0''"
proof (induction n rule: nat_digits.induct)
  case (1 n)
  show ?case
  proof (cases "n < 10")
    case True
    with "1.prems" show ?thesis
      by (subst nat_digits.simps) (simp add: digit_char_zero)
  next
    case False
    then have "hd (nat_digits (n div 10)) \<noteq> CHR ''0''"
      using "1.IH" by simp
    with False show ?thesis
      by (subst nat_digits.simps) (simp add: nat_digits_ne)
  qed
qed

lemma scan_digits_append:
  assumes "\<forall>c \<in> set xs. is_digit_base b c"
  shows "scan_digits b (xs @ ys) acc = scan_digits b ys (foldl (\<lambda>a c. a * b + the (digit_val c)) acc xs)"
  using assms by (induction xs arbitrary: acc) simp_all

lemma scan_digits_stop:
  "(case ys of [] \<Rightarrow> True | c # _ \<Rightarrow> \<not> is_digit_base b c) \<Longrightarrow> scan_digits b ys acc = (acc, ys)"
  by (cases ys) simp_all

lemma foldl_nat_digits:
  "foldl (\<lambda>a c. a * 10 + the (digit_val c)) acc (nat_digits n) = acc * 10 ^ length (nat_digits n) + n"
proof (induction n arbitrary: acc rule: nat_digits.induct)
  case (1 n)
  show ?case
  proof (cases "n < 10")
    case True
    then show ?thesis
      by (simp add: nat_digits.simps [of n] digit_char_val)
  next
    case False
    have "foldl (\<lambda>a c. a * 10 + the (digit_val c)) acc (nat_digits n) =
          foldl (\<lambda>a c. a * 10 + the (digit_val c)) acc (nat_digits (n div 10)) * 10 + n mod 10"
      using False by (simp add: nat_digits.simps [of n] digit_char_val)
    also have "\<dots> = (acc * 10 ^ length (nat_digits (n div 10)) + n div 10) * 10 + n mod 10"
      using "1.IH" False by simp
    also have "\<dots> = acc * 10 ^ length (nat_digits n) + n"
      using False by (simp add: nat_digits.simps [of n] algebra_simps)
    finally show ?thesis .
  qed
qed

lemma scan_digits_nat_digits:
  assumes "case rest of [] \<Rightarrow> True | c # _ \<Rightarrow> \<not> is_digit_base 10 c"
  shows "scan_digits 10 (nat_digits n @ rest) 0 = (n, rest)"
proof -
  show ?thesis
    using nat_digits_digits [of n]
    using assms by (simp add: scan_digits_append scan_digits_stop foldl_nat_digits)
qed


lemma digit_base_8_10: "is_digit_base 8 c \<Longrightarrow> is_digit_base 10 c"
  by (auto simp: is_digit_base_def split: option.splits)

lemma digit_not_space: "is_digit_base 10 c \<Longrightarrow> \<not> c_isspace c"
  by (auto simp: is_digit_base_def digit_val_def c_isspace_def Let_def split: if_splits)

lemma digit_not_sign: "is_digit_base 10 c \<Longrightarrow> c \<noteq> CHR ''-'' \<and> c \<noteq> CHR ''+''"
  by (auto simp: is_digit_base_def digit_val_def)

lemma nat_digits_Cons: "\<exists>c cs. nat_digits n = c # cs \<and> is_digit_base 10 c"
  using nat_digits_ne [of n] nat_digits_digits [of n] by (cases "nat_digits n") auto

lemma scan_unsigned_nat_digits:
  assumes "case rest of [] \<Rightarrow> True
             | c # _ \<Rightarrow> \<not> is_digit_base 10 c \<and> (n = 0 \<longrightarrow> c \<noteq> CHR ''x'' \<and> c \<noteq> CHR ''X'')"
  shows "scan_unsigned_i (nat_digits n @ rest) = Some (n, rest)"
proof (cases "n = 0")
  case True
  have z: "nat_digits 0 = ''0''"
    by (simp add: nat_digits.simps [of 0] digit_char_zero)
  show ?thesis
  proof (cases rest)
    case Nil
    with True z show ?thesis by (simp add: scan_unsigned_i_def)
  next
    case (Cons c r)
    with assms True have "\<not> is_digit_base 8 c" "c \<noteq> CHR ''x''" "c \<noteq> CHR ''X''"
      by (auto dest: digit_base_8_10)
    with Cons True z show ?thesis
      by (simp add: scan_unsigned_i_def)
  qed
next
  case False
  obtain c cs where ds: "nat_digits n = c # cs" and dig: "is_digit_base 10 c"
    using nat_digits_Cons by blast
  have "c \<noteq> CHR ''0''"
    using hd_nat_digits [of n] False ds by simp
  then have "scan_unsigned_i (nat_digits n @ rest) = Some (scan_digits 10 (nat_digits n @ rest) 0)"
    using ds dig by (simp add: scan_unsigned_i_def)
  also have "\<dots> = Some (n, rest)"
    using assms scan_digits_nat_digits [of rest n] by (simp split: list.splits)
  finally show ?thesis .
qed

lemma scan_i_itoa:
  assumes "case rest of [] \<Rightarrow> True
             | c # _ \<Rightarrow> \<not> is_digit_base 10 c \<and> (k = 0 \<longrightarrow> c \<noteq> CHR ''x'' \<and> c \<noteq> CHR ''X'')"
  shows "scan_i (c_itoa k @ rest) = Some (k, rest)"
proof (cases "k < 0")
  case True
  have "scan_unsigned_i (nat_digits (nat (- k)) @ rest) = Some (nat (- k), rest)"
    using assms True by (intro scan_unsigned_nat_digits) (auto split: list.splits)
  with True show ?thesis
    by (simp add: scan_i_def c_itoa_def c_isspace_def scan_sign_def)
next
  case False
  obtain c cs where ds: "nat_digits (nat k) = c # cs" and dig: "is_digit_base 10 c"
    using nat_digits_Cons by blast
  have "scan_unsigned_i (nat_digits (nat k) @ rest) = Some (nat k, rest)"
    using assms False by (intro scan_unsigned_nat_digits) (auto split: list.splits)
  with False ds dig digit_not_space [OF dig] digit_not_sign [OF dig] show ?thesis
    by (simp add: scan_i_def c_itoa_def scan_sign_def)
qed

lemma scan_i_plus_itoa:
  assumes "0 \<le> k" "case rest of [] \<Rightarrow> True
             | c # _ \<Rightarrow> \<not> is_digit_base 10 c \<and> (k = 0 \<longrightarrow> c \<noteq> CHR ''x'' \<and> c \<noteq> CHR ''X'')"
  shows "scan_i (CHR ''+'' # c_itoa k @ rest) = Some (k, rest)"
proof -
  have "scan_unsigned_i (nat_digits (nat k) @ rest) = Some (nat k, rest)"
    using assms by (intro scan_unsigned_nat_digits) (auto split: list.splits)
  with assms(1) show ?thesis
    by (simp add: scan_i_def c_itoa_def c_isspace_def scan_sign_def)
qed


lemma c_itoa_neg: "k < 0 \<Longrightarrow> c_itoa k = CHR ''-'' # c_itoa (- k)"
  by (simp add: c_itoa_def)

lemma c_itoa_Cons: "\<exists>c cs. c_itoa k = c # cs \<and> (c = CHR ''-'' \<or> is_digit_base 10 c)"
proof (cases "k < 0")
  case False
  then show ?thesis using nat_digits_Cons [of "nat k"] by (auto simp: c_itoa_def)
qed (simp add: c_itoa_def)

lemma dropWhile_space_itoa [simp]: "dropWhile c_isspace (c_itoa k @ r) = c_itoa k @ r"
proof -
  obtain c cs where "c_itoa k = c # cs" "c = CHR ''-'' \<or> is_digit_base 10 c"
    using c_itoa_Cons by blast
  then show ?thesis
    by (auto simp: c_isspace_def dest: digit_not_space)
qed

lemma c_itoa_ne [simp]: "c_itoa k \<noteq> []"
  using c_itoa_Cons [of k] by auto

lemma scan_i_itoa_Nil [simp]: "scan_i (c_itoa k) = Some (k, [])"
  using scan_i_itoa [where rest = "[]" and k = k] by simp

lemma scan_i_itoa_sep [simp]:
  "c \<in> {CHR ''+'', CHR ''-''} \<or> (c \<in> {CHR ''x''} \<and> k \<noteq> 0) \<Longrightarrow>
   scan_i (c_itoa k @ c # r) = Some (k, c # r)"
  by (rule scan_i_itoa) (auto simp: is_digit_base_def digit_val_def)

lemma scan_i_plus_itoa_sep [simp]:
  "0 \<le> k \<Longrightarrow> c \<in> {CHR ''+'', CHR ''-''} \<Longrightarrow>
   scan_i (CHR ''+'' # c_itoa k @ c # r) = Some (k, c # r)"
  by (rule scan_i_plus_itoa) (auto simp: is_digit_base_def digit_val_def)

lemma scan_i_plus_itoa_Nil [simp]: "0 \<le> k \<Longrightarrow> scan_i (CHR ''+'' # c_itoa k) = Some (k, [])"
  using scan_i_plus_itoa [where rest = "[]" and k = k] by simp

lemma sscanf_geom_Conv_itoa [simp]:
  "scan_i (c_itoa k @ r) = Some (k, r) \<Longrightarrow>
   sscanf_geom (Conv v # ds) (c_itoa k @ r) n g = sscanf_geom ds r (n + 1) (set_geom_var v k g)"
  by simp


lemma dropWhile_space_itoa_Nil [simp]: "dropWhile c_isspace (c_itoa k) = c_itoa k"
  using dropWhile_space_itoa [of k "[]"] by simp

lemma c_itoa_not_all_space [simp]: "\<exists>x\<in>set (c_itoa k). \<not> c_isspace x"
  using dropWhile_space_itoa_Nil [of k] c_itoa_ne [of k] by (metis dropWhile_eq_Nil_conv)

lemma sscanf_size_lit:
  "w \<noteq> 0 \<Longrightarrow> sscanf_geom (Conv GW # Lit CHR ''x'' # Conv GH # Lit c # ds)
     (c_itoa w @ CHR ''x'' # c_itoa h) 0 g = (2, g\<lparr>inst_w := w, inst_h := h\<rparr>)"
  by (simp add: set_geom_var_def)

lemma sscanf_size:
  "w \<noteq> 0 \<Longrightarrow> sscanf_geom [Conv GW, Lit CHR ''x'', Conv GH]
     (c_itoa w @ CHR ''x'' # c_itoa h) 0 g = (2, g\<lparr>inst_w := w, inst_h := h\<rparr>)"
  by (simp add: set_geom_var_def)

lemma parse_format_nopos:
  assumes "\<not> inst_pos i" "inst_w i \<noteq> 0"
  shows "parse_geometry (format_geometry i) i0 = (i0\<lparr>inst_w := inst_w i, inst_h := inst_h i\<rparr>, True)"
proof -
  have "format_geometry i = c_itoa (inst_w i) @ CHR ''x'' # c_itoa (inst_h i)"
    using assms by (simp add: format_geometry_def)
  then show ?thesis
    using assms by (simp add: parse_geometry_def sscanf_def sscanf_size_lit sscanf_size del: sscanf_geom.simps sscanf_geom_Conv_itoa)
qed


lemma sscanf_Conv_Nil [simp]:
  "sscanf_geom (Conv v # ds) (c_itoa k) n g = sscanf_geom ds [] (n + 1) (set_geom_var v k g)"
  by simp

lemma sscanf_Conv_plus [simp]:
  "0 \<le> k \<Longrightarrow> c \<in> {CHR ''+'', CHR ''-''} \<Longrightarrow>
   sscanf_geom (Conv v # ds) (CHR ''+'' # c_itoa k @ c # r) n g =
   sscanf_geom ds (c # r) (n + 1) (set_geom_var v k g)"
  by (simp add: c_isspace_def)

lemma sscanf_Conv_minus [simp]:
  "0 < k \<Longrightarrow> c \<in> {CHR ''+'', CHR ''-''} \<Longrightarrow>
   sscanf_geom (Conv v # ds) (CHR ''-'' # c_itoa k @ c # r) n g =
   sscanf_geom ds (c # r) (n + 1) (set_geom_var v (- k) g)"
  using scan_i_itoa_sep [of c "- k" r] c_itoa_neg [of "- k"] by (simp add: c_isspace_def)

lemmas sscanf_itoa_simps = sscanf_geom.simps(1,2) sscanf_geom_Conv_itoa sscanf_Conv_Nil
  sscanf_Conv_plus sscanf_Conv_minus

lemma parse_format_sized:
  assumes "inst_pos i" "0 < inst_w i" "0 < inst_h i"
  shows "parse_geometry (format_geometry i) i0 =
    (i0\<lparr>inst_w := inst_w i, inst_h := inst_h i, inst_x := inst_x i, inst_y := inst_y i, inst_pos := True\<rparr>, True)"
proof (cases "0 \<le> inst_x i"; cases "0 \<le> inst_y i")
  assume "0 \<le> inst_x i" "0 \<le> inst_y i"
  with assms show ?thesis
    by (simp add: parse_geometry_def format_geometry_def sscanf_def set_geom_var_def del: sscanf_geom.simps(3))
next
  assume "0 \<le> inst_x i" "\<not> 0 \<le> inst_y i"
  with assms show ?thesis
    by (simp add: parse_geometry_def format_geometry_def sscanf_def set_geom_var_def c_itoa_neg [of "inst_y i"] del: sscanf_geom.simps(3))
next
  assume "\<not> 0 \<le> inst_x i" "0 \<le> inst_y i"
  with assms show ?thesis
    by (simp add: parse_geometry_def format_geometry_def sscanf_def set_geom_var_def c_itoa_neg [of "inst_x i"] del: sscanf_geom.simps(3))
next
  assume "\<not> 0 \<le> inst_x i" "\<not> 0 \<le> inst_y i"
  with assms show ?thesis
    by (simp add: parse_geometry_def format_geometry_def sscanf_def set_geom_var_def
        c_itoa_neg [of "inst_x i"] c_itoa_neg [of "inst_y i"] del: sscanf_geom.simps(3))
qed


lemma parse_format_unsized:
  assumes "inst_pos i" "\<not> (0 < inst_w i \<and> 0 < inst_h i)"
  shows "parse_geometry (format_geometry i) i0 =
    (i0\<lparr>inst_w := inst_x i, inst_x := inst_x i, inst_y := inst_y i, inst_pos := True\<rparr>, False)"
proof -
  have nb: "(0 < inst_w i \<and> 0 < inst_h i) \<longleftrightarrow> False"
    using assms(2) by simp
  show ?thesis
  proof (cases "0 \<le> inst_x i"; cases "0 \<le> inst_y i")
    assume "0 \<le> inst_x i" "0 \<le> inst_y i"
    with assms(1) show ?thesis
      by (simp add: parse_geometry_def format_geometry_def sscanf_def set_geom_var_def nb
          del: sscanf_geom.simps(3))
  next
    assume "0 \<le> inst_x i" "\<not> 0 \<le> inst_y i"
    with assms(1) show ?thesis
      by (simp add: parse_geometry_def format_geometry_def sscanf_def set_geom_var_def nb
          c_itoa_neg [of "inst_y i"] del: sscanf_geom.simps(3))
  next
    assume "\<not> 0 \<le> inst_x i" "0 \<le> inst_y i"
    with assms(1) show ?thesis
      by (simp add: parse_geometry_def format_geometry_def sscanf_def set_geom_var_def nb
          c_itoa_neg [of "inst_x i"] del: sscanf_geom.simps(3))
  next
    assume "\<not> 0 \<le> inst_x i" "\<not> 0 \<le> inst_y i"
    with assms(1) show ?thesis
      by (simp add: parse_geometry_def format_geometry_def sscanf_def set_geom_var_def nb
          c_itoa_neg [of "inst_x i"] c_itoa_neg [of "inst_y i"] del: sscanf_geom.simps(3))
  qed
qed


lemma digit_base_10_16: "is_digit_base 10 c \<Longrightarrow> is_digit_base 16 c"
  by (auto simp: is_digit_base_def split: option.splits)

lemma scan_digits_all:
  "\<forall>c\<in>set s. is_digit_base b c \<Longrightarrow> snd (scan_digits b s acc) = []"
  by (induction s arbitrary: acc) simp_all

lemma scan_i_Some_ne: "scan_i s = Some x \<Longrightarrow> dropWhile c_isspace s \<noteq> []"
proof
  assume "dropWhile c_isspace s = []" "scan_i s = Some x"
  then show False by (simp add: scan_i_def scan_sign_def scan_unsigned_i_def del: dropWhile_eq_Nil_conv)
qed

lemma sscanf_Conv_end:
  "scan_i s = Some (k, []) \<Longrightarrow> 0 \<le> n \<Longrightarrow>
   sscanf_geom (Conv v # Lit c # ds) s n g = (n + 1, set_geom_var v k g)"
  using scan_i_Some_ne [of s] by simp

lemma scan_i_zero_hex:
  assumes "0 < h"
  shows "\<exists>k. scan_i (c_itoa 0 @ CHR ''x'' # c_itoa h) = Some (k, [])"
proof -
  obtain c cs where ds: "nat_digits (nat h) = c # cs" and dig: "is_digit_base 10 c"
    using nat_digits_Cons by blast
  have z: "c_itoa 0 = ''0''"
    by (simp add: c_itoa_def nat_digits.simps [of 0] digit_char_zero)
  have all: "\<forall>d\<in>set (nat_digits (nat h)). is_digit_base 16 d"
    using nat_digits_digits [of "nat h"] by (auto intro: digit_base_10_16)
  have "snd (scan_digits 16 (nat_digits (nat h)) 0) = []"
    using all by (rule scan_digits_all)
  then obtain v where "scan_digits 16 (nat_digits (nat h)) 0 = (v, [])"
    by (metis prod.collapse)
  then show ?thesis
    using assms ds z dig digit_base_10_16 [OF dig]
    by (simp add: scan_i_def c_itoa_def c_isspace_def scan_sign_def scan_unsigned_i_def)
qed

lemma parse_format_zero_width:
  assumes "\<not> inst_pos i" "inst_w i = 0" "0 < inst_h i"
  shows "snd (parse_geometry (format_geometry i) i0) = False"
proof -
  obtain k where k: "scan_i (c_itoa 0 @ CHR ''x'' # c_itoa (inst_h i)) = Some (k, [])"
    using scan_i_zero_hex [OF assms(3)] by blast
  have z: "c_itoa 0 = ''0''"
    by (simp add: c_itoa_def nat_digits.simps [of 0] digit_char_zero)
  have "format_geometry i = c_itoa 0 @ CHR ''x'' # c_itoa (inst_h i)"
    using assms by (simp add: format_geometry_def)
  then show ?thesis
    using assms k by (simp add: parse_geometry_def sscanf_def sscanf_Conv_end z del: sscanf_geom.simps(3))
qed


section \<open>Round trip of the geometry argument\<close>

text \<open>
  C9: the \<open>-g\<close> string \<open>main_ipc_new\<close> prints for an instance is read back by
  \<open>elm_main\<close> into the same geometry. Position and size are recovered when the
  instance has both a positive size and a position; a size alone is recovered
  when there is no position; a position printed without a size (either of \<open>w\<close>,
  \<open>h\<close> not positive) is recovered and the size is the default of \<open>elm_main\<close>.
  The one exception is a width of 0 without a position (C10).
\<close>

theorem geometry_roundtrip:
  assumes "inst_pos i \<or> inst_w i \<noteq> 0"
  shows "elm_main_geometry cfg (Some (format_geometry i)) i0 =
    (if inst_pos i then
       if 0 < inst_w i \<and> 0 < inst_h i
       then i0\<lparr>inst_w := inst_w i, inst_h := inst_h i, inst_x := inst_x i, inst_y := inst_y i,
               inst_pos := True\<rparr>
       else i0\<lparr>inst_w := if cfg_custom_geometry cfg then cfg_cg_width cfg else 80,
               inst_h := if cfg_custom_geometry cfg then cfg_cg_height cfg else 24,
               inst_x := inst_x i, inst_y := inst_y i, inst_pos := True\<rparr>
     else i0\<lparr>inst_w := inst_w i, inst_h := inst_h i\<rparr>)"
proof (cases "inst_pos i")
  case True
  show ?thesis
  proof (cases "0 < inst_w i \<and> 0 < inst_h i")
    case sized: True
    with True show ?thesis
      by (simp add: elm_main_geometry_def parse_format_sized)
  next
    case unsized: False
    then have nb: "(0 < inst_w i \<and> 0 < inst_h i) \<longleftrightarrow> False"
      by simp
    from True unsized show ?thesis
      by (simp only: elm_main_geometry_def parse_format_unsized nb if_False if_True Let_def
          option.case prod.case) simp
  qed
next
  case False
  with assms show ?thesis
    by (simp add: elm_main_geometry_def parse_format_nopos)
qed

theorem geometry_roundtrip_witness:
  "elm_main_geometry sample_config
     (Some (format_geometry \<lparr>inst_w = 100, inst_h = 30, inst_x = -10, inst_y = 5, inst_pos = True\<rparr>))
     \<lparr>inst_w = 0, inst_h = 0, inst_x = 0, inst_y = 0, inst_pos = False\<rparr> =
   \<lparr>inst_w = 100, inst_h = 30, inst_x = -10, inst_y = 5, inst_pos = True\<rparr>"
  using geometry_roundtrip [of "\<lparr>inst_w = 100, inst_h = 30, inst_x = -10, inst_y = 5, inst_pos = True\<rparr>"
      sample_config "\<lparr>inst_w = 0, inst_h = 0, inst_x = 0, inst_y = 0, inst_pos = False\<rparr>"]
  by simp

text \<open>
  C10: an instance with width 0, a positive height and no position is printed
  as \<open>0x<h>\<close>, which \<open>%i\<close> reads as one hexadecimal number; no pattern then
  matches a size, and \<open>elm_main\<close> replaces the height by its default.
\<close>

theorem geometry_zero_width_loses_height:
  assumes "\<not> inst_pos i" "inst_w i = 0" "0 < inst_h i"
  shows "inst_h (elm_main_geometry cfg (Some (format_geometry i)) i0) =
    (if cfg_custom_geometry cfg then cfg_cg_height cfg else 24)"
proof -
  obtain i1 where "parse_geometry (format_geometry i) i0 = (i1, False)"
    using parse_format_zero_width [OF assms] by (metis prod.collapse)
  then show ?thesis
    by (simp add: elm_main_geometry_def)
qed

theorem geometry_zero_width_loses_height_witness:
  "inst_h (elm_main_geometry sample_config
     (Some (format_geometry \<lparr>inst_w = 0, inst_h = 36, inst_x = 0, inst_y = 0, inst_pos = False\<rparr>))
     \<lparr>inst_w = 0, inst_h = 0, inst_x = 0, inst_y = 0, inst_pos = False\<rparr>) = 24"
  using geometry_zero_width_loses_height
      [of "\<lparr>inst_w = 0, inst_h = 36, inst_x = 0, inst_y = 0, inst_pos = False\<rparr>"
      sample_config "\<lparr>inst_w = 0, inst_h = 0, inst_x = 0, inst_y = 0, inst_pos = False\<rparr>"]
  by simp

end
