(* ===== verification/Instance.thy ===== *)
theory Instance
  imports Geometry
begin

text \<open>
  How \<open>src/bin/main.c\<close> applies an instance's options to a configuration
  (\<open>_set_instance_theme\<close>, \<open>_configure_instance\<close>) and how \<open>main_ipc_new\<close>
  opens the window a remote \<open>terminology\<close> asked for: the argument vector it
  rebuilds from the instance and installs as the application's arguments, the
  window and terminal it creates, and what it leaves behind on each failure.
  The EFL calls are inputs of the model: the theme path lookup, the font
  directory listing, and whether each allocation or widget creation succeeds.
\<close>

section \<open>C string helpers\<close>

definition PATH_MAX :: nat where
  "PATH_MAX = 4096"

text \<open>\<open>eina_strlcpy\<close> and \<open>snprintf\<close> into a buffer of \<open>n\<close> bytes keep \<open>n - 1\<close> characters.\<close>

definition c_truncate :: "nat \<Rightarrow> string \<Rightarrow> string" where
  "c_truncate n s = take (n - 1) s"

definition eina_str_has_suffix :: "string \<Rightarrow> string \<Rightarrow> bool" where
  "eina_str_has_suffix s suf \<longleftrightarrow> length suf \<le> length s \<and> drop (length s - length suf) s = suf"

definition c_tolower :: "char \<Rightarrow> char" where
  "c_tolower c = (let k = (of_char c :: nat) in if 65 \<le> k \<and> k \<le> 90 then char_of (k + 32) else c)"

text \<open>\<open>strncasecmp (s1, s2, n) == 0\<close>: the strings end at their last character.\<close>

fun strncasecmp_eq :: "string \<Rightarrow> string \<Rightarrow> nat \<Rightarrow> bool" where
  "strncasecmp_eq _ _ 0 = True"
| "strncasecmp_eq [] [] (Suc n) = True"
| "strncasecmp_eq (a # as) (b # bs) (Suc n) = (c_tolower a = c_tolower b \<and> strncasecmp_eq as bs n)"
| "strncasecmp_eq _ _ (Suc n) = False"

text \<open>\<open>atoi\<close>: blanks, a sign, decimal digits; no digits read as 0.\<close>

definition c_atoi :: "string \<Rightarrow> int" where
  "c_atoi s = (let (neg, s1) = scan_sign (dropWhile c_isspace s); v = int (fst (scan_digits 10 s1 0))
               in if neg then - v else v)"

section \<open>_set_instance_theme (lines 30--51)\<close>

definition set_instance_theme ::
  "(string \<Rightarrow> string) \<Rightarrow> ipc_instance \<Rightarrow> config \<Rightarrow> config" where
  "set_instance_theme theme_path_get inst cfg =
     (case theme inst of
        None \<Rightarrow> cfg
      | Some t \<Rightarrow>
          let theme_name = (if eina_str_has_suffix t ''.edj'' then c_truncate PATH_MAX t
                            else c_truncate PATH_MAX (t @ ''.edj''));
              path = (if CHR ''/'' \<in> set theme_name then c_truncate PATH_MAX theme_name
                      else theme_path_get theme_name)
          in cfg\<lparr>cfg_theme := path, cfg_temporary := True\<rparr>)"

section \<open>_configure_instance (lines 55--158)\<close>

text \<open>
  The bitmap-font search: the files of the font directory in the order
  \<open>ecore_file_ls\<close> lists them; \<open>n\<close> is the length of the requested name and
  becomes \<open>-1\<close> after the first match, so that later files are skipped.
\<close>

fun font_scan :: "string list \<Rightarrow> string \<Rightarrow> int \<Rightarrow> config \<Rightarrow> config" where
  "font_scan [] f n cfg = cfg"
| "font_scan (file # files) f n cfg =
     (if 0 < n \<and> strncasecmp_eq file f (nat n)
      then font_scan files f (-1) (cfg\<lparr>cfg_font_name := file, cfg_font_bitmap := True\<rparr>)
      else font_scan files f n cfg)"

text \<open>
  Reference for the search: the first file whose name begins with the
  requested one, letters compared without case.
\<close>

definition ci_prefix :: "string \<Rightarrow> string \<Rightarrow> bool" where
  "ci_prefix f file \<longleftrightarrow>
     length f \<le> length file \<and> map c_tolower (take (length f) file) = map c_tolower f"

definition configure_font :: "string list \<Rightarrow> string \<Rightarrow> config \<Rightarrow> config" where
  "configure_font files f cfg =
     (let cfg1 =
        (if CHR ''/'' \<in> set f then
           let fname = takeWhile (\<lambda>c. c \<noteq> CHR ''/'') f;
               sz = c_atoi (tl (dropWhile (\<lambda>c. c \<noteq> CHR ''/'') f))
           in cfg\<lparr>cfg_font_size := (if 0 < sz then sz else cfg_font_size cfg),
                  cfg_font_name := fname, cfg_font_bitmap := False\<rparr>
         else font_scan files f (int (length f)) cfg)
      in cfg1\<lparr>cfg_font_set := True, cfg_temporary := True\<rparr>)"

text \<open>
  \<open>config_compute_color_scheme\<close> recomputes colour tables the model does not
  track; the name and the \<open>temporary\<close> mark are what the instance changes.
\<close>

definition configure_instance ::
  "(string \<Rightarrow> string) \<Rightarrow> string list \<Rightarrow> ipc_instance \<Rightarrow> config \<Rightarrow> config" where
  "configure_instance theme_path_get files inst cfg0 =
     (let cfg = set_instance_theme theme_path_get inst cfg0;
          cfg = (case colorscheme inst of None \<Rightarrow> cfg
                 | Some c \<Rightarrow> cfg\<lparr>cfg_color_scheme_name := c, cfg_temporary := True\<rparr>);
          cfg = (case background inst of None \<Rightarrow> cfg
                 | Some b \<Rightarrow> cfg\<lparr>cfg_background := b, cfg_temporary := True\<rparr>);
          cfg = (case font inst of None \<Rightarrow> cfg | Some f \<Rightarrow> configure_font files f cfg);
          cfg = (if login_shell inst \<noteq> IPC_INSTANCE_OPT_UNSET
                 then cfg\<lparr>cfg_login_shell := login_shell inst, cfg_temporary := True\<rparr> else cfg);
          cfg = (if xterm_256color inst
                 then cfg\<lparr>cfg_xterm_256color := True, cfg_temporary := True\<rparr> else cfg);
          cfg = (if video_mute inst \<noteq> IPC_INSTANCE_OPT_UNSET
                 then cfg\<lparr>cfg_mute := video_mute inst, cfg_temporary := True\<rparr> else cfg);
          cfg = (if cursor_blink inst \<noteq> IPC_INSTANCE_OPT_UNSET
                 then cfg\<lparr>cfg_disable_cursor_blink := (cursor_blink inst = 0), cfg_temporary := True\<rparr>
                 else cfg);
          cfg = (if visual_bell inst \<noteq> IPC_INSTANCE_OPT_UNSET
                 then cfg\<lparr>cfg_disable_visual_bell := (visual_bell inst = 0), cfg_temporary := True\<rparr>
                 else cfg)
      in if active_links inst \<noteq> IPC_INSTANCE_OPT_UNSET
         then let al = (active_links inst \<noteq> 0) in
              cfg\<lparr>cfg_active_links := al, cfg_active_links_email := al, cfg_active_links_file := al,
                  cfg_active_links_url := al, cfg_active_links_escape := al, cfg_temporary := True\<rparr>
         else cfg)"


section \<open>main_ipc_new: the argument vector (lines 207--386)\<close>

text \<open>
  An entry of \<open>nargv\<close>: a string the instance owns (or a literal), the
  function's local buffer \<open>geom\<close>, or \<open>NULL\<close> (the zeroed tail of the
  \<open>calloc\<close>ed array).
\<close>

datatype arg = Arg string | Geom_buf | Null_arg

definition opt_count :: "string option \<Rightarrow> nat" where
  "opt_count v = (case v of None \<Rightarrow> 0 | Some _ \<Rightarrow> 2)"

definition flag_count :: "bool \<Rightarrow> nat" where
  "flag_count b = (if b then 1 else 0)"

definition tri_count :: "8 word \<Rightarrow> nat" where
  "tri_count v = (if v \<noteq> 0 then 1 else 0)"

text \<open>Lines 207--231: the size the code computes for \<open>nargv\<close>.\<close>

definition main_ipc_nargc :: "ipc_instance \<Rightarrow> nat" where
  "main_ipc_nargc inst =
     1 + opt_count (cd inst) + opt_count (background inst) + opt_count (name inst)
       + opt_count (role inst) + opt_count (title inst) + opt_count (font inst)
       + opt_count (startup_split inst) + (if geometry_needed inst then 2 else 0)
       + tri_count (login_shell inst) + flag_count (fullscreen inst) + flag_count (iconic inst)
       + flag_count (borderless inst) + flag_count (override inst) + flag_count (maximized inst)
       + flag_count (hold inst) + flag_count (nowm inst) + flag_count (xterm_256color inst)
       + tri_count (active_links inst) + tri_count (video_mute inst) + tri_count (cursor_blink inst)
       + tri_count (visual_bell inst) + opt_count (cmd inst) + opt_count (theme inst)
       + opt_count (colorscheme inst)"

definition opt_args :: "string \<Rightarrow> string option \<Rightarrow> arg list" where
  "opt_args flag v = (case v of None \<Rightarrow> [] | Some s \<Rightarrow> [Arg flag, Arg s])"

definition flag_arg :: "string \<Rightarrow> bool \<Rightarrow> arg list" where
  "flag_arg flag b = (if b then [Arg flag] else [])"

text \<open>A tri-state option is passed on when it is set and true.\<close>

definition tri_arg :: "string \<Rightarrow> 8 word \<Rightarrow> arg list" where
  "tri_arg flag v = (if v \<noteq> IPC_INSTANCE_OPT_UNSET \<and> v \<noteq> 0 then [Arg flag] else [])"

text \<open>Lines 233--386: the entries written, \<open>nargv[i++] = ...\<close>, in order.\<close>

definition main_ipc_nargv :: "arg \<Rightarrow> ipc_instance \<Rightarrow> arg list" where
  "main_ipc_nargv argv0 inst =
     [argv0] @ opt_args ''-d'' (cd inst) @ opt_args ''-b'' (background inst)
     @ opt_args ''-n'' (name inst) @ opt_args ''-t'' (theme inst)
     @ opt_args ''--colorscheme'' (colorscheme inst) @ opt_args ''-r'' (role inst)
     @ opt_args ''-T'' (title inst) @ opt_args ''-f'' (font inst)
     @ opt_args ''-S'' (startup_split inst)
     @ (if geometry_needed inst then [Arg ''-g'', Geom_buf] else [])
     @ tri_arg ''-l'' (login_shell inst) @ flag_arg ''-F'' (fullscreen inst)
     @ flag_arg ''-I'' (iconic inst) @ flag_arg ''-B'' (borderless inst)
     @ flag_arg ''-O'' (override inst) @ flag_arg ''-M'' (maximized inst)
     @ flag_arg ''-H'' (hold inst) @ flag_arg ''-W'' (nowm inst)
     @ flag_arg ''-2'' (xterm_256color inst) @ tri_arg ''--active-links'' (active_links inst)
     @ opt_args ''-e'' (cmd inst) @ tri_arg ''-m'' (video_mute inst)
     @ tri_arg ''-c'' (cursor_blink inst) @ tri_arg ''-G'' (visual_bell inst)"

text \<open>
  \<open>calloc (nargc + 1, sizeof (char * ))\<close> filled from the front; the rest stays
  \<open>NULL\<close>. \<open>None\<close> when a write would fall outside the array.
\<close>

definition nargv_array :: "nat \<Rightarrow> arg list \<Rightarrow> arg list option" where
  "nargv_array nargc entries =
     (if length entries \<le> nargc + 1 then Some (entries @ replicate (nargc + 1 - length entries) Null_arg)
      else None)"

section \<open>main_ipc_new: the window (lines 190--452)\<close>

text \<open>
  The process state \<open>main_ipc_new\<close> reads and changes: the
  \<open>DESKTOP_STARTUP_ID\<close> variable and the arguments installed with
  \<open>ecore_app_args_set\<close> (a count and the first entries of the array).
\<close>

record proc_state =
  env_startup_id :: "string option"
  app_argc :: nat
  app_argv :: "arg list"

text \<open>What the EFL calls return: allocation, window, terminal, the screen size.\<close>

record ipc_new_io =
  io_alloc_ok :: bool
  io_win_ok :: bool
  io_term_ok :: bool
  io_term_set_ok :: bool
  io_screen_w :: int
  io_screen_h :: int
  io_win_config :: config
  io_theme_path :: "string \<Rightarrow> string"
  io_font_files :: "string list"

datatype ipc_new_result =
    Nargv_alloc_failed
  | Window_failed
  | Terminal_failed
  | Term_set_failed
  | Window_shown config int int "(int \<times> int) option"

definition set_app_args :: "nat \<Rightarrow> arg list \<Rightarrow> proc_state \<Rightarrow> proc_state" where
  "set_app_args n argv p = p\<lparr>app_argc := n, app_argv := take n argv\<rparr>"

text \<open>
  Lines 401--454: the window, the terminal and its attachment, the window
  position, and the restored application arguments, after \<open>nargv\<close> has
  been installed (\<open>p2\<close>); \<open>pargc\<close>/\<open>pargv\<close> are the arguments to restore.
\<close>

definition main_ipc_new_window ::
  "ipc_new_io \<Rightarrow> ipc_instance \<Rightarrow> nat \<Rightarrow> arg list \<Rightarrow> proc_state \<Rightarrow> proc_state \<times> ipc_new_result" where
  "main_ipc_new_window io inst pargc pargv p2 =
     (if \<not> io_win_ok io then (set_app_args pargc pargv p2, Window_failed) else
      let cfg = configure_instance (io_theme_path io) (io_font_files io) inst (io_win_config io);
          w = (if inst_w inst \<le> 0 then 80 else inst_w inst);
          h = (if inst_h inst \<le> 0 then 24 else inst_h inst)
      in if \<not> io_term_ok io then (set_app_args pargc pargv p2, Terminal_failed) else
      if \<not> io_term_set_ok io then (p2, Term_set_failed) else
      let pos = (if inst_pos inst
                 then Some (if inst_x inst < 0 then io_screen_w io + inst_x inst else inst_x inst,
                            if inst_y inst < 0 then io_screen_h io + inst_y inst else inst_y inst)
                 else None)
      in ((set_app_args pargc pargv p2)\<lparr>env_startup_id := None\<rparr>, Window_shown cfg w h pos))"

definition main_ipc_new :: "ipc_new_io \<Rightarrow> ipc_instance \<Rightarrow> proc_state \<Rightarrow> proc_state \<times> ipc_new_result" where
  "main_ipc_new io inst p0 =
     (let p1 = (case startup_id inst of None \<Rightarrow> p0
                | Some sid \<Rightarrow> p0\<lparr>env_startup_id := Some (drop 19 (c_truncate 4096 (''DESKTOP_STARTUP_ID='' @ sid)))\<rparr>);
          pargc = app_argc p1; pargv = app_argv p1;
          nargc = main_ipc_nargc inst
      in if \<not> io_alloc_ok io then (p1, Nargv_alloc_failed) else
      let argv0 = (case pargv of [] \<Rightarrow> Null_arg | a # _ \<Rightarrow> a) in
      case nargv_array nargc (main_ipc_nargv argv0 inst) of
        None \<Rightarrow> (p1, Nargv_alloc_failed)
      | Some nargv \<Rightarrow> main_ipc_new_window io inst pargc pargv (set_app_args nargc nargv p1))"

text \<open>
  Sample inputs for the examples: every EFL call succeeds except, when
  \<open>b\<close> is false, the attachment of the terminal; the process was started
  as \<open>terminology\<close> with no arguments.
\<close>

abbreviation sample_io :: "bool \<Rightarrow> ipc_new_io" where
  "sample_io b \<equiv>
    \<lparr>io_alloc_ok = True, io_win_ok = True, io_term_ok = True, io_term_set_ok = b,
     io_screen_w = 1920, io_screen_h = 1080, io_win_config = sample_config,
     io_theme_path = (\<lambda>s. ''/usr/share/terminology/themes/'' @ s),
     io_font_files = [''10x20.pcf'', ''nexus.pcf'']\<rparr>"

abbreviation sample_proc :: proc_state where
  "sample_proc \<equiv> \<lparr>env_startup_id = None, app_argc = 1, app_argv = [Arg ''terminology'']\<rparr>"

section \<open>Lemmas\<close>


lemma length_opt_args [simp]: "length (opt_args f v) = opt_count v"
  by (simp add: opt_count_def opt_args_def split: option.splits)

lemma length_flag_arg [simp]: "length (flag_arg f b) = flag_count b"
  by (simp add: flag_count_def flag_arg_def)

lemma length_tri_arg [simp]:
  "length (tri_arg f v) = (if v = IPC_INSTANCE_OPT_UNSET then 0 else tri_count v)"
  by (simp add: tri_count_def tri_arg_def IPC_INSTANCE_OPT_UNSET_def)

lemma tri_count_unset [simp]: "tri_count IPC_INSTANCE_OPT_UNSET = 1"
  by (simp add: tri_count_def IPC_INSTANCE_OPT_UNSET_def)


lemma length_tri_arg_le: "length (tri_arg f v) \<le> tri_count v"
  by simp

lemma nargv_fits: "length (main_ipc_nargv a inst) \<le> main_ipc_nargc inst"
  unfolding main_ipc_nargc_def main_ipc_nargv_def
  using length_tri_arg_le [of "''-l''" "login_shell inst"] length_tri_arg_le [of "''--active-links''" "active_links inst"]
    length_tri_arg_le [of "''-m''" "video_mute inst"] length_tri_arg_le [of "''-c''" "cursor_blink inst"]
    length_tri_arg_le [of "''-G''" "visual_bell inst"]
    if_distrib [of length "geometry_needed inst" "[Arg ''-g'', Geom_buf]" "[]"]
  by (simp only: length_append length_opt_args length_flag_arg list.size) simp

lemma nargv_array_main_ipc:
  "nargv_array (main_ipc_nargc inst) (main_ipc_nargv a inst) =
   Some (main_ipc_nargv a inst @ replicate (main_ipc_nargc inst + 1 - length (main_ipc_nargv a inst)) Null_arg)"
  using nargv_fits [of a inst] by (simp add: nargv_array_def)

lemma take_nargv_array:
  "take (main_ipc_nargc inst)
     (main_ipc_nargv a inst @ replicate (main_ipc_nargc inst + 1 - length (main_ipc_nargv a inst)) Null_arg) =
   main_ipc_nargv a inst @ replicate (main_ipc_nargc inst - length (main_ipc_nargv a inst)) Null_arg"
  using nargv_fits [of a inst] by (simp add: min_def)

lemma take_nargc_nargv [simp]:
  "take (main_ipc_nargc inst) (main_ipc_nargv a inst) = main_ipc_nargv a inst"
  using nargv_fits [of a inst] by simp

lemma geom_buf_not_in_args [simp]:
  "Geom_buf \<notin> set (opt_args f v)" "Geom_buf \<notin> set (flag_arg f b)" "Geom_buf \<notin> set (tri_arg f w)"
  by (auto simp: opt_args_def flag_arg_def tri_arg_def split: option.splits)

lemma geom_buf_in_nargv:
  "Geom_buf \<in> set (main_ipc_nargv a inst) \<longleftrightarrow> a = Geom_buf \<or> geometry_needed inst"
  by (auto simp: main_ipc_nargv_def)

lemma argv0_not_geom_buf:
  "Geom_buf \<notin> set argv \<Longrightarrow> (case argv of [] \<Rightarrow> Null_arg | a # _ \<Rightarrow> a) \<noteq> Geom_buf"
  by (cases argv) auto




lemma c_tolower_N: "c_tolower CHR ''N'' = CHR ''n''"
  by code_simp

lemma font_scan_nonpos: "n \<le> 0 \<Longrightarrow> font_scan files f n cfg = cfg"
  by (induction files arbitrary: cfg) simp_all

lemma font_scan_fields:
  "\<exists>nm b. font_scan files f n cfg = cfg\<lparr>cfg_font_name := nm, cfg_font_bitmap := b\<rparr>"
proof (induction files arbitrary: n cfg)
  case Nil
  show ?case by (rule exI [of _ "cfg_font_name cfg"], rule exI [of _ "cfg_font_bitmap cfg"]) simp
next
  case (Cons fl files)
  then show ?case by (auto simp: font_scan_nonpos)
qed

lemma configure_font_temporary [simp]: "cfg_temporary (configure_font files f cfg) = True"
  by (simp add: configure_font_def Let_def)

lemma set_instance_theme_temporary [simp]:
  "cfg_temporary (set_instance_theme tp inst cfg) = (cfg_temporary cfg \<or> theme inst \<noteq> None)"
  by (simp add: set_instance_theme_def Let_def split: option.split)


lemma strncasecmp_eq_ci_prefix:
  "strncasecmp_eq fl f (length f) \<longleftrightarrow> ci_prefix f fl"
proof (induction f arbitrary: fl)
  case Nil
  then show ?case by (simp add: ci_prefix_def)
next
  case (Cons c f)
  then show ?case by (cases fl) (auto simp: ci_prefix_def)
qed

lemma font_scan_find:
  "0 < n \<Longrightarrow> font_scan files f (int n) cfg =
     (case find (\<lambda>fl. strncasecmp_eq fl f n) files of
        None \<Rightarrow> cfg
      | Some fl \<Rightarrow> cfg\<lparr>cfg_font_name := fl, cfg_font_bitmap := True\<rparr>)"
  by (induction files arbitrary: cfg) (simp_all add: font_scan_nonpos)



section \<open>Properties of main_ipc_new\<close>

text \<open>
  C11: \<open>main_ipc_new\<close> allocates \<open>nargc + 1\<close> entries and writes fewer:
  the count adds one for every tri-state option that is not 0, including the
  ones left at \<open>IPC_INSTANCE_OPT_UNSET\<close>, while an option is written only when
  it is set and true. The installed argument count exceeds the entries written
  by exactly the number of unset tri-states; those trailing entries are
  \<open>NULL\<close>. Every write stays inside the array.
\<close>

theorem main_ipc_nargc_entries:
  "main_ipc_nargc inst = length (main_ipc_nargv a inst)
     + length (filter (\<lambda>v. v = IPC_INSTANCE_OPT_UNSET)
         [login_shell inst, active_links inst, video_mute inst, cursor_blink inst, visual_bell inst])"
  unfolding main_ipc_nargc_def main_ipc_nargv_def by simp

text \<open>
  C12: when the terminal cannot be attached to the window
  (\<open>win_term_set\<close> fails), \<open>main_ipc_new\<close> returns without restoring the
  application's arguments: they stay the \<open>nargv\<close> array, which holds the
  function's local buffer \<open>geom\<close> exactly when a geometry was passed on.
\<close>

theorem main_ipc_new_term_set_failed:
  assumes "io_alloc_ok io" "io_win_ok io" "io_term_ok io" "\<not> io_term_set_ok io"
    and "Geom_buf \<notin> set (app_argv p)"
  shows "snd (main_ipc_new io inst p) = Term_set_failed \<and>
    (Geom_buf \<in> set (app_argv (fst (main_ipc_new io inst p))) \<longleftrightarrow> geometry_needed inst)"
proof -
  let ?a = "case app_argv p of [] \<Rightarrow> Null_arg | a # _ \<Rightarrow> a"
  have a: "?a \<noteq> Geom_buf"
    using assms(5) by (rule argv0_not_geom_buf)
  show ?thesis
    using assms a geom_buf_in_nargv [of ?a inst]
    by (simp add: main_ipc_new_def main_ipc_new_window_def Let_def nargv_array_main_ipc set_app_args_def take_nargv_array
        split: option.split)
qed

theorem main_ipc_new_term_set_failed_witness:
  "snd (main_ipc_new (sample_io False) sample_instance sample_proc) = Term_set_failed \<and>
   Geom_buf \<in> set (app_argv (fst (main_ipc_new (sample_io False) sample_instance sample_proc)))"
  using main_ipc_new_term_set_failed [of "sample_io False" sample_proc sample_instance]
  by (simp add: geometry_needed_def)

text \<open>
  C13: when every call succeeds, \<open>main_ipc_new\<close> leaves the process as it found
  it apart from \<open>DESKTOP_STARTUP_ID\<close>, which it unsets: the arguments are
  restored. The window it shows has a positive size (80x24 replaces a size
  that is not positive).
\<close>

theorem main_ipc_new_shown:
  assumes "io_alloc_ok io" "io_win_ok io" "io_term_ok io" "io_term_set_ok io"
    and "app_argc p = length (app_argv p)"
  shows "fst (main_ipc_new io inst p) = p\<lparr>env_startup_id := None\<rparr> \<and>
    (\<exists>cfg w h pos. snd (main_ipc_new io inst p) = Window_shown cfg w h pos \<and> 0 < w \<and> 0 < h)"
  using assms
  by (simp add: main_ipc_new_def main_ipc_new_window_def Let_def nargv_array_main_ipc set_app_args_def split: option.split)

theorem main_ipc_new_shown_witness:
  "fst (main_ipc_new (sample_io True) sample_instance sample_proc) = sample_proc \<and>
   (\<exists>cfg w h pos. snd (main_ipc_new (sample_io True) sample_instance sample_proc) = Window_shown cfg w h pos
      \<and> 0 < w \<and> 0 < h)"
  using main_ipc_new_shown [of "sample_io True" sample_proc sample_instance] by simp

text \<open>
  C14: \<open>-m\<close> (and likewise \<open>-c\<close>, \<open>-G\<close>) is written right after \<open>-e\<close> and its
  command. \<open>-e\<close> is an \<open>ECORE_GETOPT_BREAK_STR\<close> option: the parser stops
  there, so these options reach the command line of the command instead of
  \<open>terminology\<close>.
\<close>

theorem main_ipc_nargv_exec_then_mute:
  assumes "cmd inst = Some c" "video_mute inst \<noteq> IPC_INSTANCE_OPT_UNSET" "video_mute inst \<noteq> 0"
  shows "\<exists>xs ys. main_ipc_nargv a inst = xs @ [Arg ''-e'', Arg c, Arg ''-m''] @ ys"
proof -
  have "main_ipc_nargv a inst = ([a] @ opt_args ''-d'' (cd inst) @ opt_args ''-b'' (background inst)
     @ opt_args ''-n'' (name inst) @ opt_args ''-t'' (theme inst)
     @ opt_args ''--colorscheme'' (colorscheme inst) @ opt_args ''-r'' (role inst)
     @ opt_args ''-T'' (title inst) @ opt_args ''-f'' (font inst)
     @ opt_args ''-S'' (startup_split inst)
     @ (if geometry_needed inst then [Arg ''-g'', Geom_buf] else [])
     @ tri_arg ''-l'' (login_shell inst) @ flag_arg ''-F'' (fullscreen inst)
     @ flag_arg ''-I'' (iconic inst) @ flag_arg ''-B'' (borderless inst)
     @ flag_arg ''-O'' (override inst) @ flag_arg ''-M'' (maximized inst)
     @ flag_arg ''-H'' (hold inst) @ flag_arg ''-W'' (nowm inst)
     @ flag_arg ''-2'' (xterm_256color inst) @ tri_arg ''--active-links'' (active_links inst)) @ [Arg ''-e'', Arg c, Arg ''-m''] @
      (tri_arg ''-c'' (cursor_blink inst) @ tri_arg ''-G'' (visual_bell inst))"
    using assms by (simp add: main_ipc_nargv_def opt_args_def tri_arg_def)
  then show ?thesis by blast
qed

theorem main_ipc_nargv_exec_then_mute_witness:
  "\<exists>xs ys. main_ipc_nargv (Arg ''terminology'') (sample_instance\<lparr>cmd := Some ''htop'', video_mute := 1\<rparr>)
     = xs @ [Arg ''-e'', Arg ''htop'', Arg ''-m''] @ ys"
  using main_ipc_nargv_exec_then_mute
      [of "sample_instance\<lparr>cmd := Some ''htop'', video_mute := 1\<rparr>" "''htop''" "Arg ''terminology''"]
  by (simp add: IPC_INSTANCE_OPT_UNSET_def)

section \<open>Properties of _configure_instance\<close>

text \<open>
  C15: the configuration is marked \<open>temporary\<close> (so that it is never saved
  over the user's) exactly when it was already, or the instance overrides at
  least one of its settings.
\<close>

theorem configure_temporary:
  "cfg_temporary (configure_instance tp files inst cfg) \<longleftrightarrow>
     cfg_temporary cfg \<or> theme inst \<noteq> None \<or> colorscheme inst \<noteq> None \<or> background inst \<noteq> None
     \<or> font inst \<noteq> None \<or> login_shell inst \<noteq> IPC_INSTANCE_OPT_UNSET \<or> xterm_256color inst
     \<or> video_mute inst \<noteq> IPC_INSTANCE_OPT_UNSET \<or> cursor_blink inst \<noteq> IPC_INSTANCE_OPT_UNSET
     \<or> visual_bell inst \<noteq> IPC_INSTANCE_OPT_UNSET \<or> active_links inst \<noteq> IPC_INSTANCE_OPT_UNSET"
  by (simp add: configure_instance_def Let_def split: option.split)

theorem configure_temporary_witness:
  "cfg_temporary (configure_instance (\<lambda>s. s) [] (sample_instance\<lparr>font := Some ''nexus''\<rparr>) sample_config)"
  using configure_temporary [of "\<lambda>s. s" "[]" "sample_instance\<lparr>font := Some ''nexus''\<rparr>" sample_config]
  by simp

text \<open>
  C16: each tri-state option overrides its configuration setting only when it
  is set: \<open>IPC_INSTANCE_OPT_UNSET\<close> keeps the configured value, 0 and 1 are
  copied (cursor blink and visual bell negated into the \<open>disable_\<close> flags,
  active links normalised to a boolean).
\<close>

theorem configure_tri_states:
  "cfg_login_shell (configure_instance tp files inst cfg) =
     (if login_shell inst = IPC_INSTANCE_OPT_UNSET then cfg_login_shell cfg else login_shell inst) \<and>
   cfg_mute (configure_instance tp files inst cfg) =
     (if video_mute inst = IPC_INSTANCE_OPT_UNSET then cfg_mute cfg else video_mute inst) \<and>
   cfg_disable_cursor_blink (configure_instance tp files inst cfg) =
     (if cursor_blink inst = IPC_INSTANCE_OPT_UNSET then cfg_disable_cursor_blink cfg
      else cursor_blink inst = 0) \<and>
   cfg_disable_visual_bell (configure_instance tp files inst cfg) =
     (if visual_bell inst = IPC_INSTANCE_OPT_UNSET then cfg_disable_visual_bell cfg
      else visual_bell inst = 0) \<and>
   cfg_active_links (configure_instance tp files inst cfg) =
     (if active_links inst = IPC_INSTANCE_OPT_UNSET then cfg_active_links cfg
      else active_links inst \<noteq> 0)"
proof -
  have f: "\<And>f c. cfg_login_shell (configure_font files f c) = cfg_login_shell c \<and>
      cfg_mute (configure_font files f c) = cfg_mute c \<and>
      cfg_disable_cursor_blink (configure_font files f c) = cfg_disable_cursor_blink c \<and>
      cfg_disable_visual_bell (configure_font files f c) = cfg_disable_visual_bell c \<and>
      cfg_active_links (configure_font files f c) = cfg_active_links c"
  proof -
    fix f c
    obtain nm b where "font_scan files f (int (length f)) c = c\<lparr>cfg_font_name := nm, cfg_font_bitmap := b\<rparr>"
      using font_scan_fields by blast
    then show "?thesis f c" by (simp add: configure_font_def Let_def)
  qed
  show ?thesis
    using f by (simp add: configure_instance_def Let_def set_instance_theme_def split: option.split)
qed

text \<open>
  C17: the bitmap-font search of \<open>_configure_instance\<close> (a name without a size)
  picks the first file of the font directory whose name begins with the
  requested name, compared without case, or leaves the font alone when no file
  matches; the loop that disables itself by setting \<open>n = -1\<close> is equivalent to
  \<open>find\<close>.
\<close>

theorem font_lookup_first_match:
  assumes "f \<noteq> []"
  shows "font_scan files f (int (length f)) cfg =
    (case find (ci_prefix f) files of
       None \<Rightarrow> cfg
     | Some fl \<Rightarrow> cfg\<lparr>cfg_font_name := fl, cfg_font_bitmap := True\<rparr>)"
  using assms font_scan_find [of "length f" files f cfg] by (simp add: strncasecmp_eq_ci_prefix)

theorem font_lookup_first_match_witness:
  "font_scan [''fixed.pcf'', ''Nexus.pcf'', ''nexus-bold.pcf''] ''nex'' 3 sample_config =
   sample_config\<lparr>cfg_font_name := ''Nexus.pcf'', cfg_font_bitmap := True\<rparr>"
  using font_lookup_first_match [of "''nex''" "[''fixed.pcf'', ''Nexus.pcf'', ''nexus-bold.pcf'']" sample_config]
  using c_tolower_N by (simp add: ci_prefix_def c_tolower_def)

text \<open>
  C18: \<open>_set_instance_theme\<close> appends \<open>.edj\<close> to a theme name that lacks it;
  a name with a \<open>/\<close> is taken as a path, any other is looked up with
  \<open>theme_path_get\<close>. Below \<open>PATH_MAX\<close> nothing is truncated.
\<close>

theorem set_instance_theme_path:
  assumes "theme inst = Some t" "length t + 4 < PATH_MAX"
  shows "cfg_theme (set_instance_theme tp inst cfg) =
    (let nm = (if eina_str_has_suffix t ''.edj'' then t else t @ ''.edj'')
     in if CHR ''/'' \<in> set t then nm else tp nm)"
  using assms by (simp add: set_instance_theme_def c_truncate_def Let_def)

theorem set_instance_theme_path_witness:
  "cfg_theme (set_instance_theme (\<lambda>s. s) (sample_instance\<lparr>theme := Some ''/tmp/dark''\<rparr>) sample_config)
   = ''/tmp/dark.edj''"
  using set_instance_theme_path [of "sample_instance\<lparr>theme := Some ''/tmp/dark''\<rparr>" "''/tmp/dark''" "\<lambda>s. s" sample_config]
  by (simp add: PATH_MAX_def eina_str_has_suffix_def)

end
