(* ===== verification/Launch.thy ===== *)
theory Launch
  imports Instance
begin

text \<open>
  The start-up path of \<open>elm_main\<close> in \<open>src/bin/main.c\<close> around the window:
  the option table and the value array \<open>ecore_getopt_parse\<close> fills, the
  translation of the option help (\<open>_translate_options\<close>), the probe for
  sound support (\<open>_check_multisense\<close>), the command given with \<open>-e\<close>, and
  \<open>_start\<close>, which opens the window and performs the \<open>-S\<close> splits.
\<close>

section \<open>The option table (lines 455--532) and its values (lines 826--860)\<close>

text \<open>
  An \<open>Ecore_Getopt_Desc\<close>: short name (\<open>'\0'\<close> for none), long name, help,
  action, and for \<open>ECORE_GETOPT_ACTION_STORE\<close> the type stored. The helps of
  \<open>ECORE_GETOPT_VERSION\<close>, \<open>_COPYRIGHT\<close>, \<open>_LICENSE\<close> and \<open>_HELP\<close> are those
  of \<open>Ecore_Getopt.h\<close>; the sentinel is all zero.
\<close>

datatype getopt_action =
    Act_store | Act_store_true | Act_break | Act_version | Act_copyright | Act_license
  | Act_help | Act_category

datatype store_type = Type_str | Type_bool | Type_double

record getopt_desc =
  gd_short :: char
  gd_long :: "string option"
  gd_help :: "string option"
  gd_action :: getopt_action
  gd_type :: "store_type option"

definition opt_desc :: "char \<Rightarrow> string option \<Rightarrow> string option \<Rightarrow> getopt_action \<Rightarrow> store_type option \<Rightarrow> getopt_desc" where
  "opt_desc s l h a t = \<lparr>gd_short = s, gd_long = l, gd_help = h, gd_action = a, gd_type = t\<rparr>"

definition terminology_options :: "getopt_desc list" where
  "terminology_options = [
     opt_desc (CHR ''b'') (Some ''background'') (Some ''Use the named file as a background wallpaper'') Act_store (Some Type_str),
     opt_desc (CHR ''d'') (Some ''current-directory'') (Some ''Change to directory for execution of terminal command'') Act_store (Some Type_str),
     opt_desc (CHR ''e'') (Some ''exec'') (Some ''Command to execute. Defaults to $SHELL (or passwd shell or /bin/sh)'') Act_break (None),
     opt_desc (CHR ''t'') (Some ''theme'') (Some ''Use the named edje theme or path to theme file'') Act_store (Some Type_str),
     opt_desc (CHR ''C'') (Some ''colorscheme'') (Some ''Use the named color scheme'') Act_store (Some Type_str),
     opt_desc (CHR ''g'') (Some ''geometry'') (Some ''Terminal geometry to use (eg 80x24 or 80x24+50+20 etc.)'') Act_store (Some Type_str),
     opt_desc (CHR ''n'') (Some ''name'') (Some ''Set window name'') Act_store (Some Type_str),
     opt_desc (CHR ''r'') (Some ''role'') (Some ''Set window role'') Act_store (Some Type_str),
     opt_desc (CHR ''T'') (Some ''title'') (Some ''Set window title'') Act_store (Some Type_str),
     opt_desc (CHR ''i'') (Some ''icon-name'') (Some ''Set icon name'') Act_store (Some Type_str),
     opt_desc (CHR ''f'') (Some ''font'') (Some ''Set font (NAME/SIZE for scalable, NAME for bitmap)'') Act_store (Some Type_str),
     opt_desc (CHR ''S'') (Some ''split'') (Some (''Split the terminal window. '' @ [CHR 0x27] @ ''v'' @ [CHR 0x27] @ '' for vertical and '' @ [CHR 0x27] @ ''h'' @ [CHR 0x27] @ '' for horizontal. Can be used multiple times. eg -S vhvv or --split hv More description available on the man page'')) Act_store (Some Type_str),
     opt_desc (CHR ''l'') (Some ''login'') (Some ''Run the shell as a login shell'') Act_store (Some Type_bool),
     opt_desc (CHR ''m'') (Some ''video-mute'') (Some ''Set mute mode for video playback'') Act_store (Some Type_bool),
     opt_desc (CHR ''c'') (Some ''cursor-blink'') (Some ''Set cursor blink mode'') Act_store (Some Type_bool),
     opt_desc (CHR ''G'') (Some ''visual-bell'') (Some ''Set visual bell mode'') Act_store (Some Type_bool),
     opt_desc (CHR ''F'') (Some ''fullscreen'') (Some ''Go into the fullscreen mode from the start'') Act_store_true (None),
     opt_desc (CHR ''I'') (Some ''iconic'') (Some ''Start iconified'') Act_store_true (None),
     opt_desc (CHR ''B'') (Some ''borderless'') (Some ''Start borderless'') Act_store_true (None),
     opt_desc (CHR ''O'') (Some ''override'') (Some ''Start as a override-redirect window'') Act_store_true (None),
     opt_desc (CHR ''M'') (Some ''maximized'') (Some ''Start maximized'') Act_store_true (None),
     opt_desc (CHR ''W'') (Some ''nowm'') (Some ''Terminology is run without a window manager'') Act_store_true (None),
     opt_desc (CHR ''H'') (Some ''hold'') (Some ''Do not exit when the command process exits'') Act_store_true (None),
     opt_desc (CHR ''s'') (Some ''single'') (Some ''Force single executable if multi-instance is enabled'') Act_store_true (None),
     opt_desc (CHR ''2'') (Some ''256color'') (Some (''Set TERM to '' @ [CHR 0x27] @ ''xterm-256color'' @ [CHR 0x27] @ '' instead of '' @ [CHR 0x27] @ ''xterm'' @ [CHR 0x27])) Act_store_true (None),
     opt_desc (CHR 0x00) (Some ''scale'') (Some ''Set scaling factor'') Act_store (Some Type_double),
     opt_desc (CHR 0x00) (Some ''active-links'') (Some ''Highlight links'') Act_store (Some Type_bool),
     opt_desc (CHR 0x00) (Some ''no-wizard'') (Some ''Do not display wizard on start up'') Act_store (Some Type_bool),
     opt_desc (CHR ''V'') (Some ''version'') (Some ''show program version.'') Act_version (None),
     opt_desc (CHR 0x00) (Some ''copyright'') (Some ''show copyright.'') Act_copyright (None),
     opt_desc (CHR ''L'') (Some ''license'') (Some ''show license.'') Act_license (None),
     opt_desc (CHR ''h'') (Some ''help'') (Some ''show this message.'') Act_help (None),
     opt_desc (CHR 0x00) None None Act_store None]"

text \<open>An \<open>Ecore_Getopt_Value\<close> of \<open>values[]\<close>: the C type and the variable it points to.\<close>

datatype getopt_value = Val_str string | Val_bool string | Val_double string | Val_none

definition elm_main_values :: "getopt_value list" where
  "elm_main_values = [
     Val_str ''instance.background'',
     Val_str ''instance.cd'',
     Val_bool ''cmd_options'',
     Val_str ''instance.theme'',
     Val_str ''instance.colorscheme'',
     Val_str ''geometry'',
     Val_str ''instance.name'',
     Val_str ''instance.role'',
     Val_str ''instance.title'',
     Val_str ''instance.icon_name'',
     Val_str ''instance.font'',
     Val_str ''instance.startup_split'',
     Val_bool ''instance.login_shell'',
     Val_bool ''instance.video_mute'',
     Val_bool ''instance.cursor_blink'',
     Val_bool ''instance.visual_bell'',
     Val_bool ''instance.fullscreen'',
     Val_bool ''instance.iconic'',
     Val_bool ''instance.borderless'',
     Val_bool ''instance.override'',
     Val_bool ''instance.maximized'',
     Val_bool ''instance.nowm'',
     Val_bool ''instance.hold'',
     Val_bool ''single'',
     Val_bool ''instance.xterm_256color'',
     Val_double ''scale'',
     Val_bool ''instance.active_links'',
     Val_bool ''no_wizard'',
     Val_bool ''quit_option'',
     Val_bool ''quit_option'',
     Val_bool ''quit_option'',
     Val_bool ''quit_option'',
     Val_none]"

section \<open>_translate_options (lines 535--568)\<close>

text \<open>The loop's condition: the entry is not the sentinel.\<close>

definition desc_live :: "getopt_desc \<Rightarrow> bool" where
  "desc_live d \<longleftrightarrow> gd_short d \<noteq> CHR 0x00 \<or> gd_long d \<noteq> None \<or> gd_action d = Act_category"

definition translate_desc :: "(string \<Rightarrow> string) \<Rightarrow> getopt_desc \<Rightarrow> getopt_desc" where
  "translate_desc gettext d =
     (case gd_help d of
        None \<Rightarrow> d
      | Some h \<Rightarrow> d\<lparr>gd_help := Some (case gd_action d of
                     Act_version \<Rightarrow> gettext ''show program version''
                   | Act_copyright \<Rightarrow> gettext ''show copyright''
                   | Act_license \<Rightarrow> gettext ''show license''
                   | Act_help \<Rightarrow> gettext ''show this message''
                   | _ \<Rightarrow> gettext h)\<rparr>)"

text \<open>
  The \<open>while\<close> loop over \<open>options.descs\<close>. The C loop relies on the sentinel to
  stop; on a table without one it would read past the end, which the model
  stops at the end of the list.
\<close>

fun translate_descs :: "(string \<Rightarrow> string) \<Rightarrow> getopt_desc list \<Rightarrow> getopt_desc list" where
  "translate_descs gettext [] = []"
| "translate_descs gettext (d # ds) =
     (if desc_live d then translate_desc gettext d # translate_descs gettext ds else d # ds)"

section \<open>_check_multisense (lines 160--180)\<close>

text \<open>
  The effect channel of Edje's audio, as the probe sees it: builds without
  sound support ignore \<open>edje_audio_channel_mute_set\<close>.
\<close>

record audio_channel =
  ch_supported :: bool
  ch_mute :: bool

definition channel_mute_set :: "bool \<Rightarrow> audio_channel \<Rightarrow> audio_channel" where
  "channel_mute_set v ch = (if ch_supported ch then ch\<lparr>ch_mute := v\<rparr> else ch)"

definition check_multisense :: "bool \<Rightarrow> audio_channel \<Rightarrow> bool \<times> audio_channel" where
  "check_multisense available ch0 =
     (let setting = ch_mute ch0;
          step = (\<lambda>enabled (avail, ch).
                    let ch' = channel_mute_set enabled ch
                    in (avail \<and> enabled = ch_mute ch', ch'));
          (avail, ch) = fold step [False, True] (available, ch0)
      in (avail, channel_mute_set setting ch))"

section \<open>elm_main: the command of -e (lines 943--973)\<close>

text \<open>
  After \<open>ecore_getopt_parse\<close> stopped at \<open>-e\<close>, \<open>args\<close> indexes the first
  word of the command. With \<open>-S\<close> the first word is the command and each
  later word the command of one split; otherwise the words are joined with
  spaces. \<open>None\<close>: \<open>-e\<close> was the last argument (the error path to \<open>end\<close>).
\<close>

text \<open>Reference for the joined command: the words separated by single spaces.\<close>

fun join_words :: "string list \<Rightarrow> string" where
  "join_words [] = []"
| "join_words [w] = w"
| "join_words (w # ws) = w @ '' '' @ join_words ws"

definition elm_main_exec :: "string list \<Rightarrow> nat \<Rightarrow> bool \<Rightarrow> (string \<times> string list) option" where
  "elm_main_exec argv args split =
     (if args = length argv then None
      else if split then Some (argv ! args, drop (Suc args) argv)
      else Some (foldl (\<lambda>acc a. acc @ '' '' @ a) (argv ! args) (drop (Suc args) argv), []))"

text \<open>
  Line 1053--1054: an instance that leaves the login shell unset takes the
  configuration's value before it is started or sent to a server.
\<close>

definition elm_main_login_shell :: "config \<Rightarrow> ipc_instance \<Rightarrow> ipc_instance" where
  "elm_main_login_shell cfg inst =
     (if login_shell inst = IPC_INSTANCE_OPT_UNSET then inst\<lparr>login_shell := cfg_login_shell cfg\<rparr> else inst)"

section \<open>_start (lines 583--686)\<close>

text \<open>
  The terminals of the window are numbered, the first one 0; \<open>term_next_get\<close>
  is an input. A split names the terminal it splits and the command it runs
  (\<open>NULL\<close> when the command list is exhausted).
\<close>

datatype split_action = Split_v nat "string option" | Split_h nat "string option"

fun split_cmd :: "split_action \<Rightarrow> string option" where
  "split_cmd (Split_v _ c) = c"
| "split_cmd (Split_h _ c) = c"

definition list_head :: "'a list \<Rightarrow> 'a option" where
  "list_head xs = (case xs of [] \<Rightarrow> None | x # _ \<Rightarrow> Some x)"

text \<open>
  The loop over the \<open>-S\<close> string (lines 630--660): the splits made, the
  commands left, and whether the loop ran to the end (\<open>False\<close>: an invalid
  character, \<open>goto end\<close>).
\<close>

fun start_split ::
  "(nat \<Rightarrow> nat) \<Rightarrow> string \<Rightarrow> nat \<Rightarrow> string list \<Rightarrow> split_action list \<times> string list \<times> bool" where
  "start_split nx [] t cl = ([], cl, True)"
| "start_split nx (c # cs) t cl =
     (if c = CHR ''v'' then
        (let (as, r, ok) = start_split nx cs t (tl cl) in (Split_v t (list_head cl) # as, r, ok))
      else if c = CHR ''h'' then
        (let (as, r, ok) = start_split nx cs t (tl cl) in (Split_h t (list_head cl) # as, r, ok))
      else if c = CHR ''-'' then start_split nx cs (nx t) cl
      else ([], cl, False))"

record start_io =
  st_win_ok :: bool
  st_term_ok :: bool
  st_term_set_ok :: bool
  st_screen_w :: int
  st_screen_h :: int
  st_term_next :: "nat \<Rightarrow> nat"

text \<open>
  What \<open>_start\<close> leaves: the splits, the window move, the focus for \<open>-W\<close>,
  whether \<open>controls_init\<close> and the scale wizard ran, and the value of the
  global \<open>terminology_starting_up\<close> (\<open>True\<close> when \<open>_start\<close> began).
\<close>

record start_done =
  sd_splits :: "split_action list"
  sd_moved :: "(int \<times> int) option"
  sd_focus :: bool
  sd_controls :: bool
  sd_wizard :: bool
  sd_starting_up :: bool

datatype start_outcome = Start_quit | Start_running start_done

definition start_window :: "start_io \<Rightarrow> bool \<Rightarrow> ipc_instance \<Rightarrow> start_outcome" where
  "start_window io need_scale_wizard inst =
     (if \<not> st_win_ok io then Start_quit
      else if \<not> st_term_ok io then Start_quit
      else if \<not> st_term_set_ok io then Start_quit
      else
        let (splits, _, ok) = (case startup_split inst of
                                 None \<Rightarrow> ([], cmds inst, True)
                               | Some sp \<Rightarrow> start_split (st_term_next io) sp 0 (cmds inst))
        in if \<not> ok then
             Start_running \<lparr>sd_splits = splits, sd_moved = None, sd_focus = False,
                            sd_controls = False, sd_wizard = False, sd_starting_up = True\<rparr>
           else
             Start_running \<lparr>sd_splits = splits,
                            sd_moved = (if inst_pos inst
                                        then Some (if inst_x inst < 0 then st_screen_w io + inst_x inst else inst_x inst,
                                                   if inst_y inst < 0 then st_screen_h io + inst_y inst else inst_y inst)
                                        else None),
                            sd_focus = nowm inst, sd_controls = True, sd_wizard = need_scale_wizard,
                            sd_starting_up = False\<rparr>)"

text \<open>A sample of the EFL results for the examples: every call succeeds.\<close>

abbreviation sample_start_io :: start_io where
  "sample_start_io \<equiv> \<lparr>st_win_ok = True, st_term_ok = True, st_term_set_ok = True, st_screen_w = 1920, st_screen_h = 1080, st_term_next = Suc\<rparr>"

section \<open>Lemmas\<close>


lemma foldl_join: "foldl (\<lambda>acc a. acc @ CHR '' '' # a) x ys = x @ concat (map ((#) CHR '' '') ys)"
  by (induction ys arbitrary: x) simp_all

lemma join_words_Cons: "join_words (x # ys) = x @ concat (map ((#) CHR '' '') ys)"
  by (induction ys arbitrary: x) (simp_all add: join_words.simps(3) [of _ "_ # _"] join_words.simps)

lemma take_replicate_None:
  "n \<le> m \<Longrightarrow> take n (xs @ replicate m None) = take n (xs @ replicate n None)"
  by (simp add: take_append min_def) linarith

lemma split_head_take:
  "list_head cl # take n (map Some (tl cl) @ replicate n None) =
   take (Suc n) (map Some cl @ replicate (Suc n) None)"
  by (cases cl) (simp_all add: list_head_def take_replicate_None replicate_append_same [symmetric])

lemma start_split_v:
  "start_split nx (CHR ''v'' # cs) t cl =
   (Split_v t (list_head cl) # fst (start_split nx cs t (tl cl)), snd (start_split nx cs t (tl cl)))"
  by (simp add: split_def Let_def)

lemma start_split_h:
  "start_split nx (CHR ''h'' # cs) t cl =
   (Split_h t (list_head cl) # fst (start_split nx cs t (tl cl)), snd (start_split nx cs t (tl cl)))"
  by (simp add: split_def Let_def)

lemma start_split_dash: "start_split nx (CHR ''-'' # cs) t cl = start_split nx cs (nx t) cl"
  by simp

lemma start_split_valid:
  assumes "set sp \<subseteq> {CHR ''v'', CHR ''h'', CHR ''-''}"
  shows "snd (start_split nx sp t cl) =
           (drop (length (filter (\<lambda>c. c = CHR ''v'' \<or> c = CHR ''h'') sp)) cl, True) \<and>
         map split_cmd (fst (start_split nx sp t cl)) =
           take (length (filter (\<lambda>c. c = CHR ''v'' \<or> c = CHR ''h'') sp))
             (map Some cl @ replicate (length (filter (\<lambda>c. c = CHR ''v'' \<or> c = CHR ''h'') sp)) None)"
  using assms
proof (induction sp arbitrary: t cl)
  case Nil
  then show ?case by simp
next
  case (Cons c cs)
  let ?n = "length (filter (\<lambda>c. c = CHR ''v'' \<or> c = CHR ''h'') cs)"
  have c: "c = CHR ''v'' \<or> c = CHR ''h'' \<or> c = CHR ''-''" and cs: "set cs \<subseteq> {CHR ''v'', CHR ''h'', CHR ''-''}"
    using Cons.prems by auto
  from c show ?case
  proof (elim disjE)
    assume v: "c = CHR ''v''"
    then have cnt: "length (filter (\<lambda>c. c = CHR ''v'' \<or> c = CHR ''h'') (CHR ''v'' # cs)) = Suc ?n"
      by simp
    from Cons.IH [OF cs, of t "tl cl"] show ?thesis
      by (simp only: v cnt start_split_v list.map split_cmd.simps fst_conv snd_conv drop_Suc split_head_take)
  next
    assume h: "c = CHR ''h''"
    then have cnt: "length (filter (\<lambda>c. c = CHR ''v'' \<or> c = CHR ''h'') (CHR ''h'' # cs)) = Suc ?n"
      by simp
    from Cons.IH [OF cs, of t "tl cl"] show ?thesis
      by (simp only: h cnt start_split_h list.map split_cmd.simps fst_conv snd_conv drop_Suc split_head_take)
  next
    assume d: "c = CHR ''-''"
    then have cnt: "length (filter (\<lambda>c. c = CHR ''v'' \<or> c = CHR ''h'') (CHR ''-'' # cs)) = ?n"
      by simp
    from Cons.IH [OF cs, of "nx t" cl] show ?thesis
      by (simp only: d cnt start_split_dash)
  qed
qed

lemma start_split_invalid:
  "\<not> set sp \<subseteq> {CHR ''v'', CHR ''h'', CHR ''-''} \<Longrightarrow> \<not> snd (snd (start_split nx sp t cl))"
proof (induction sp arbitrary: t cl)
  case Nil
  then show ?case by simp
next
  case (Cons c cs)
  show ?case
  proof (cases "c \<in> {CHR ''v'', CHR ''h'', CHR ''-''}")
    case True
    with Cons.prems have "\<not> set cs \<subseteq> {CHR ''v'', CHR ''h'', CHR ''-''}" by auto
    with True Cons.IH show ?thesis
      by (auto simp only: start_split_v start_split_h start_split_dash insert_iff empty_iff snd_conv)
  next
    case False
    then show ?thesis by simp
  qed
qed


section \<open>Properties\<close>

text \<open>
  C30: \<open>_check_multisense\<close> leaves \<open>multisense_available\<close> true exactly when the audio channel stores the mute value it is given, and restores the channel as it found it.
\<close>

theorem check_multisense_probe: "check_multisense True ch = (ch_supported ch, ch)"
  by (cases ch) (simp add: check_multisense_def channel_mute_set_def)

text \<open>
  C31: Without \<open>-S\<close>, the command of \<open>-e\<close> is the remaining words joined by single spaces: the \<open>Eina_Strbuf\<close> loop equals \<open>join_words\<close>.
\<close>

theorem exec_join:
  "args < length argv \<Longrightarrow> elm_main_exec argv args False = Some (join_words (drop args argv), [])"
  by (simp add: elm_main_exec_def foldl_join join_words_Cons Cons_nth_drop_Suc [symmetric])

theorem exec_join_witness:
  "elm_main_exec [''terminology'', ''-e'', ''ls'', ''-l''] 2 False = Some (''ls -l'', [])"
  using exec_join [of 2 "[''terminology'', ''-e'', ''ls'', ''-l'']"] by simp

text \<open>
  C32: On a valid \<open>-S\<close> string, \<open>_start\<close> performs one split per \<open>v\<close> or \<open>h\<close>, giving the split commands in order and \<open>NULL\<close> once they run out, then runs \<open>controls_init\<close> and clears \<open>terminology_starting_up\<close>.
\<close>

theorem start_window_splits:
  assumes "st_win_ok io" "st_term_ok io" "st_term_set_ok io"
    and "startup_split inst = Some sp" "set sp \<subseteq> {CHR ''v'', CHR ''h'', CHR ''-''}"
  shows "\<exists>d. start_window io w inst = Start_running d \<and>
    map split_cmd (sd_splits d) =
      take (length (filter (\<lambda>c. c = CHR ''v'' \<or> c = CHR ''h'') sp))
        (map Some (cmds inst) @ replicate (length (filter (\<lambda>c. c = CHR ''v'' \<or> c = CHR ''h'') sp)) None) \<and>
    sd_controls d \<and> \<not> sd_starting_up d"
proof -
  obtain as r ok where sp: "start_split (st_term_next io) sp 0 (cmds inst) = (as, r, ok)"
    by (metis prod.exhaust)
  with start_split_valid [OF assms(5), of "st_term_next io" 0 "cmds inst"] have "ok" "map split_cmd as =
      take (length (filter (\<lambda>c. c = CHR ''v'' \<or> c = CHR ''h'') sp))
        (map Some (cmds inst) @ replicate (length (filter (\<lambda>c. c = CHR ''v'' \<or> c = CHR ''h'') sp)) None)"
    by simp_all
  with assms sp show ?thesis
    by (simp add: start_window_def)
qed

theorem start_window_splits_witness:
  "\<exists>d. start_window sample_start_io False (sample_instance\<lparr>startup_split := Some ''v-h'', cmds := [''top'']\<rparr>)
     = Start_running d \<and> map split_cmd (sd_splits d) = [Some ''top'', None] \<and>
     sd_controls d \<and> \<not> sd_starting_up d"
  using start_window_splits [of sample_start_io "sample_instance\<lparr>startup_split := Some ''v-h'', cmds := [''top'']\<rparr>"
      "''v-h''" False]
  by simp

text \<open>
  C33: An invalid character in the \<open>-S\<close> string makes \<open>_start\<close> jump to \<open>end\<close>: the window is left unmoved, \<open>controls_init\<close> is skipped and \<open>terminology_starting_up\<close> stays true.
\<close>

theorem start_window_invalid_split:
  assumes "st_win_ok io" "st_term_ok io" "st_term_set_ok io"
    and "startup_split inst = Some sp" "\<not> set sp \<subseteq> {CHR ''v'', CHR ''h'', CHR ''-''}"
  shows "\<exists>d. start_window io w inst = Start_running d \<and>
    sd_starting_up d \<and> \<not> sd_controls d \<and> sd_moved d = None"
proof -
  obtain as r ok where sp: "start_split (st_term_next io) sp 0 (cmds inst) = (as, r, ok)"
    by (metis prod.exhaust)
  with start_split_invalid [OF assms(5), of "st_term_next io" 0 "cmds inst"] have "\<not> ok"
    by simp
  with assms sp show ?thesis
    by (simp add: start_window_def)
qed

theorem start_window_invalid_split_witness:
  "\<exists>d. start_window sample_start_io False (sample_instance\<lparr>startup_split := Some ''vx''\<rparr>) = Start_running d \<and>
     sd_starting_up d \<and> \<not> sd_controls d \<and> sd_moved d = None"
  using start_window_invalid_split [of sample_start_io "sample_instance\<lparr>startup_split := Some ''vx''\<rparr>" "''vx''" False]
  by simp

end
