(* ===== verification/Startup.thy ===== *)
theory Startup
  imports Prelude
begin

text \<open>
  The multi-instance start of \<open>src/bin/main.c\<close>. \<open>_start_multi\<close> asks a running
  \<open>terminology\<close> to open the window (\<open>_instance_add_waiter\<close>) and, failing
  that, becomes the server itself. The request may block on a stalled socket,
  so \<open>_instance_add_waiter\<close> starts a watchdog thread (\<open>_instance_sleep\<close>)
  that, after two seconds without an answer, removes the socket and re-executes
  the program. The two threads share a heap object \<open>struct Instance_Add\<close>
  guarded by a mutex; each frees it on one of its paths.

  The model is a step function over the joint state of both threads, one
  event per atomic step; which thread moves next is the choice of the event,
  so every interleaving is a sequence of events. Each access to the shared
  object after a \<open>free\<close> is recorded.
\<close>

section \<open>State of the two threads (lines 703--772)\<close>

datatype thr = Waiter | Sleeper

text \<open>Program points of \<open>_instance_add_waiter\<close> after \<open>pthread_create\<close>.\<close>

datatype wpc = W_add | W_lock | W_check | W_unlock | W_free | W_ret

text \<open>Program points of \<open>_instance_sleep\<close>; \<open>S_none\<close>: the thread was not created.\<close>

datatype spc = S_sleep | S_lock | S_check | S_unlock | S_branch | S_exec | S_ret | S_none

record add_state =
  wpc :: wpc
  spc :: spc
  add_done :: bool
  add_timedout :: bool
  lock_holder :: "thr option"
  frees :: nat
  w_timedout :: bool
  w_result :: bool
  s_timedout :: bool
  uaf :: bool
  exec_done :: bool

text \<open>
  The state after \<open>calloc\<close>, \<open>pthread_mutex_init\<close> and \<open>pthread_create\<close>,
  whose result the code does not test: \<open>spawned\<close> says whether the watchdog
  runs.
\<close>

definition add_init :: "bool \<Rightarrow> add_state" where
  "add_init spawned =
     \<lparr>wpc = W_add, spc = (if spawned then S_sleep else S_none), add_done = False,
      add_timedout = False, lock_holder = None, frees = 0, w_timedout = False,
      w_result = True, s_timedout = False, uaf = False, exec_done = False\<rparr>"

text \<open>A read or write of the shared object, and \<open>_instance_add_free\<close>.\<close>

definition touch :: "add_state \<Rightarrow> add_state" where
  "touch s = s\<lparr>uaf := uaf s \<or> 0 < frees s\<rparr>"

definition add_free :: "add_state \<Rightarrow> add_state" where
  "add_free s = (touch s)\<lparr>frees := Suc (frees s)\<rparr>"

text \<open>
  The events: the result of \<open>ipc_instance_add\<close> (the call that may block), a
  step of either thread, and the outcome of \<open>execv\<close> (success replaces the
  process image, and with it both threads).
\<close>

datatype add_event = Ipc_add bool | Step thr | Exec_result bool

definition waiter_step :: "add_state \<Rightarrow> add_state option" where
  "waiter_step s =
     (case wpc s of
        W_lock \<Rightarrow> if lock_holder s = None
                  then Some ((touch s)\<lparr>lock_holder := Some Waiter, wpc := W_check\<rparr>) else None
      | W_check \<Rightarrow>
          let s' = (touch s)\<lparr>add_done := True, wpc := W_unlock\<rparr> in
          Some (if add_timedout s then s'\<lparr>w_timedout := True, add_timedout := True, w_result := False\<rparr>
                else s')
      | W_unlock \<Rightarrow> Some ((touch s)\<lparr>lock_holder := None, wpc := W_free\<rparr>)
      | W_free \<Rightarrow> Some ((if w_timedout s then add_free s else s)\<lparr>wpc := W_ret\<rparr>)
      | _ \<Rightarrow> None)"

definition sleeper_step :: "add_state \<Rightarrow> add_state option" where
  "sleeper_step s =
     (case spc s of
        S_sleep \<Rightarrow> Some (s\<lparr>spc := S_lock\<rparr>)
      | S_lock \<Rightarrow> if lock_holder s = None
                  then Some ((touch s)\<lparr>lock_holder := Some Sleeper, spc := S_check\<rparr>) else None
      | S_check \<Rightarrow>
          Some (if \<not> add_done s then (touch s)\<lparr>s_timedout := True, add_timedout := True, spc := S_unlock\<rparr>
                else (touch s)\<lparr>spc := S_unlock\<rparr>)
      | S_unlock \<Rightarrow> Some ((touch s)\<lparr>lock_holder := None, spc := S_branch\<rparr>)
      | S_branch \<Rightarrow> Some (if s_timedout s then s\<lparr>spc := S_exec\<rparr> else (add_free s)\<lparr>spc := S_ret\<rparr>)
      | _ \<Rightarrow> None)"

definition add_step :: "add_event \<Rightarrow> add_state \<Rightarrow> add_state option" where
  "add_step e s =
     (if exec_done s then None else
      case e of
        Ipc_add r \<Rightarrow> if wpc s = W_add then Some ((touch s)\<lparr>wpc := W_lock, w_result := r\<rparr>) else None
      | Step Waiter \<Rightarrow> waiter_step s
      | Step Sleeper \<Rightarrow> sleeper_step s
      | Exec_result ok \<Rightarrow>
          if spc s = S_exec
          then Some (if ok then (touch s)\<lparr>exec_done := True\<rparr> else (touch s)\<lparr>spc := S_ret\<rparr>)
          else None)"

inductive add_reach :: "bool \<Rightarrow> add_state \<Rightarrow> bool" for spawned where
  init: "add_reach spawned (add_init spawned)"
| step: "add_reach spawned s \<Longrightarrow> add_step e s = Some t \<Longrightarrow> add_reach spawned t"

fun add_run :: "add_event list \<Rightarrow> add_state \<Rightarrow> add_state option" where
  "add_run [] s = Some s"
| "add_run (e # es) s = (case add_step e s of None \<Rightarrow> None | Some t \<Rightarrow> add_run es t)"

definition add_final :: "add_state \<Rightarrow> bool" where
  "add_final s \<longleftrightarrow> exec_done s \<or> (wpc s = W_ret \<and> spc s \<in> {S_ret, S_none})"

section \<open>_start_multi (lines 774--807)\<close>

text \<open>
  At most two rounds: ask a running server (\<open>_instance_add_waiter\<close>), else try
  to become the server (\<open>ipc_serve\<close>); \<open>remote_try\<close> counts the failed rounds.
  The results of the two calls in round \<open>k\<close> are inputs \<open>waiter k\<close> and
  \<open>serve k\<close>. The outcome records the round count and whether \<open>_start\<close> runs
  with this process serving.
\<close>

datatype multi_outcome = Remote_window nat | Local_start bool nat

function start_multi_loop :: "(nat \<Rightarrow> bool) \<Rightarrow> (nat \<Rightarrow> bool) \<Rightarrow> nat \<Rightarrow> multi_outcome" where
  "start_multi_loop waiter serve remote_try =
     (if waiter remote_try then Remote_window (Suc remote_try)
      else if serve remote_try then Local_start True (Suc remote_try)
      else if Suc remote_try \<le> 1 then start_multi_loop waiter serve (Suc remote_try)
      else Local_start False (Suc remote_try))"
  by pat_completeness auto
termination
  by (relation "measure (\<lambda>(_, _, t). 2 - t)") auto

text \<open>The value \<open>_start_multi\<close> returns: \<open>EINA_TRUE\<close> only when a server took the window.\<close>

definition start_multi :: "(nat \<Rightarrow> bool) \<Rightarrow> (nat \<Rightarrow> bool) \<Rightarrow> bool \<times> multi_outcome" where
  "start_multi waiter serve =
     (let r = start_multi_loop waiter serve 0 in
      (case r of Remote_window _ \<Rightarrow> True | Local_start _ _ \<Rightarrow> False, r))"

fun multi_rounds :: "multi_outcome \<Rightarrow> nat" where
  "multi_rounds (Remote_window k) = k"
| "multi_rounds (Local_start _ k) = k"

section \<open>Sample runs\<close>

abbreviation timeout_run :: "add_event list" where
  "timeout_run \<equiv> [Step Sleeper, Step Sleeper, Step Sleeper, Step Sleeper, Step Sleeper,
                  Ipc_add True, Step Waiter, Step Waiter, Step Waiter, Step Waiter]"

abbreviation answered_run :: "add_event list" where
  "answered_run \<equiv> [Ipc_add True, Step Waiter, Step Waiter, Step Waiter, Step Waiter,
                   Step Sleeper, Step Sleeper, Step Sleeper, Step Sleeper, Step Sleeper]"

section \<open>The invariant of the handshake\<close>

text \<open>
  How the lock, the flags and the two program counters agree. \<open>past_check\<close>:
  the waiter has set \<open>done\<close>; the sleeper has made its timeout decision.
\<close>

definition w_past_check :: "add_state \<Rightarrow> bool" where
  "w_past_check s \<longleftrightarrow> wpc s \<in> {W_unlock, W_free, W_ret}"

definition s_past_check :: "add_state \<Rightarrow> bool" where
  "s_past_check s \<longleftrightarrow> spc s \<in> {S_unlock, S_branch, S_exec, S_ret}"

definition add_inv :: "bool \<Rightarrow> add_state \<Rightarrow> bool" where
  "add_inv spawned s \<longleftrightarrow>
     lock_holder s = (if wpc s \<in> {W_check, W_unlock} then Some Waiter
                      else if spc s \<in> {S_check, S_unlock} then Some Sleeper else None) \<and>
     \<not> (wpc s \<in> {W_check, W_unlock} \<and> spc s \<in> {S_check, S_unlock}) \<and>
     add_done s = w_past_check s \<and>
     add_timedout s = s_timedout s \<and>
     w_timedout s = (w_past_check s \<and> s_timedout s) \<and>
     (s_timedout s \<longrightarrow> s_past_check s) \<and>
     (spc s = S_exec \<longrightarrow> s_timedout s) \<and>
     (s_past_check s \<and> \<not> s_timedout s \<longrightarrow> w_past_check s) \<and>
     frees s = (if wpc s = W_ret \<and> w_timedout s then 1 else 0)
               + (if spc s = S_ret \<and> \<not> s_timedout s then 1 else 0) \<and>
     (w_timedout s \<longrightarrow> \<not> w_result s) \<and>
     (exec_done s \<longrightarrow> spc s = S_exec) \<and>
     (spc s = S_none \<longleftrightarrow> \<not> spawned)"

lemma add_inv_init: "add_inv spawned (add_init spawned)"
  by (simp add: add_inv_def add_init_def w_past_check_def s_past_check_def)

lemma waiter_step_inv_case:
  "add_inv sp s \<Longrightarrow> case waiter_step s of None \<Rightarrow> True | Some t \<Rightarrow> add_inv sp t"
  by (cases "wpc s"; cases "spc s")
    (simp_all add: waiter_step_def add_inv_def w_past_check_def s_past_check_def touch_def add_free_def
      Let_def)

lemma sleeper_step_inv_case:
  "add_inv sp s \<Longrightarrow> case sleeper_step s of None \<Rightarrow> True | Some t \<Rightarrow> add_inv sp t"
  by (cases "wpc s"; cases "spc s")
    (simp_all add: sleeper_step_def add_inv_def w_past_check_def s_past_check_def touch_def add_free_def)

lemma add_step_inv_case:
  assumes "add_inv sp s"
  shows "case add_step e s of None \<Rightarrow> True | Some t \<Rightarrow> add_inv sp t"
proof (cases e)
  case (Ipc_add r)
  with assms show ?thesis
    by (cases "wpc s"; cases "spc s")
      (simp_all add: add_step_def add_inv_def w_past_check_def s_past_check_def touch_def)
next
  case (Step th)
  with assms waiter_step_inv_case [OF assms] sleeper_step_inv_case [OF assms] show ?thesis
    by (cases th) (simp_all add: add_step_def)
next
  case (Exec_result ok)
  with assms show ?thesis
    by (cases "wpc s"; cases "spc s")
      (simp_all add: add_step_def add_inv_def w_past_check_def s_past_check_def touch_def)
qed

lemma add_step_inv: "add_step e s = Some t \<Longrightarrow> add_inv sp s \<Longrightarrow> add_inv sp t"
  using add_step_inv_case [of sp s e] by simp

lemma add_reach_inv: "add_reach sp s \<Longrightarrow> add_inv sp s"
proof (induction rule: add_reach.induct)
  case init
  show ?case by (rule add_inv_init)
next
  case (step s e t)
  then show ?case by (blast intro: add_step_inv)
qed

lemma add_run_reach: "add_reach sp s \<Longrightarrow> add_run es s = Some t \<Longrightarrow> add_reach sp t"
proof (induction es arbitrary: s)
  case Nil
  then show ?case by simp
next
  case (Cons e es)
  then show ?case by (auto intro: add_reach.step split: option.splits)
qed

lemma add_run_init_reach: "add_run es (add_init sp) = Some t \<Longrightarrow> add_reach sp t"
  by (rule add_run_reach [OF add_reach.init])

section \<open>Properties of the handshake\<close>

lemmas add_state_simps = add_step_def waiter_step_def sleeper_step_def touch_def add_free_def add_init_def

text \<open>
  C19: The shared \<open>Instance_Add\<close> object is freed at most once in every reachable state of the two threads, whatever the interleaving.
\<close>

theorem add_no_double_free: "add_reach sp s \<Longrightarrow> frees s \<le> 1"
  by (drule add_reach_inv) (auto simp: add_inv_def)

theorem add_no_double_free_witness:
  "frees (the (add_run timeout_run (add_init True))) \<le> 1"
proof -
  have "add_run timeout_run (add_init True) = Some (the (add_run timeout_run (add_init True)))"
    by (simp add: add_state_simps)
  then show ?thesis using add_no_double_free add_run_init_reach by blast
qed

text \<open>
  C21: There is an interleaving in which the watchdog uses the object after the waiter freed it: the watchdog times out and unlocks, the waiter then gets its answer, sees the timeout and frees the object, and the watchdog reads \<open>add->argv\<close> for \<open>execv\<close>.
\<close>

theorem add_use_after_free:
  "\<exists>s. add_reach True s \<and> uaf s"
proof -
  have "add_run (timeout_run @ [Exec_result True]) (add_init True) =
        Some (the (add_run (timeout_run @ [Exec_result True]) (add_init True)))"
    by (simp add: add_state_simps)
  moreover have "uaf (the (add_run (timeout_run @ [Exec_result True]) (add_init True)))"
    by (simp add: add_state_simps)
  ultimately show ?thesis using add_run_init_reach by blast
qed

text \<open>
  C20: The two threads are never both between \<open>pthread_mutex_lock\<close> and \<open>pthread_mutex_unlock\<close>.
\<close>

theorem add_mutual_exclusion:
  "add_reach sp s \<Longrightarrow> \<not> (wpc s \<in> {W_check, W_unlock} \<and> spc s \<in> {S_check, S_unlock})"
  by (drule add_reach_inv) (simp add: add_inv_def)

theorem add_mutual_exclusion_witness:
  "\<not> (wpc (the (add_run answered_run (add_init True))) \<in> {W_check, W_unlock} \<and>
      spc (the (add_run answered_run (add_init True))) \<in> {S_check, S_unlock})"
proof -
  have "add_run answered_run (add_init True) = Some (the (add_run answered_run (add_init True)))"
    by (simp add: add_state_simps)
  then show ?thesis using add_mutual_exclusion add_run_init_reach by blast
qed

lemma add_inv_progress:
  assumes "add_inv sp s" "\<not> add_final s"
  shows "\<exists>e t. add_step e s = Some t"
proof -
  have ne: "\<not> exec_done s" using assms(2) by (simp add: add_final_def)
  have "add_step (Ipc_add True) s \<noteq> None \<or> add_step (Step Waiter) s \<noteq> None \<or>
        add_step (Step Sleeper) s \<noteq> None \<or> add_step (Exec_result True) s \<noteq> None"
  proof (cases "wpc s = W_ret \<or> (wpc s = W_lock \<and> lock_holder s \<noteq> None)")
    case True
    then have "spc s \<notin> {S_ret, S_none}"
      using assms by (auto simp: add_final_def add_inv_def)
    with True assms(1) ne show ?thesis
      by (cases "spc s") (auto simp: add_step_def sleeper_step_def add_inv_def)
  next
    case False
    with ne show ?thesis
      by (cases "wpc s") (auto simp: add_step_def waiter_step_def Let_def)
  qed
  then show ?thesis by blast
qed

text \<open>
  C22: The handshake never deadlocks: in every reachable state that is not final, some event can happen.
\<close>

theorem add_no_deadlock:
  "add_reach sp s \<Longrightarrow> \<not> add_final s \<Longrightarrow> \<exists>e t. add_step e s = Some t"
  by (blast dest: add_reach_inv intro: add_inv_progress)

theorem add_no_deadlock_witness:
  "\<exists>e t. add_step e (the (add_run [Ipc_add False] (add_init True))) = Some t"
proof -
  have "add_run [Ipc_add False] (add_init True) = Some (the (add_run [Ipc_add False] (add_init True)))"
    by (simp add: add_state_simps)
  moreover have "\<not> add_final (the (add_run [Ipc_add False] (add_init True)))"
    by (simp add: add_state_simps add_final_def)
  ultimately show ?thesis using add_no_deadlock add_run_init_reach by blast
qed

text \<open>
  C23: When the watchdog was started and both threads have finished without the process being replaced, the object has been freed exactly once: by the waiter after a timeout, by the watchdog otherwise.
\<close>

theorem add_exactly_one_free:
  "add_reach True s \<Longrightarrow> add_final s \<Longrightarrow> \<not> exec_done s \<Longrightarrow> frees s = 1"
  by (drule add_reach_inv) (auto simp: add_inv_def add_final_def w_past_check_def)

theorem add_exactly_one_free_witness:
  "frees (the (add_run (timeout_run @ [Exec_result False]) (add_init True))) = 1"
proof -
  let ?s = "the (add_run (timeout_run @ [Exec_result False]) (add_init True))"
  have "add_run (timeout_run @ [Exec_result False]) (add_init True) = Some ?s"
    by (simp add: add_state_simps)
  moreover have "add_final ?s \<and> \<not> exec_done ?s"
    by (simp add: add_state_simps add_final_def)
  ultimately show ?thesis using add_exactly_one_free add_run_init_reach by blast
qed

text \<open>
  C24: If the waiter returns success, the watchdog has not timed out and never re-executes the program, so the window is not opened twice.
\<close>

theorem add_answered_no_restart:
  "add_reach sp s \<Longrightarrow> wpc s = W_ret \<Longrightarrow> w_result s \<Longrightarrow>
   \<not> s_timedout s \<and> spc s \<noteq> S_exec \<and> \<not> exec_done s"
  by (drule add_reach_inv) (auto simp: add_inv_def w_past_check_def)

theorem add_answered_no_restart_witness:
  "\<not> s_timedout (the (add_run answered_run (add_init True))) \<and>
   spc (the (add_run answered_run (add_init True))) \<noteq> S_exec \<and>
   \<not> exec_done (the (add_run answered_run (add_init True)))"
proof -
  let ?s = "the (add_run answered_run (add_init True))"
  have "add_run answered_run (add_init True) = Some ?s"
    by (simp add: add_state_simps)
  moreover have "wpc ?s = W_ret \<and> w_result ?s"
    by (simp add: add_state_simps)
  ultimately show ?thesis using add_answered_no_restart add_run_init_reach by blast
qed

text \<open>
  C25: The result of \<open>pthread_create\<close> is not tested: when the watchdog thread is not created, both paths finish without freeing the object.
\<close>

theorem add_unspawned_leaks:
  "add_reach False s \<Longrightarrow> add_final s \<Longrightarrow> frees s = 0"
  by (drule add_reach_inv) (auto simp: add_inv_def add_final_def w_past_check_def s_past_check_def)

theorem add_unspawned_leaks_witness:
  "frees (the (add_run [Ipc_add True, Step Waiter, Step Waiter, Step Waiter, Step Waiter] (add_init False))) = 0"
proof -
  let ?s = "the (add_run [Ipc_add True, Step Waiter, Step Waiter, Step Waiter, Step Waiter] (add_init False))"
  have "add_run [Ipc_add True, Step Waiter, Step Waiter, Step Waiter, Step Waiter] (add_init False) = Some ?s"
    by (simp add: add_state_simps)
  moreover have "add_final ?s"
    by (simp add: add_state_simps add_final_def)
  ultimately show ?thesis using add_unspawned_leaks add_run_init_reach by blast
qed

lemma start_multi_loop_rounds:
  "t \<le> 1 \<Longrightarrow> Suc t \<le> multi_rounds (start_multi_loop w sv t) \<and> multi_rounds (start_multi_loop w sv t) \<le> 2"
  by (induction w sv t rule: start_multi_loop.induct) (simp add: start_multi_loop.simps)

text \<open>
  C26: \<open>_start_multi\<close> returns after one or two rounds, whatever the server and the socket answer.
\<close>

theorem start_multi_rounds:
  "1 \<le> multi_rounds (snd (start_multi w sv)) \<and> multi_rounds (snd (start_multi w sv)) \<le> 2"
  using start_multi_loop_rounds [of 0 w sv] by (simp add: start_multi_def Let_def)

text \<open>
  C27: \<open>_start_multi\<close> returns \<open>EINA_TRUE\<close> exactly when the first request is answered, or the first request fails, this process cannot become the server, and the second request is answered.
\<close>

theorem start_multi_result:
  "fst (start_multi w sv) \<longleftrightarrow> w 0 \<or> (\<not> sv 0 \<and> w 1)"
  by (simp add: start_multi_def start_multi_loop.simps split: multi_outcome.split)

end
