(* ===== verification/Main_Flow.thy ===== *)
theory Main_Flow
  imports Launch Startup
begin

text \<open>
  The control flow of \<open>elm_main\<close> (\<open>main.c\<close> lines 809--1108), composed from
  the components modelled in \<open>Geometry\<close>, \<open>Instance\<close>, \<open>Launch\<close> and
  \<open>Startup\<close>: the designated initializer of the instance, the option parse
  (an EFL library call, an input here), the \<open>--scale\<close>, \<open>--no-wizard\<close> and
  quit options, the \<open>-e\<close> command, \<open>_check_multisense\<close>,
  \<open>_configure_instance\<close>, the geometry, the login shell, the choice between
  \<open>_start_multi\<close> and \<open>_start\<close>, and the \<open>end\<close> label that releases the
  instance's configuration. The library calls that only initialise or shut
  down EFL modules are not modelled.
\<close>

section \<open>Inputs and results\<close>

definition EXIT_SUCCESS :: int where "EXIT_SUCCESS = 0"
definition EXIT_FAILURE :: int where "EXIT_FAILURE = 1"

text \<open>
  Lines 818--827: the instance before option parsing. Every field the
  initializer does not name is zero: \<open>NULL\<close> strings, \<open>EINA_FALSE\<close> flags, no
  position, an empty command list.
\<close>

definition elm_main_instance0 :: "string option \<Rightarrow> ipc_instance" where
  "elm_main_instance0 sid =
     \<lparr>inst_w = 1, inst_h = 1, inst_x = 0, inst_y = 0, inst_pos = False,
      name = None, role = None, title = None, icon_name = None, font = None,
      startup_id = sid, startup_split = None, cd = None, background = None, theme = None,
      colorscheme = None, cmd = None, cmds = [],
      fullscreen = False, iconic = False, borderless = False, override = False,
      maximized = False, hold = False, nowm = False, xterm_256color = False,
      login_shell = IPC_INSTANCE_OPT_UNSET, active_links = IPC_INSTANCE_OPT_UNSET,
      video_mute = IPC_INSTANCE_OPT_UNSET, cursor_blink = IPC_INSTANCE_OPT_UNSET,
      visual_bell = IPC_INSTANCE_OPT_UNSET\<rparr>"

text \<open>
  What \<open>ecore_getopt_parse\<close> leaves (line 922): its return value \<open>args\<close>
  (negative on error), the instance with the stored option values, and the
  locals of \<open>elm_main\<close> that \<open>values[]\<close> points to (\<open>scale\<close> only as whether
  it is positive, which is all \<open>elm_main\<close> tests).
\<close>

record getopt_result =
  go_args :: int
  go_inst :: ipc_instance
  go_geometry :: "string option"
  go_quit :: bool
  go_single :: bool
  go_no_wizard :: bool
  go_cmd_options :: bool
  go_scale :: bool

text \<open>
  The results of the library calls \<open>elm_main\<close> depends on: the log domain and
  key bindings, \<open>utils_need_scale_wizard\<close>, \<open>getenv\<close>, \<open>config_load\<close>, the
  option parser, the theme and font lookups of \<open>_configure_instance\<close>, the
  audio channel, \<open>getcwd\<close>, the request and serve attempts of
  \<open>_start_multi\<close> and the EFL results of \<open>_start\<close>.
\<close>

record main_io =
  mi_log_ok :: bool
  mi_keys_ok :: bool
  mi_need_wizard :: bool
  mi_startup_id :: "string option"
  mi_config :: config
  mi_getopt :: "ipc_instance \<Rightarrow> getopt_result"
  mi_theme_path :: "string \<Rightarrow> string"
  mi_font_files :: "string list"
  mi_audio :: audio_channel
  mi_cwd :: "string option"
  mi_waiter :: "nat \<Rightarrow> bool"
  mi_serve :: "nat \<Rightarrow> bool"
  mi_start_io :: start_io

text \<open>Where \<open>elm_main\<close> left its straight path.\<close>

datatype main_exit =
    Log_failed | Keys_failed | Parse_failed | Quit_option | Exec_missing
  | Remote_started | Main_loop_ran

text \<open>
  The result: the exit status, the exit taken, the instance and its
  configuration as \<open>elm_main\<close> last set them, whether \<open>instance.config\<close>
  still points to that configuration (the copy \<open>config_fork\<close> made), the
  number of \<open>config_del\<close> calls on it, the
  global \<open>multisense_available\<close>, what \<open>_start\<close> did when it ran, and what
  \<open>_start_multi\<close> returned when it ran.
\<close>

record main_result =
  mr_retval :: int
  mr_exit :: main_exit
  mr_inst :: ipc_instance
  mr_config :: config
  mr_config_held :: bool
  mr_config_frees :: nat
  mr_multisense :: bool
  mr_start :: "start_outcome option"
  mr_multi :: "multi_outcome option"

section \<open>The steps of elm_main\<close>

text \<open>
  Lines 943--973: the \<open>-e\<close> command. With \<open>-S\<close> the later words are appended
  to \<open>instance.cmds\<close>; otherwise the command is the joined words.
  \<open>None\<close>: \<open>-e\<close> was the last argument.
\<close>

definition elm_main_cmd :: "string list \<Rightarrow> nat \<Rightarrow> ipc_instance \<Rightarrow> ipc_instance option" where
  "elm_main_cmd argv args inst =
     (case elm_main_exec argv args (startup_split inst \<noteq> None) of
        None \<Rightarrow> None
      | Some (c, cl) \<Rightarrow>
          Some (if startup_split inst \<noteq> None then inst\<lparr>cmds := cmds inst @ cl, cmd := Some c\<rparr>
                else inst\<lparr>cmd := Some c\<rparr>))"

text \<open>
  The \<open>end\<close> label (lines 1076--1081): the instance's configuration is
  released when \<open>instance.config\<close> still points to it.
\<close>

definition elm_main_end :: "main_result \<Rightarrow> main_result" where
  "elm_main_end r =
     (if mr_config_held r then r\<lparr>mr_config_held := False, mr_config_frees := Suc (mr_config_frees r)\<rparr>
      else r)"

text \<open>
  \<open>_start\<close> (lines 583--598): it hands \<open>instance->config\<close> to \<open>win_new\<close> and
  then calls \<open>config_del\<close> on it, leaving the pointer in the instance as it is.
\<close>

definition elm_main_start :: "main_io \<Rightarrow> bool \<Rightarrow> main_result \<Rightarrow> main_result" where
  "elm_main_start io wiz r =
     r\<lparr>mr_start := Some (start_window (mi_start_io io) wiz (mr_inst r)),
       mr_config_frees := Suc (mr_config_frees r)\<rparr>"

text \<open>
  Lines 1069--1075: \<open>elm_run\<close> runs the main loop, the modules are shut down and
  \<open>instance.config\<close> is set to \<open>NULL\<close> before \<open>end\<close>.
\<close>

definition elm_main_run :: "main_result \<Rightarrow> main_result" where
  "elm_main_run r = elm_main_end (r\<lparr>mr_exit := Main_loop_ran, mr_config_held := False\<rparr>)"

text \<open>
  Lines 1056--1070: \<open>_start_multi\<close> unless \<open>-s\<close> was given or the
  configuration disables multiple instances; \<open>_start_multi\<close> calls \<open>_start\<close>
  itself when it returns \<open>EINA_FALSE\<close> (\<open>Startup.start_multi\<close> gives the
  value and the rounds, the call is composed here). A remote window jumps to
  \<open>end\<close>.
\<close>

definition elm_main_launch :: "main_io \<Rightarrow> bool \<Rightarrow> bool \<Rightarrow> main_result \<Rightarrow> main_result" where
  "elm_main_launch io single wiz r =
     (if \<not> single \<and> cfg_multi_instance (mr_config r) then
        let inst = mr_inst r;
            r1 = r\<lparr>mr_inst := (if cd inst = None then inst\<lparr>cd := mi_cwd io\<rparr> else inst)\<rparr>;
            (remote, mo) = start_multi (mi_waiter io) (mi_serve io);
            r2 = r1\<lparr>mr_multi := Some mo\<rparr>
        in if remote then elm_main_end (r2\<lparr>mr_exit := Remote_started\<rparr>)
           else elm_main_run (elm_main_start io wiz r2)
      else elm_main_run (elm_main_start io wiz r))"

text \<open>
  \<open>elm_main\<close>. A failed log domain returns at once (lines 895--902); a failed key
  binding load (line 907) jumps to \<open>end\<close> before the configuration is forked;
  from line 920 on \<open>instance.config\<close> holds the fork. The parse error, the
  quit options and a missing \<open>-e\<close> command jump to \<open>end\<close>; only the first two
  failures set \<open>retval\<close>.
\<close>

definition elm_main :: "main_io \<Rightarrow> string list \<Rightarrow> main_result" where
  "elm_main io argv =
     (let inst0 = elm_main_instance0 (mi_startup_id io);
          r0 = \<lparr>mr_retval = EXIT_SUCCESS, mr_exit = Main_loop_ran, mr_inst = inst0,
                mr_config = mi_config io, mr_config_held = False, mr_config_frees = 0,
                mr_multisense = True, mr_start = None, mr_multi = None\<rparr>
      in if \<not> mi_log_ok io then r0\<lparr>mr_retval := EXIT_FAILURE, mr_exit := Log_failed\<rparr>
      else if \<not> mi_keys_ok io then elm_main_end (r0\<lparr>mr_retval := EXIT_FAILURE, mr_exit := Keys_failed\<rparr>)
      else
      let go = mi_getopt io inst0;
          r1 = r0\<lparr>mr_config_held := True, mr_inst := go_inst go\<rparr>
      in if go_args go < 0 then elm_main_end (r1\<lparr>mr_retval := EXIT_FAILURE, mr_exit := Parse_failed\<rparr>)
      else
      let cfg1 = (if go_scale go then (mi_config io)\<lparr>cfg_temporary := True\<rparr> else mi_config io);
          wiz = (mi_need_wizard io \<and> \<not> go_no_wizard go);
          r2 = r1\<lparr>mr_config := cfg1\<rparr>
      in if go_quit go then elm_main_end (r2\<lparr>mr_exit := Quit_option\<rparr>)
      else
      case (if go_cmd_options go then elm_main_cmd argv (nat (go_args go)) (go_inst go)
            else Some (go_inst go)) of
        None \<Rightarrow> elm_main_end (r2\<lparr>mr_exit := Exec_missing\<rparr>)
      | Some inst2 \<Rightarrow>
          let ms = fst (check_multisense True (mi_audio io));
              cfg2 = configure_instance (mi_theme_path io) (mi_font_files io) inst2 cfg1;
              inst3 = elm_main_login_shell cfg2 (elm_main_geometry cfg2 (go_geometry go) inst2)
          in elm_main_launch io (go_single go) wiz
               (r2\<lparr>mr_inst := inst3, mr_config := cfg2, mr_multisense := ms\<rparr>))"

text \<open>
  Sample inputs: the configuration of \<open>Instance_Data\<close>, a parse that stores
  nothing and reports \<open>args\<close> = 2 with \<open>-e\<close> given, and EFL calls that all
  succeed.
\<close>

abbreviation sample_main_io :: main_io where
  "sample_main_io \<equiv>
     \<lparr>mi_log_ok = True, mi_keys_ok = True, mi_need_wizard = False, mi_startup_id = None,
      mi_config = sample_config,
      mi_getopt = (\<lambda>i. \<lparr>go_args = 2, go_inst = i, go_geometry = None, go_quit = False,
                        go_single = False, go_no_wizard = False, go_cmd_options = True,
                        go_scale = False\<rparr>),
      mi_theme_path = (\<lambda>s. ''/usr/share/terminology/themes/'' @ s), mi_font_files = [],
      mi_audio = \<lparr>ch_supported = True, ch_mute = False\<rparr>, mi_cwd = Some ''/home'',
      mi_waiter = (\<lambda>_. False), mi_serve = (\<lambda>_. True), mi_start_io = sample_start_io\<rparr>"

text \<open>The same run with \<open>-S v-h\<close> and \<open>-s\<close>: a local start that splits the window.\<close>

abbreviation sample_split_io :: main_io where
  "sample_split_io \<equiv> sample_main_io\<lparr>mi_getopt :=
     (\<lambda>i. \<lparr>go_args = 2, go_inst = i\<lparr>startup_split := Some ''v-h''\<rparr>, go_geometry = None, go_quit = False,
           go_single = True, go_no_wizard = False, go_cmd_options = True, go_scale = False\<rparr>)\<rparr>"

section \<open>Lemmas\<close>

lemma sscanf_geom_more:
  "ipc_geometry.more (snd (sscanf_geom ds s n g)) = ipc_geometry.more g"
  by (induction ds s n g rule: sscanf_geom.induct)
     (auto simp: set_geom_var_def split: list.split option.split geom_var.split)

lemma sscanf_more:
  "sscanf s f vs g = (n, g') \<Longrightarrow> ipc_geometry.more g' = ipc_geometry.more g"
  by (metis sscanf_def snd_conv sscanf_geom_more)

lemma parse_geometry_more:
  "ipc_geometry.more (fst (parse_geometry s g)) = ipc_geometry.more g"
  by (auto simp: parse_geometry_def Let_def split: prod.split dest!: sscanf_more)

lemma elm_main_geometry_more:
  "ipc_geometry.more (elm_main_geometry cfg geo g) = ipc_geometry.more g"
  by (auto simp: elm_main_geometry_def parse_geometry_more split: option.split prod.split
           dest: arg_cong [where f = "\<lambda>p. ipc_geometry.more (fst p)"])

lemma elm_main_end_frees [simp]:
  "mr_config_frees (elm_main_end r) = (if mr_config_held r then Suc (mr_config_frees r) else mr_config_frees r)"
  "\<not> mr_config_held (elm_main_end r)"
  by (simp_all add: elm_main_end_def)

lemma elm_main_end_keeps [simp]:
  "mr_retval (elm_main_end r) = mr_retval r" "mr_exit (elm_main_end r) = mr_exit r"
  "mr_start (elm_main_end r) = mr_start r" "mr_multi (elm_main_end r) = mr_multi r"
  by (simp_all add: elm_main_end_def)

lemma elm_main_launch_frees:
  "mr_config_held r \<Longrightarrow>
   mr_config_frees (elm_main_launch io single wiz r) = Suc (mr_config_frees r) \<and>
   \<not> mr_config_held (elm_main_launch io single wiz r)"
  by (simp add: elm_main_launch_def elm_main_run_def elm_main_start_def Let_def split: prod.split)

lemma elm_main_launch_retval [simp]:
  "mr_retval (elm_main_launch io single wiz r) = mr_retval r"
  by (simp add: elm_main_launch_def elm_main_run_def elm_main_start_def Let_def split: prod.split)

lemma ipc_more_fields:
  fixes a b :: ipc_instance
  assumes "ipc_geometry.more a = ipc_geometry.more b"
  shows "startup_split a = startup_split b \<and> cmds a = cmds b \<and> cmd a = cmd b"
  using assms by (cases a, cases b) simp

lemma elm_main_geometry_fields [simp]:
  fixes i :: ipc_instance
  shows "startup_split (elm_main_geometry cfg geo i) = startup_split i"
    "cmds (elm_main_geometry cfg geo i) = cmds i"
    "cmd (elm_main_geometry cfg geo i) = cmd i"
  using ipc_more_fields [OF elm_main_geometry_more [of cfg geo i]] by simp_all

lemma elm_main_login_shell_fields [simp]:
  "startup_split (elm_main_login_shell cfg i) = startup_split i"
  "cmds (elm_main_login_shell cfg i) = cmds i"
  "cmd (elm_main_login_shell cfg i) = cmd i"
  by (simp_all add: elm_main_login_shell_def)

lemma elm_main_end_inst [simp]: "mr_inst (elm_main_end r) = mr_inst r"
  by (simp add: elm_main_end_def)

lemma start_window_split_cmds:
  assumes "st_win_ok io" "st_term_ok io" "st_term_set_ok io"
    and "startup_split inst = Some sp" "set sp \<subseteq> {CHR ''v'', CHR ''h'', CHR ''-''}"
  shows "\<exists>d. start_window io w inst = Start_running d \<and>
    map split_cmd (sd_splits d) =
      take (length (filter (\<lambda>c. c = CHR ''v'' \<or> c = CHR ''h'') sp))
        (map Some (cmds inst) @ replicate (length (filter (\<lambda>c. c = CHR ''v'' \<or> c = CHR ''h'') sp)) None)"
proof -
  obtain as r ok where sp: "start_split (st_term_next io) sp 0 (cmds inst) = (as, r, ok)"
    by (metis prod.exhaust)
  with start_split_valid [OF assms(5), of "st_term_next io" 0 "cmds inst"] have "ok" "map split_cmd as =
      take (length (filter (\<lambda>c. c = CHR ''v'' \<or> c = CHR ''h'') sp))
        (map Some (cmds inst) @ replicate (length (filter (\<lambda>c. c = CHR ''v'' \<or> c = CHR ''h'') sp)) None)"
    by simp_all
  with assms sp show ?thesis
    by (simp add: start_window_def)
qed

text \<open>
  C28 (exit status, lines 865--1107): \<open>elm_main\<close> returns \<open>EXIT_FAILURE\<close>
  exactly when the log domain, the key bindings or the option parse failed. Every
  other path returns \<open>EXIT_SUCCESS\<close>: the quit options, a missing \<open>-e\<close>
  command, a window handed to a server, and a local start even when \<open>_start\<close>
  could not create the window or the terminal.
\<close>

theorem elm_main_retval:
  "mr_retval (elm_main io argv) =
   (if mi_log_ok io \<and> mi_keys_ok io \<and> 0 \<le> go_args (mi_getopt io (elm_main_instance0 (mi_startup_id io)))
    then EXIT_SUCCESS else EXIT_FAILURE)"
  by (simp add: elm_main_def Let_def split: option.split)

text \<open>
  C29 (the \<open>-e\<close> error path, lines 947--952): when \<open>-e\<close> is the last
  argument, \<open>elm_main\<close> reports the missing command and jumps to \<open>end\<close>
  without starting a window or asking a server, yet leaves \<open>retval\<close> at
  \<open>EXIT_SUCCESS\<close>: the process exits with status 0.
\<close>

theorem elm_main_exec_missing:
  assumes "mi_log_ok io" "mi_keys_ok io"
    and "go_args (mi_getopt io (elm_main_instance0 (mi_startup_id io))) = int (length argv)"
    and "\<not> go_quit (mi_getopt io (elm_main_instance0 (mi_startup_id io)))"
    and "go_cmd_options (mi_getopt io (elm_main_instance0 (mi_startup_id io)))"
  shows "mr_exit (elm_main io argv) = Exec_missing \<and> mr_retval (elm_main io argv) = EXIT_SUCCESS \<and>
         mr_start (elm_main io argv) = None \<and> mr_multi (elm_main io argv) = None"
  using assms by (simp add: elm_main_def elm_main_cmd_def elm_main_exec_def Let_def)

theorem elm_main_exec_missing_witness:
  "mr_exit (elm_main sample_main_io [''terminology'', ''-e'']) = Exec_missing \<and>
   mr_retval (elm_main sample_main_io [''terminology'', ''-e'']) = EXIT_SUCCESS \<and>
   mr_start (elm_main sample_main_io [''terminology'', ''-e'']) = None \<and>
   mr_multi (elm_main sample_main_io [''terminology'', ''-e'']) = None"
  using elm_main_exec_missing [of sample_main_io "[''terminology'', ''-e'']"] by simp

text \<open>
  C34 (\<open>-S\<close> with \<open>-e\<close>, through \<open>elm_main\<close>): started locally with a
  valid \<open>-S\<close> string and \<open>-e cmd w1 ... wn\<close>, \<open>elm_main\<close> gives the
  instance the command \<open>cmd\<close>, and \<open>_start\<close> makes one split per \<open>v\<close> or
  \<open>h\<close> whose commands are \<open>w1 ... wn\<close> in order, then \<open>NULL\<close> once they run
  out: the words \<open>elm_main\<close> appended to \<open>instance.cmds\<close> are the ones the
  splits consume.
\<close>

theorem elm_main_split_commands:
  assumes "mi_log_ok io" "mi_keys_ok io"
    and "mi_getopt io (elm_main_instance0 (mi_startup_id io)) = go"
    and "0 \<le> go_args go" "nat (go_args go) < length argv"
    and "\<not> go_quit go" "go_cmd_options go" "go_single go"
    and "startup_split (go_inst go) = Some sp" "cmds (go_inst go) = []"
    and "set sp \<subseteq> {CHR ''v'', CHR ''h'', CHR ''-''}"
    and "st_win_ok (mi_start_io io)" "st_term_ok (mi_start_io io)" "st_term_set_ok (mi_start_io io)"
  shows "cmd (mr_inst (elm_main io argv)) = Some (argv ! nat (go_args go)) \<and>
    (\<exists>d. mr_start (elm_main io argv) = Some (Start_running d) \<and>
       map split_cmd (sd_splits d) =
         take (length (filter (\<lambda>c. c = CHR ''v'' \<or> c = CHR ''h'') sp))
           (map Some (drop (Suc (nat (go_args go))) argv) @
            replicate (length (filter (\<lambda>c. c = CHR ''v'' \<or> c = CHR ''h'') sp)) None))"
proof -
  let ?a = "nat (go_args go)"
  have c: "elm_main_cmd argv ?a (go_inst go) =
           Some ((go_inst go)\<lparr>cmds := drop (Suc ?a) argv, cmd := Some (argv ! ?a)\<rparr>)"
    using assms(5,9,10) by (simp add: elm_main_cmd_def elm_main_exec_def)
  have st: "mr_start (elm_main io argv) =
      Some (start_window (mi_start_io io) (mi_need_wizard io \<and> \<not> go_no_wizard go) (mr_inst (elm_main io argv)))"
    and f: "startup_split (mr_inst (elm_main io argv)) = Some sp"
      "cmds (mr_inst (elm_main io argv)) = drop (Suc ?a) argv"
      "cmd (mr_inst (elm_main io argv)) = Some (argv ! ?a)"
    using assms(1-4,6-9) c
    by (simp_all add: elm_main_def Let_def elm_main_launch_def elm_main_run_def elm_main_start_def)
  obtain d where "start_window (mi_start_io io) (mi_need_wizard io \<and> \<not> go_no_wizard go) (mr_inst (elm_main io argv))
      = Start_running d \<and> map split_cmd (sd_splits d) =
        take (length (filter (\<lambda>c. c = CHR ''v'' \<or> c = CHR ''h'') sp))
          (map Some (drop (Suc ?a) argv) @ replicate (length (filter (\<lambda>c. c = CHR ''v'' \<or> c = CHR ''h'') sp)) None)"
    using start_window_split_cmds [OF assms(12-14) f(1) assms(11)] f(2) by auto
  with st f(3) show ?thesis by auto
qed

theorem elm_main_split_commands_witness:
  "cmd (mr_inst (elm_main sample_split_io [''terminology'', ''-e'', ''sh'', ''top''])) = Some ''sh'' \<and>
   (\<exists>d. mr_start (elm_main sample_split_io [''terminology'', ''-e'', ''sh'', ''top'']) = Some (Start_running d) \<and>
      map split_cmd (sd_splits d) = [Some ''top'', None])"
  using elm_main_split_commands [of sample_split_io
      "mi_getopt sample_split_io (elm_main_instance0 None)" "[''terminology'', ''-e'', ''sh'', ''top'']" "''v-h''"]
  by (simp add: elm_main_instance0_def)

text \<open>
  C35 (ownership of the forked configuration): on every path through
  \<open>elm_main\<close> (every option, every library result, the remote window, and
  \<open>_start\<close> with its \<open>config_del\<close>), the configuration \<open>config_fork\<close> made is
  released exactly once when the log domain and key bindings were set up, and
  never otherwise; \<open>instance.config\<close> is not left pointing to it.
\<close>

theorem elm_main_config_freed_once:
  "mr_config_frees (elm_main io argv) = (if mi_log_ok io \<and> mi_keys_ok io then 1 else 0) \<and>
   \<not> mr_config_held (elm_main io argv)"
  by (simp add: elm_main_def Let_def elm_main_launch_frees split: option.split)

end
