(* ===== verification/Spec2Isabelle.thy ===== *)
theory Spec2Isabelle
  imports Registry Main_Flow
begin

text \<open>
Verification development of terminology's scrollback buffer and of the
  start-up logic of its main program. The repository's implementation files
  are \<open>src/src/bin/backlog.h\<close> (the circular scrollback buffer's row
  macro) and \<open>src/src/bin/main.c\<close> (option handling, instance configuration,
  the multi-instance protocol and window start). The functions those files
  call in other parts of terminology or in EFL are inputs of the model.

  \<^bold>\<open>Parts and theories.\<close>
  \<^item> \<open>Prelude\<close>: the lemma collections \<open>ring_simps\<close> and \<open>ledger_simps\<close>, the
    type names of the model, and shared facts on lists, sums and modular
    arithmetic.
  \<^item> \<open>Backlog\<close>: the scrollback of one terminal. The record \<open>backlog\<close> holds
    \<open>backsize\<close>, \<open>backpos\<close> (next slot to write), \<open>backlen\<close> and the slots;
    \<open>row_index\<close>/\<open>backlog_row_get\<close> translate \<open>BACKLOG_ROW_GET\<close> of
    \<open>backlog.h\<close> on \<open>nat\<close> and on 64-bit \<open>size_t\<close> words. Push, get, expand,
    clear and resize are modelled from the specification, since their C file
    is not part of the repository. \<open>backlog_rows\<close> abstracts a buffer to its
    rows, most recent first, and \<open>spec_step\<close> is the abstract queue these
    operations refine (C1--C8).
  \<^item> \<open>Registry\<close>: the process-wide part of the scrollback behind the
    prototypes of \<open>backlog.h\<close> (\<open>termpty_save_register\<close>,
    \<open>termpty_save_unregister\<close>, \<open>termpty_save_extract\<close>,
    \<open>termpty_backlog_free\<close>, \<open>termpty_backlog_length\<close>,
    \<open>termpty_backlog_memory_get\<close>,
    \<open>termpty_backlog_lock\<close>/\<open>unlock\<close>), modelled from the specification since
    their C file is not in the repository. The record \<open>registry\<close> holds every
    session's \<open>backlog\<close>, the registered set, the ledger and the lock owner;
    \<open>reg_apply\<close> is one call of the interface, each buffer call going through
    \<open>backlog_step\<close> of \<open>Backlog\<close> with the ledger moved by the delta it
    reports; \<open>reg_step\<close> lets a thread acquire the lock, call while it holds
    it, and release it, and \<open>reg_reach\<close> is every state any interleaving
    reaches. The lock's discipline is built into \<open>reg_step\<close> (only the
    owner calls), so the properties are about what interleaved locked calls
    do to the ledger (C36--C38).
  \<^item> \<open>Instance_Data\<close>: the \<open>Ipc_Instance\<close> and \<open>Config\<close> fields \<open>main.c\<close>
    uses, with tri-state options as \<open>8 word\<close>, and sample values for the
    examples.
  \<^item> \<open>Geometry\<close>: \<open>printf\<close>'s and glibc \<open>scanf\<close>'s \<open>%i\<close>, the nine-pattern
    \<open>sscanf\<close> cascade of \<open>elm_main\<close> (\<open>parse_geometry\<close>,
    \<open>elm_main_geometry\<close>), and the \<open>snprintf\<close> branches of \<open>main_ipc_new\<close>
    (\<open>format_geometry\<close>). The round trip holds except for a zero width
    (C9, C10).
  \<^item> \<open>Instance\<close>: \<open>_set_instance_theme\<close>, \<open>_configure_instance\<close> (with the
    bitmap-font search \<open>font_scan\<close>), and \<open>main_ipc_new\<close>: the counted size
    \<open>main_ipc_nargc\<close>, the written entries \<open>main_ipc_nargv\<close>, the
    \<open>calloc\<close>ed array, the application arguments in \<open>proc_state\<close>, and each
    failure path (C11--C18).
  \<^item> \<open>Startup\<close>: \<open>_instance_add_waiter\<close> and its watchdog
    \<open>_instance_sleep\<close> as one step function \<open>add_step\<close> over both threads'
    program points and the shared \<open>struct Instance_Add\<close>; \<open>add_reach\<close> is the
    inductive set of reachable states and \<open>add_inv\<close> its invariant, proved by
    rule induction. \<open>_start_multi\<close> is \<open>start_multi_loop\<close>, terminating by a
    measure on \<open>remote_try\<close> (C19--C27).
  \<^item> \<open>Launch\<close>: the option table and \<open>values[]\<close> of \<open>elm_main\<close>,
    \<open>_translate_options\<close>, \<open>_check_multisense\<close>, the \<open>-e\<close> command
    (\<open>elm_main_exec\<close>), the login-shell default, and \<open>_start\<close> with its
    \<open>-S\<close> loop \<open>start_split\<close> (C30--C33).
  \<^item> \<open>Main_Flow\<close>: \<open>elm_main\<close> as a whole (\<open>elm_main\<close>): the
    initializer of the instance, the option parse as an input record
    \<open>getopt_result\<close>, the scale, wizard and quit options, the \<open>-e\<close> command
    (\<open>elm_main_cmd\<close>), multisense, \<open>_configure_instance\<close>, the geometry and
    login shell, then \<open>_start_multi\<close> or \<open>_start\<close> (\<open>elm_main_launch\<close>,
    \<open>elm_main_start\<close>) and the \<open>end\<close> label (\<open>elm_main_end\<close>). The record
    \<open>main_result\<close> tracks the exit status and exit taken, and whether
    \<open>instance.config\<close> still points to the forked configuration and how often
    it was released (C28, C29, C34, C35).
  \<^item> This theory: the header, and a lemma that relates the login shell
    \<open>elm_main\<close> resolves to the argument count of \<open>main_ipc_new\<close>.

  \<^bold>\<open>How the state corresponds to the code.\<close> Each C function is one
  definition with the function's name, or its name with the C prefix dropped.
  It takes the C structures it reads as records and returns the ones it writes.
  Early returns and \<open>goto\<close>s are branches of the result: \<open>Inl\<close>/\<open>None\<close>
  values, or outcome datatypes such as \<open>ipc_new_result\<close> and
  \<open>start_outcome\<close>. A \<open>NULL\<close> \<open>char *\<close> is \<open>None\<close>. The results of EFL calls
  are inputs: the records \<open>ipc_new_io\<close> and \<open>start_io\<close>, and the event
  parameters of \<open>add_step\<close>. Interleavings of the two threads are explicit
  sequences of \<open>add_event\<close>s.

  \<^bold>\<open>What the lemmas show.\<close>
  \<^item> Refinement of the scrollback buffer into an abstract queue of rows.
  \<^item> Bounds of the \<open>size_t\<close> index arithmetic.
  \<^item> The print/scan round trip of the geometry argument.
  \<^item> The exact relation between \<open>nargc\<close> and the entries written.
  \<^item> The state each failure path of \<open>main_ipc_new\<close> and \<open>_start\<close> leaves.
  \<^item> Mutual exclusion, no double free, no deadlock, and exactly one free for
    the start handshake, together with a reachable use after free.
  \<^item> Equivalence of the C loops (bitmap-font search, command joining) with library functions.
  \<^item> The exit status of \<open>elm_main\<close> on every path, the \<open>-e\<close> error path,
    the split commands \<open>elm_main\<close> hands to \<open>_start\<close>, and that the forked
    configuration is released exactly once on every path.
  \<^item> Ledger consistency of the registry under every interleaving of locked
    calls, the exact ledger gap unregistering a buffer with rows leaves, and
    the exact release by \<open>termpty_backlog_free\<close>.

  \<^bold>\<open>Bounds and fuel.\<close> No definition uses fuel. Every loop is structural
  recursion over a list or string, except \<open>start_multi_loop\<close>, whose measure
  is \<open>2 - remote_try\<close>. Machine integers matter in two places, so they are
  kept as words there. The first is \<open>BACKLOG_ROW_GET\<close> on \<open>64 word\<close>, exact
  for \<open>backsize \<le> 2^63\<close>. The second is the tri-state options as
  \<open>8 word\<close>. Geometry values are C \<open>int\<close>s kept as \<open>int\<close>: \<open>sscanf\<close>
  overflow is undefined and not modelled. Buffers are truncated at
  \<open>PATH_MAX = 4096\<close> and at the 4096-byte \<open>DESKTOP_STARTUP_ID\<close> buffer.

  \<^bold>\<open>Not modelled.\<close>
  \<^item> \<open>ecore_getopt_parse\<close>, the EFL widgets (\<open>win_new\<close>, \<open>term_new\<close>,
    splits), the IPC transport and \<open>config_compute_color_scheme\<close>: library or
    other-module code whose results are inputs of the model.
  \<^item> The escape-sequence interpreter and the terminal widgets, which are not
    part of the repository's sources.
  \<^item> The EFL module init/shutdown calls, logging and the main loop run by
    \<open>elm_run\<close>, which call libraries only; \<open>elm_main\<close> models only their
    results and the order of its own steps around them.
\<close>

section \<open>Lemmas across components\<close>

text \<open>
  For an instance as \<open>elm_main\<close> prepares it (the login shell resolved
  from a configuration that holds a boolean), the argument count
  \<open>main_ipc_new\<close> computes exceeds the entries it writes by the number of the
  four other tri-state options left unset.
\<close>

theorem elm_main_instance_nargc:
  assumes "cfg_login_shell cfg \<noteq> IPC_INSTANCE_OPT_UNSET"
  shows "main_ipc_nargc (elm_main_login_shell cfg inst) =
    length (main_ipc_nargv a (elm_main_login_shell cfg inst))
    + length (filter (\<lambda>v. v = IPC_INSTANCE_OPT_UNSET)
        [active_links inst, video_mute inst, cursor_blink inst, visual_bell inst])"
  using assms
  unfolding main_ipc_nargc_def main_ipc_nargv_def elm_main_login_shell_def
  by (simp add: geometry_needed_def)

theorem elm_main_instance_nargc_witness:
  "main_ipc_nargc (elm_main_login_shell sample_config sample_instance) =
   length (main_ipc_nargv (Arg ''terminology'') (elm_main_login_shell sample_config sample_instance)) + 4"
  using elm_main_instance_nargc [of sample_config sample_instance "Arg ''terminology''"]
  by (simp add: IPC_INSTANCE_OPT_UNSET_def)

end
